(* ===== verification/Prelude.thy ===== *)
theory Prelude
  imports Main "HOL-Library.Word" "HOL-Library.Char_ord" "HOL-Library.List_Lexorder"
    "HOL-Library.Product_Lexorder"
begin

text \<open>
  Shared vocabulary of the development.

  A Rust \<open>String\<close> is modelled by the list of its UTF-8 bytes, each byte a HOL \<open>char\<close>, so that
  \<open>len()\<close> is \<open>length\<close> and the byte-wise order that Rust's \<open>Ord\<close> and SQLite's \<open>BINARY\<close> collation
  both use is the lexicographic order of the library.  A byte vector is a list of 8-bit words.
  Integers keep the width the source gives them.

  The file holds: the type names, saturating addition, little-endian byte encodings, hexadecimal
  and decimal text, UTF-8 validity, and generic lemmas on lists.
\<close>

section \<open>Types\<close>

type_synonym u8 = "8 word"
type_synonym u32 = "32 word"
type_synonym u64 = "64 word"
type_synonym bytes = "u8 list"

text \<open>Facts about encodings that byte-level proofs rewrite with.\<close>

named_theorems codec_simps

section \<open>Saturating arithmetic\<close>

text \<open>\<open>saturating_add\<close> of Rust's unsigned integers: the sum, or the largest value on overflow.\<close>

definition sat_add :: "'a::len word \<Rightarrow> 'a word \<Rightarrow> 'a word" where
  "sat_add a b = (let s = a + b in if s < a then - 1 else s)"

lemma unat_max_word: "unat (- 1 :: 'a::len word) = 2 ^ LENGTH('a) - 1"
  by (simp add: unsigned_minus_1_eq_mask mask_eq_exp_minus_1)

lemma sat_add_unat:
  fixes a b :: "'a::len word"
  shows "unat (sat_add a b) = min (unat a + unat b) (2 ^ LENGTH('a) - 1)"
proof -
  define m :: nat where "m = 2 ^ LENGTH('a)"
  have ab: "unat a < m" "unat b < m"
    unfolding m_def by (rule unsigned_less)+
  have sum: "unat (a + b) = (unat a + unat b) mod m"
    unfolding m_def by (rule unat_word_ariths)
  show ?thesis
  proof (cases "unat a + unat b < m")
    case True
    with sum have s: "unat (a + b) = unat a + unat b" by simp
    then have "\<not> a + b < a" unfolding word_less_nat_alt by simp
    then have "sat_add a b = a + b" by (simp add: sat_add_def)
    with s True show ?thesis unfolding m_def by simp
  next
    case False
    with sum ab have s: "unat (a + b) = unat a + unat b - m"
      by (simp add: mod_if)
    with False ab have "a + b < a" unfolding word_less_nat_alt by linarith
    then have "sat_add a b = - 1" by (simp add: sat_add_def)
    with False show ?thesis unfolding m_def by (simp add: unat_max_word)
  qed
qed

lemma unat_le_max: "unat (a :: 'a::len word) \<le> 2 ^ LENGTH('a) - 1"
proof -
  have "unat a < 2 ^ LENGTH('a)" by (rule unsigned_less)
  then show ?thesis by linarith
qed

lemma sat_add_ge: "a \<le> sat_add a b"
  unfolding word_le_nat_alt sat_add_unat using unat_le_max [of a] by simp

lemma sat_add_1_gt:
  fixes a :: "'a::len word"
  assumes "a \<noteq> - 1"
  shows "a < sat_add a 1"
proof -
  have "unat a \<noteq> 2 ^ LENGTH('a) - 1"
    using assms unfolding unat_max_word [symmetric] by (simp add: word_unat_eq_iff)
  with unat_le_max [of a] show ?thesis
    unfolding word_less_nat_alt sat_add_unat by simp
qed

section \<open>Bytes and characters\<close>

definition char_byte :: "char \<Rightarrow> u8" where
  "char_byte c = of_char c"

definition byte_char :: "u8 \<Rightarrow> char" where
  "byte_char b = char_of (unat b)"

text \<open>\<open>as_bytes\<close> of a string, and the string made of given bytes.\<close>

definition as_bytes :: "string \<Rightarrow> bytes" where
  "as_bytes s = List.map char_byte s"

definition bytes_str :: "bytes \<Rightarrow> string" where
  "bytes_str b = List.map byte_char b"

lemma unat_char_byte: "unat (char_byte c) = of_char c"
proof -
  have "char_byte c = word_of_nat (of_char c)" by (simp add: char_byte_def of_nat_of_char)
  then show ?thesis by (simp add: unsigned_of_nat take_bit_eq_mod)
qed

lemma byte_char_byte [simp]: "byte_char (char_byte c) = c"
  by (simp add: byte_char_def unat_char_byte)

lemma char_byte_char [simp]: "char_byte (byte_char b) = b"
proof -
  have "unat b < 256" using unsigned_less [of b] by simp
  then have "unat (char_byte (byte_char b)) = unat b"
    by (simp add: unat_char_byte byte_char_def)
  then show ?thesis by (simp add: word_unat_eq_iff)
qed

lemma bytes_str_as_bytes [simp, codec_simps]: "bytes_str (as_bytes s) = s"
  by (induction s) (simp_all add: bytes_str_def as_bytes_def)

lemma as_bytes_bytes_str [simp, codec_simps]: "as_bytes (bytes_str b) = b"
  by (induction b) (simp_all add: bytes_str_def as_bytes_def)

lemma length_as_bytes [simp, codec_simps]: "length (as_bytes s) = length s"
  by (simp add: as_bytes_def)

lemma as_bytes_inject [simp]: "as_bytes s = as_bytes t \<longleftrightarrow> s = t"
  by (metis bytes_str_as_bytes)

section \<open>Little-endian encodings\<close>

text \<open>\<open>le_bytes n v\<close>: the \<open>n\<close> low bytes of \<open>v\<close>, least significant first; \<open>le_val\<close> reads them back.\<close>

fun le_bytes :: "nat \<Rightarrow> nat \<Rightarrow> bytes" where
  "le_bytes 0 v = []"
| "le_bytes (Suc n) v = word_of_nat (v mod 256) # le_bytes n (v div 256)"

fun le_val :: "bytes \<Rightarrow> nat" where
  "le_val [] = 0"
| "le_val (b # bs) = unat b + 256 * le_val bs"

lemma length_le_bytes [simp, codec_simps]: "length (le_bytes n v) = n"
  by (induction n arbitrary: v) simp_all

lemma le_val_le_bytes: "le_val (le_bytes n v) = v mod 256 ^ n"
proof (induction n arbitrary: v)
  case (Suc n)
  have "unat (word_of_nat (v mod 256) :: u8) = v mod 256"
    by (simp add: unsigned_of_nat take_bit_eq_mod)
  with Suc show ?case by (simp add: mod_mult2_eq)
qed simp

lemma le_val_bound: "le_val bs < 256 ^ length bs"
proof (induction bs)
  case (Cons b bs)
  have "unat b < 256" using unsigned_less [of b] by simp
  with Cons show ?case by simp
qed simp

lemma le_bytes_le_val: "le_bytes (length bs) (le_val bs) = bs"
proof (induction bs)
  case (Cons b bs)
  have b: "unat b < 256" using unsigned_less [of b] by simp
  then have "(unat b + 256 * le_val bs) mod 256 = unat b"
    and "(unat b + 256 * le_val bs) div 256 = le_val bs"
    by simp_all
  with Cons show ?case by simp
qed simp

text \<open>\<open>to_le_bytes\<close> and \<open>from_le_bytes\<close> of the 32- and 64-bit integers.\<close>

definition u32_le :: "u32 \<Rightarrow> bytes" where
  "u32_le w = le_bytes 4 (unat w)"

definition u64_le :: "u64 \<Rightarrow> bytes" where
  "u64_le w = le_bytes 8 (unat w)"

definition le_u64 :: "bytes \<Rightarrow> u64" where
  "le_u64 bs = word_of_nat (le_val bs)"

lemma length_u32_le [simp, codec_simps]: "length (u32_le w) = 4"
  by (simp add: u32_le_def)

lemma length_u64_le [simp, codec_simps]: "length (u64_le w) = 8"
  by (simp add: u64_le_def)

lemma le_u64_u64_le [simp, codec_simps]: "le_u64 (u64_le w) = w"
proof -
  have "unat w < 256 ^ 8" using unsigned_less [of w] by simp
  then show ?thesis by (simp add: le_u64_def u64_le_def le_val_le_bytes)
qed

lemma u64_le_inject [simp]: "u64_le v = u64_le w \<longleftrightarrow> v = w"
  by (metis le_u64_u64_le)

lemma u32_le_inject [simp]: "u32_le v = u32_le w \<longleftrightarrow> v = w"
proof
  assume "u32_le v = u32_le w"
  then have "unat v mod 256 ^ 4 = unat w mod 256 ^ 4"
    unfolding u32_le_def by (metis le_val_le_bytes)
  moreover have "unat v < 256 ^ 4" "unat w < 256 ^ 4"
    using unsigned_less [of v] unsigned_less [of w] by simp_all
  ultimately show "v = w" by (simp add: word_unat_eq_iff)
qed simp

section \<open>Digits\<close>

text \<open>The character of a digit (lower case) and \<open>char::to_digit\<close>, for radix 10 and 16.\<close>

definition digit_char :: "nat \<Rightarrow> char" where
  "digit_char d = char_of (if d < 10 then 48 + d else 87 + d)"

definition char_digit :: "nat \<Rightarrow> char \<Rightarrow> nat option" where
  "char_digit r c =
     (let n = of_char c :: nat;
          d = (if 48 \<le> n \<and> n \<le> 57 then n - 48
               else if 97 \<le> n \<and> n \<le> 122 then n - 87
               else if 65 \<le> n \<and> n \<le> 90 then n - 55
               else 36)
      in if d < r then Some d else None)"

lemma of_char_digit_char: "d < 16 \<Longrightarrow> of_char (digit_char d) = (if d < 10 then 48 + d else 87 + d)"
  by (simp add: digit_char_def)

lemma char_digit_char: "d < r \<Longrightarrow> r \<le> 16 \<Longrightarrow> char_digit r (digit_char d) = Some d"
  by (simp add: char_digit_def of_char_digit_char Let_def)

lemma digit_char_less: "d < 16 \<Longrightarrow> e < 16 \<Longrightarrow> digit_char d < digit_char e \<longleftrightarrow> d < e"
  unfolding less_char_def of_char_digit_char by (auto simp: of_char_digit_char)

text \<open>The digits of a number read in radix \<open>r\<close>, most significant first, from an accumulator.\<close>

fun parse_digits :: "nat \<Rightarrow> nat \<Rightarrow> string \<Rightarrow> nat option" where
  "parse_digits r acc [] = Some acc"
| "parse_digits r acc (c # cs) =
     (case char_digit r c of None \<Rightarrow> None | Some d \<Rightarrow> parse_digits r (acc * r + d) cs)"

lemma parse_digits_append:
  "parse_digits r acc (xs @ ys) =
     (case parse_digits r acc xs of None \<Rightarrow> None | Some a \<Rightarrow> parse_digits r a ys)"
  by (induction xs arbitrary: acc) (simp_all split: option.splits)


section \<open>Hexadecimal text\<close>

text \<open>\<open>format!("{:0n x}")\<close> of a number that fits in \<open>n\<close> digits: its \<open>n\<close> lower-case digits.\<close>

fun hex_fixed :: "nat \<Rightarrow> nat \<Rightarrow> string" where
  "hex_fixed 0 v = []"
| "hex_fixed (Suc n) v = hex_fixed n (v div 16) @ [digit_char (v mod 16)]"

text \<open>
  \<open>from_str_radix(_, 16)\<close> for an unsigned type of \<open>w\<close> bits: an optional leading \<open>+\<close>, at least one
  digit of either case, and no overflow.
\<close>

definition from_str_radix16 :: "nat \<Rightarrow> string \<Rightarrow> nat option" where
  "from_str_radix16 w s =
     (let body = (case s of [] \<Rightarrow> [] | c # cs \<Rightarrow> if c = CHR ''+'' then cs else s)
      in if body = [] then None
         else (case parse_digits 16 0 body of
                 None \<Rightarrow> None
               | Some v \<Rightarrow> if v < 2 ^ w then Some v else None))"

lemma length_hex_fixed [simp, codec_simps]: "length (hex_fixed n v) = n"
  by (induction n arbitrary: v) simp_all

lemma parse_hex_fixed: "parse_digits 16 a (hex_fixed n v) = Some (a * 16 ^ n + v mod 16 ^ n)"
proof (induction n arbitrary: v)
  case (Suc n)
  have "v mod 16 ^ Suc n = v mod 16 + 16 * (v div 16 mod 16 ^ n)"
    by (simp add: mod_mult2_eq)
  with Suc show ?case
    by (simp add: parse_digits_append char_digit_char algebra_simps)
qed simp

lemma hex_fixed_hd: "hex_fixed (Suc n) v = c # cs \<Longrightarrow> \<exists>d<16. c = digit_char d"
proof (induction n arbitrary: v c cs)
  case 0
  then have "c = digit_char (v mod 16)" by simp
  then show ?case by (intro exI [of _ "v mod 16"]) simp
next
  case (Suc n)
  then obtain b bs where b: "hex_fixed (Suc n) (v div 16) = b # bs"
    by (cases "hex_fixed (Suc n) (v div 16)") (auto dest: arg_cong [of _ _ length])
  have "hex_fixed (Suc (Suc n)) v = hex_fixed (Suc n) (v div 16) @ [digit_char (v mod 16)]"
    by (rule hex_fixed.simps(2))
  with b Suc.prems have "c = b" by simp
  with Suc.IH [OF b] show ?case by simp
qed

lemma digit_char_not_plus: "d < 16 \<Longrightarrow> digit_char d \<noteq> CHR ''+''"
proof
  assume "d < 16" "digit_char d = CHR ''+''"
  then have "(of_char (digit_char d) :: nat) = of_char (CHR ''+'')" by simp
  moreover have "(of_char (CHR ''+'') :: nat) = 43" by simp
  ultimately show False using of_char_digit_char [OF \<open>d < 16\<close>] by (simp split: if_splits)
qed

lemma from_str_radix16_hex_fixed:
  assumes "0 < n" "v < 16 ^ n" "v < 2 ^ w"
  shows "from_str_radix16 w (hex_fixed n v) = Some v"
proof -
  obtain m where m: "n = Suc m" using assms(1) gr0_implies_Suc by blast
  obtain c cs where c: "hex_fixed n v = c # cs"
    using assms(1) by (cases "hex_fixed n v") (auto dest: arg_cong [of _ _ length])
  obtain d where d: "d < 16" "c = digit_char d"
    using hex_fixed_hd c unfolding m by blast
  then have "c \<noteq> CHR ''+''" using digit_char_not_plus [OF d(1)] by simp
  moreover have "parse_digits 16 0 (c # cs) = Some v"
    using parse_hex_fixed [of 0 n v] assms(2) unfolding c by simp
  ultimately show ?thesis using assms(3) unfolding c by (simp add: from_str_radix16_def)
qed

lemma append_less:
  fixes xs :: "'a::linorder list"
  assumes "length xs = length ys"
  shows "xs @ us < ys @ vs \<longleftrightarrow> xs < ys \<or> xs = ys \<and> us < vs"
  using assms
proof (induction xs ys rule: list_induct2)
  case (Cons x xs y ys)
  show ?case unfolding append_Cons Cons_less_Cons list.inject Cons.IH by metis
qed simp

lemma hex_fixed_inject:
  assumes "a < 16 ^ n" "b < 16 ^ n"
  shows "hex_fixed n a = hex_fixed n b \<longleftrightarrow> a = b"
proof
  assume "hex_fixed n a = hex_fixed n b"
  then have "a mod 16 ^ n = b mod 16 ^ n"
    using parse_hex_fixed [of 0 n a] parse_hex_fixed [of 0 n b] by (simp only: option.inject)
  with assms show "a = b" by (simp only: mod_less)
qed (simp only:)

lemma div_mod_less:
  "a div 16 < b div 16 \<or> a div 16 = b div 16 \<and> a mod 16 < b mod 16 \<longleftrightarrow> a < b" for a b :: nat
proof -
  define q r p s where "q = a div 16" "r = a mod 16" "p = b div 16" "s = b mod 16"
  then have "a = 16 * q + r" "r < 16" "b = 16 * p + s" "s < 16" by simp_all
  then show ?thesis
    unfolding \<open>q = a div 16\<close> [symmetric] \<open>r = a mod 16\<close> [symmetric]
      \<open>p = b div 16\<close> [symmetric] \<open>s = b mod 16\<close> [symmetric]
    by linarith
qed

text \<open>Fixed-width hexadecimal text sorts like the numbers it writes.\<close>

lemma hex_fixed_less:
  assumes "a < 16 ^ n" "b < 16 ^ n"
  shows "hex_fixed n a < hex_fixed n b \<longleftrightarrow> a < b"
  using assms
proof (induction n arbitrary: a b)
  case (Suc n)
  have ab: "a div 16 < 16 ^ n" "b div 16 < 16 ^ n"
    using Suc.prems by (simp_all add: less_mult_imp_div_less mult.commute)
  have "hex_fixed (Suc n) a < hex_fixed (Suc n) b \<longleftrightarrow>
      a div 16 < b div 16 \<or> a div 16 = b div 16 \<and> a mod 16 < b mod 16"
    using Suc.IH [OF ab] hex_fixed_inject [OF ab]
    by (simp add: append_less digit_char_less)
  also have "\<dots> \<longleftrightarrow> a < b" by (rule div_mod_less)
  finally show ?case .
qed simp

section \<open>Decimal text\<close>

text \<open>\<open>to_string\<close> of an unsigned number and of a signed one, and \<open>parse::<i64>()\<close>.\<close>

fun show_nat :: "nat \<Rightarrow> string" where
  "show_nat n = (if n < 10 then [digit_char n] else show_nat (n div 10) @ [digit_char (n mod 10)])"

declare show_nat.simps [simp del]

definition show_int :: "int \<Rightarrow> string" where
  "show_int i = (if i < 0 then CHR ''-'' # show_nat (nat (- i)) else show_nat (nat i))"

definition parse_i64 :: "string \<Rightarrow> int option" where
  "parse_i64 s =
     (let neg = (case s of [] \<Rightarrow> False | c # _ \<Rightarrow> c = CHR ''-'');
          body = (case s of [] \<Rightarrow> [] | c # cs \<Rightarrow> if c = CHR ''+'' \<or> c = CHR ''-'' then cs else s)
      in if body = [] then None
         else (case parse_digits 10 0 body of
                 None \<Rightarrow> None
               | Some v \<Rightarrow> (let i = (if neg then - int v else int v)
                            in if - (2 ^ 63) \<le> i \<and> i < 2 ^ 63 then Some i else None)))"

lemma parse_show_nat: "parse_digits 10 0 (show_nat n) = Some n"
proof (induction n rule: show_nat.induct)
  case (1 n)
  show ?case
  proof (cases "n < 10")
    case True
    then show ?thesis by (subst show_nat.simps) (simp add: char_digit_char)
  next
    case False
    with 1 show ?thesis
      by (subst show_nat.simps) (simp add: parse_digits_append char_digit_char)
  qed
qed

lemma show_nat_Cons: "\<exists>d cs. d < 10 \<and> show_nat n = digit_char d # cs"
proof (induction n rule: show_nat.induct)
  case (1 n)
  show ?case
  proof (cases "n < 10")
    case True
    then have "show_nat n = [digit_char n]" by (subst show_nat.simps) simp
    with True show ?thesis by blast
  next
    case False
    with 1 obtain d cs where d: "d < 10" "show_nat (n div 10) = digit_char d # cs" by blast
    then have "show_nat n = digit_char d # cs @ [digit_char (n mod 10)]"
      using False by (subst show_nat.simps) simp
    with d(1) show ?thesis by blast
  qed
qed

lemma digit_char_not_minus: "d < 16 \<Longrightarrow> digit_char d \<noteq> CHR ''-''"
proof
  assume "d < 16" "digit_char d = CHR ''-''"
  then have "(of_char (digit_char d) :: nat) = of_char (CHR ''-'')" by simp
  moreover have "(of_char (CHR ''-'') :: nat) = 45" by simp
  ultimately show False using of_char_digit_char [OF \<open>d < 16\<close>] by (simp split: if_splits)
qed

lemma parse_i64_show_int:
  assumes "- (2 ^ 63) \<le> i" "i < 2 ^ 63"
  shows "parse_i64 (show_int i) = Some i"
proof -
  obtain d cs where d: "d < 10" "show_nat (nat \<bar>i\<bar>) = digit_char d # cs"
    using show_nat_Cons by blast
  have ne: "digit_char d \<noteq> CHR ''+''" "digit_char d \<noteq> CHR ''-''"
    using d(1) digit_char_not_plus [of d] digit_char_not_minus [of d] by simp_all
  have p: "parse_digits 10 0 (digit_char d # cs) = Some (nat \<bar>i\<bar>)"
    using parse_show_nat [of "nat \<bar>i\<bar>"] unfolding d(2) .
  show ?thesis
  proof (cases "i < 0")
    case True
    then have s: "show_int i = CHR ''-'' # digit_char d # cs"
      using d(2) by (simp add: show_int_def)
    show ?thesis using p True assms unfolding s parse_i64_def by simp
  next
    case False
    then have s: "show_int i = digit_char d # cs"
      using d(2) by (simp add: show_int_def)
    show ?thesis using p False assms ne unfolding s parse_i64_def by simp
  qed
qed

section \<open>UTF-8\<close>

text \<open>The check of \<open>String::from_utf8\<close>: shortest forms only, no surrogates, at most U+10FFFF.\<close>

definition in_range :: "nat \<Rightarrow> nat \<Rightarrow> u8 \<Rightarrow> bool" where
  "in_range lo hi b \<longleftrightarrow> lo \<le> unat b \<and> unat b \<le> hi"

fun utf8_valid :: "bytes \<Rightarrow> bool" where
  "utf8_valid [] = True"
| "utf8_valid (b # bs) =
     (if unat b < 128 then utf8_valid bs
      else if in_range 194 223 b then
        (case bs of c # r \<Rightarrow> in_range 128 191 c \<and> utf8_valid r | _ \<Rightarrow> False)
      else if in_range 224 239 b then
        (case bs of c # d # r \<Rightarrow>
           in_range (if unat b = 224 then 160 else 128) (if unat b = 237 then 159 else 191) c
           \<and> in_range 128 191 d \<and> utf8_valid r
         | _ \<Rightarrow> False)
      else if in_range 240 244 b then
        (case bs of c # d # e # r \<Rightarrow>
           in_range (if unat b = 240 then 144 else 128) (if unat b = 244 then 143 else 191) c
           \<and> in_range 128 191 d \<and> in_range 128 191 e \<and> utf8_valid r
         | _ \<Rightarrow> False)
      else False)"

text \<open>
  A value of type \<open>String\<close> is valid UTF-8 by Rust's typing; where a theorem needs it, it says so.
\<close>

definition rust_string :: "string \<Rightarrow> bool" where
  "rust_string s \<longleftrightarrow> utf8_valid (as_bytes s)"

text \<open>\<open>is_char_boundary(i)\<close>: slicing a string anywhere else panics.\<close>

definition char_boundary :: "string \<Rightarrow> nat \<Rightarrow> bool" where
  "char_boundary s i \<longleftrightarrow>
     i = length s \<or> i < length s \<and> \<not> in_range 128 191 (char_byte (s ! i))"

section \<open>Lists\<close>

lemma fold_inv:
  assumes "I s" "\<And>x s. x \<in> set xs \<Longrightarrow> I s \<Longrightarrow> I (f x s)"
  shows "I (fold f xs s)"
  using assms by (induction xs arbitrary: s) simp_all

lemma insort_insert_set [simp]: "set (insort_insert x xs) = insert x (set xs)"
  by (auto simp: insort_insert_key_def set_insort_key)

lemma insort_insert_sorted_distinct:
  "sorted xs \<Longrightarrow> distinct xs \<Longrightarrow> sorted (insort_insert x xs) \<and> distinct (insort_insert x xs)"
  by (auto simp: insort_insert_key_def sorted_insort distinct_insort)

section \<open>ASCII\<close>

definition ascii_alnum :: "char \<Rightarrow> bool" where
  "ascii_alnum c \<longleftrightarrow>
     (let n = of_char c :: nat
      in 48 \<le> n \<and> n \<le> 57 \<or> 65 \<le> n \<and> n \<le> 90 \<or> 97 \<le> n \<and> n \<le> 122)"

definition ascii_upper :: "char \<Rightarrow> char" where
  "ascii_upper c =
     (let n = of_char c :: nat in if 97 \<le> n \<and> n \<le> 122 then char_of (n - 32) else c)"

lemma of_char_ascii_upper:
  "(of_char (ascii_upper c) :: nat) = (let n = of_char c in if 97 \<le> n \<and> n \<le> 122 then n - 32 else n)"
  by (auto simp: ascii_upper_def Let_def of_char_of)

lemma ascii_upper_alnum [simp]: "ascii_alnum (ascii_upper c) = ascii_alnum c"
  by (auto simp: ascii_alnum_def of_char_ascii_upper Let_def)

lemma ascii_upper_idem [simp]: "ascii_upper (ascii_upper c) = ascii_upper c"
proof -
  have "(of_char (ascii_upper (ascii_upper c)) :: nat) = of_char (ascii_upper c)"
    by (auto simp: of_char_ascii_upper Let_def)
  then show ?thesis by (simp add: of_char_eq_iff)
qed

section \<open>Chunks\<close>

text \<open>\<open>slice::chunks\<close>\<close>

function chunks :: "nat \<Rightarrow> 'x list \<Rightarrow> 'x list list" where
  "chunks n xs = (if xs = [] \<or> n = 0 then [] else take n xs # chunks n (drop n xs))"
  by pat_completeness auto

termination by (relation "measure (\<lambda>(n, xs). length xs)") auto

declare chunks.simps [simp del]

lemma concat_chunks: "0 < n \<Longrightarrow> concat (chunks n xs) = xs"
proof (induction n xs rule: chunks.induct)
  case (1 n xs)
  then show ?case by (subst chunks.simps) (cases "xs = []"; simp)
qed

lemma chunks_length: "c \<in> set (chunks n xs) \<Longrightarrow> c \<noteq> [] \<and> length c \<le> n"
proof (induction n xs rule: chunks.induct)
  case (1 n xs)
  then show ?case by (subst (asm) (2) chunks.simps) (auto split: if_splits)
qed

text \<open>\<open>join\<close> of a list of strings.\<close>

fun join_with :: "string \<Rightarrow> string list \<Rightarrow> string" where
  "join_with sep [] = []"
| "join_with sep [x] = x"
| "join_with sep (x # y # xs) = x @ sep @ join_with sep (y # xs)"

end
