(* ===== verification/Tables.thy ===== *)
theory Tables
  imports Prelude
begin

text \<open>
  SQLite tables with a primary key, and merging into them.

  A \<open>WITHOUT ROWID\<close> table is a B-tree in primary-key order; Rust's \<open>BTreeMap\<close> is one too.  Both are
  modelled by the association list sorted strictly by key, so that two tables with the same
  contents are equal.  The interface \<open>keyed_table\<close> states what the components rely on;
  \<open>lww_table\<close> extends it by a conditional write that keeps the entry with the greater stamp, and
  \<open>merge_op\<close> is the contract of an operation whose repeated application depends only on the set of
  its arguments.
\<close>

section \<open>Interfaces\<close>

locale keyed_table =
  fixes emp :: 't
    and upsert :: "'k \<Rightarrow> 'v \<Rightarrow> 't \<Rightarrow> 't"
    and get :: "'t \<Rightarrow> 'k \<Rightarrow> 'v option"
    and wf :: "'t \<Rightarrow> bool"
  assumes wf_emp: "wf emp"
    and wf_upsert: "wf t \<Longrightarrow> wf (upsert k v t)"
    and get_emp: "get emp k = None"
    and get_upsert: "wf t \<Longrightarrow> get (upsert k v t) l = (if l = k then Some v else get t l)"
    and get_ext: "wf s \<Longrightarrow> wf t \<Longrightarrow> (\<And>k. get s k = get t k) \<Longrightarrow> s = t"
begin

lemma upsert_twice: "wf t \<Longrightarrow> upsert k v (upsert k u t) = upsert k v t"
  by (rule get_ext) (simp_all add: wf_upsert get_upsert)

lemma upsert_swap: "wf t \<Longrightarrow> k \<noteq> l \<Longrightarrow> upsert k v (upsert l u t) = upsert l u (upsert k v t)"
  by (rule get_ext) (simp_all add: wf_upsert get_upsert)

lemma upsert_same: "wf t \<Longrightarrow> get t k = Some v \<Longrightarrow> upsert k v t = t"
  by (rule get_ext) (simp_all add: wf_upsert get_upsert)

end

text \<open>An operation that may be replayed and reordered: idempotent, and commuting on compatible arguments.\<close>

locale merge_op =
  fixes step :: "'e \<Rightarrow> 't \<Rightarrow> 't"
    and compat :: "'e \<Rightarrow> 'e \<Rightarrow> bool"
    and inv :: "'t \<Rightarrow> bool"
  assumes inv_step: "inv t \<Longrightarrow> inv (step x t)"
    and step_idem: "inv t \<Longrightarrow> step x (step x t) = step x t"
    and step_comm: "inv t \<Longrightarrow> compat x y \<Longrightarrow> step x (step y t) = step y (step x t)"
begin

lemma inv_fold: "inv t \<Longrightarrow> inv (fold step xs t)"
  by (induction xs arbitrary: t) (simp_all add: inv_step)

lemma fold_step_commute:
  assumes "inv t" "\<forall>y\<in>set xs. compat x y"
  shows "step x (fold step xs t) = fold step xs (step x t)"
  using assms
proof (induction xs arbitrary: t)
  case (Cons y ys)
  have "step x (fold step ys (step y t)) = fold step ys (step x (step y t))"
    using Cons by (simp add: inv_step)
  also have "step x (step y t) = step y (step x t)"
    using Cons.prems by (intro step_comm) simp_all
  finally show ?case by simp
qed simp

lemma fold_step_absorb:
  assumes "inv t" "x \<in> set xs" "\<forall>y\<in>set xs. compat x y"
  shows "step x (fold step xs t) = fold step xs t"
  using assms
proof (induction xs arbitrary: t)
  case (Cons y ys)
  show ?case
  proof (cases "x \<in> set ys")
    case True
    with Cons show ?thesis by (simp add: inv_step)
  next
    case False
    with Cons.prems have "x = y" by simp
    then have "step x (fold step ys (step x t)) = fold step ys (step x (step x t))"
      using Cons.prems by (intro fold_step_commute) (simp_all add: inv_step)
    with \<open>x = y\<close> Cons.prems show ?thesis by (simp add: step_idem)
  qed
qed simp

lemma fold_fold_absorb:
  assumes "inv t" "set ys \<subseteq> set xs" "\<forall>x\<in>set xs. \<forall>y\<in>set xs. compat x y"
  shows "fold step ys (fold step xs t) = fold step xs t"
  using assms(2)
proof (induction ys)
  case (Cons y ys)
  then have "step y (fold step xs t) = fold step xs t"
    using assms by (intro fold_step_absorb) auto
  with Cons show ?case by simp
qed simp

lemma fold_fold_commute:
  assumes "inv t" "\<forall>x\<in>set xs. \<forall>y\<in>set ys. compat x y"
  shows "fold step xs (fold step ys t) = fold step ys (fold step xs t)"
  using assms
proof (induction xs arbitrary: t)
  case (Cons x xs)
  have "fold step xs (step x (fold step ys t)) = fold step xs (fold step ys (step x t))"
    using Cons.prems by (simp add: fold_step_commute)
  also have "\<dots> = fold step ys (fold step xs (step x t))"
    using Cons by (simp add: inv_step)
  finally show ?case by simp
qed simp

theorem fold_set_eq:
  assumes "inv t" "set xs = set ys" "\<forall>x\<in>set xs. \<forall>y\<in>set xs. compat x y"
  shows "fold step xs t = fold step ys t"
proof -
  have "fold step xs t = fold step ys (fold step xs t)"
    using assms by (simp add: fold_fold_absorb)
  also have "\<dots> = fold step xs (fold step ys t)"
    using assms by (intro fold_fold_commute [symmetric]) simp_all
  also have "\<dots> = fold step ys t"
    using assms by (simp add: fold_fold_absorb)
  finally show ?thesis .
qed

end

text \<open>A table written by \<open>put\<close>, which only ever replaces an entry by one with a greater stamp.\<close>

locale lww_table = keyed_table emp upsert get wf
  for emp :: 't and upsert :: "'k \<Rightarrow> 'v \<Rightarrow> 't \<Rightarrow> 't" and get :: "'t \<Rightarrow> 'k \<Rightarrow> 'v option"
    and wf :: "'t \<Rightarrow> bool" +
  fixes stamp :: "'v \<Rightarrow> 's::linorder"
    and put :: "'k \<Rightarrow> 'v \<Rightarrow> 't \<Rightarrow> 't"
  assumes put_eq: "put k v t =
    (case get t k of None \<Rightarrow> upsert k v t
     | Some old \<Rightarrow> if stamp old < stamp v then upsert k v t else t)"
begin

definition same_entry :: "'k \<times> 'v \<Rightarrow> 'k \<times> 'v \<Rightarrow> bool" where
  "same_entry x y \<longleftrightarrow> (fst x = fst y \<and> stamp (snd x) = stamp (snd y) \<longrightarrow> snd x = snd y)"

lemma wf_put: "wf t \<Longrightarrow> wf (put k v t)"
  by (simp add: put_eq wf_upsert split: option.split)

lemma get_put: "wf t \<Longrightarrow> get (put k v t) l =
    (if l \<noteq> k then get t l
     else case get t k of None \<Rightarrow> Some v | Some old \<Rightarrow> Some (if stamp old < stamp v then v else old))"
  by (auto simp: put_eq get_upsert split: option.split)

lemma put_idem: "wf t \<Longrightarrow> put k v (put k v t) = put k v t"
  by (rule get_ext) (auto simp: wf_put get_put split: option.split)

lemma put_comm:
  "wf t \<Longrightarrow> same_entry (k, v) (l, u) \<Longrightarrow> put k v (put l u t) = put l u (put k v t)"
  by (rule get_ext) (auto simp: wf_put get_put same_entry_def split: option.split)

end

sublocale lww_table \<subseteq> merge: merge_op "\<lambda>e. put (fst e) (snd e)" same_entry wf
proof unfold_locales
  show "wf t \<Longrightarrow> wf (put (fst x) (snd x) t)" for t x by (rule wf_put)
  show "wf t \<Longrightarrow> put (fst x) (snd x) (put (fst x) (snd x) t) = put (fst x) (snd x) t" for t x
    by (rule put_idem)
  show "wf t \<Longrightarrow> same_entry x y \<Longrightarrow>
      put (fst x) (snd x) (put (fst y) (snd y) t) = put (fst y) (snd y) (put (fst x) (snd x) t)" for t x y
    by (rule put_comm) simp_all
qed

context lww_table begin

text \<open>What a sequence of writes leaves: for each key, an entry that was written and none above it.\<close>

lemma fold_put_get:
  assumes "wf t"
  shows "get (fold (\<lambda>e. put (fst e) (snd e)) es t) k = None \<longleftrightarrow> get t k = None \<and> k \<notin> fst ` set es"
  using assms
proof (induction es arbitrary: t)
  case (Cons e es)
  have "get (put (fst e) (snd e) t) k = None \<longleftrightarrow> get t k = None \<and> k \<noteq> fst e"
    using Cons.prems by (auto simp: get_put split: option.split)
  with Cons show ?case by (auto simp: wf_put)
qed simp

lemma fold_put_winner:
  assumes "wf t" "get (fold (\<lambda>e. put (fst e) (snd e)) es t) k = Some v"
  shows "(get t k = Some v \<or> (k, v) \<in> set es)
    \<and> (\<forall>u. get t k = Some u \<longrightarrow> stamp u \<le> stamp v) \<and> (\<forall>u. (k, u) \<in> set es \<longrightarrow> stamp u \<le> stamp v)"
  using assms
proof (induction es arbitrary: t)
  case (Cons e es)
  let ?t = "put (fst e) (snd e) t"
  have "get (fold (\<lambda>e. put (fst e) (snd e)) es ?t) k = Some v" using Cons.prems by simp
  from Cons.IH [OF wf_put [OF Cons.prems(1)] this] have IH: "(get ?t k = Some v \<or> (k, v) \<in> set es)
    \<and> (\<forall>u. get ?t k = Some u \<longrightarrow> stamp u \<le> stamp v) \<and> (\<forall>u. (k, u) \<in> set es \<longrightarrow> stamp u \<le> stamp v)" .
  obtain l u where e: "e = (l, u)" by (cases e)
  show ?case
  proof (cases "l = k")
    case False
    with IH e Cons.prems(1) show ?thesis by (auto simp: get_put)
  next
    case True
    with IH e Cons.prems(1) show ?thesis
      by (cases "get t k") (auto simp: get_put split: if_splits)
  qed
qed simp

end

section \<open>Sorted association lists\<close>

fun tbl_put :: "'k::linorder \<Rightarrow> 'v \<Rightarrow> ('k \<times> 'v) list \<Rightarrow> ('k \<times> 'v) list" where
  "tbl_put k v [] = [(k, v)]"
| "tbl_put k v (e # t) =
     (if k < fst e then (k, v) # e # t
      else if k = fst e then (k, v) # t
      else e # tbl_put k v t)"

abbreviation tbl_get :: "('k \<times> 'v) list \<Rightarrow> 'k \<Rightarrow> 'v option" where
  "tbl_get \<equiv> map_of"

definition tbl_wf :: "('k::linorder \<times> 'v) list \<Rightarrow> bool" where
  "tbl_wf t \<longleftrightarrow> sorted (List.map fst t) \<and> distinct (List.map fst t)"

lemma keys_tbl_put: "fst ` set (tbl_put k v t) = insert k (fst ` set t)"
  by (induction t) auto

lemma tbl_wf_Nil [simp]: "tbl_wf []"
  by (simp add: tbl_wf_def)

lemma tbl_wf_Cons: "tbl_wf (e # t) \<longleftrightarrow> tbl_wf t \<and> (\<forall>k\<in>fst ` set t. fst e < k)"
  unfolding tbl_wf_def by (auto simp: less_le)

lemma tbl_wf_put: "tbl_wf t \<Longrightarrow> tbl_wf (tbl_put k v t)"
proof (induction t)
  case (Cons e t)
  then show ?case
    by (auto simp: tbl_wf_Cons keys_tbl_put simp del: set_map)
qed (simp add: tbl_wf_Cons)

lemma tbl_get_put: "tbl_get (tbl_put k v t) l = (if l = k then Some v else tbl_get t l)"
  by (induction t) auto

lemma tbl_get_ext:
  assumes "tbl_wf s" "tbl_wf t" "\<And>k. tbl_get s k = tbl_get t k"
  shows "s = t"
proof -
  have d: "distinct (List.map fst s)" "distinct (List.map fst t)"
    and o: "sorted (List.map fst s)" "sorted (List.map fst t)"
    using assms(1,2) by (simp_all add: tbl_wf_def)
  have eq: "set s = set t"
  proof (rule set_eqI)
    fix e
    show "e \<in> set s \<longleftrightarrow> e \<in> set t"
      using assms(3) d by (cases e) (metis map_of_eq_Some_iff)
  qed
  moreover have "inj_on fst (set s \<union> set t)"
    using d eq by (simp add: distinct_map)
  ultimately show ?thesis
    using d o by (intro map_sorted_distinct_set_unique [of fst])
qed

interpretation tbl: keyed_table "[]" tbl_put tbl_get tbl_wf
  by unfold_locales (auto intro: tbl_wf_put tbl_get_ext simp: tbl_get_put)

text \<open>\<open>DELETE\<close> of one key.\<close>

definition tbl_del :: "'k \<Rightarrow> ('k \<times> 'v) list \<Rightarrow> ('k \<times> 'v) list" where
  "tbl_del k t = List.filter (\<lambda>e. fst e \<noteq> k) t"

lemma tbl_wf_del: "tbl_wf t \<Longrightarrow> tbl_wf (tbl_del k t)"
  by (induction t) (auto simp: tbl_wf_Cons tbl_del_def)

lemma tbl_get_del: "tbl_get (tbl_del k t) l = (if l = k then None else tbl_get t l)"
  by (induction t) (auto simp: tbl_del_def)

lemma tbl_get_Some_set: "tbl_wf t \<Longrightarrow> tbl_get t k = Some v \<longleftrightarrow> (k, v) \<in> set t"
  by (simp add: tbl_wf_def map_of_eq_Some_iff)

end
