(* ===== verification/Errors.thy ===== *)
theory Errors
  imports Prelude
begin

text \<open>
  The error type of \<open>rust/p2p-core/src/error.rs\<close> and its \<open>Display\<close> text.  A wrapped third-party
  error keeps only its text.  \<open>EPanic\<close> is no variant of the source: it is the outcome of an
  operation that panics (here, slicing a string inside a character).
\<close>

datatype error =
    ESqlite string
  | EIo string
  | ECodec string
  | ECrypto string
  | ERejected string
  | ENotEnrolled
  | ESchema string
  | ENetwork string
  | ENotRunning
  | EOther string
  | EPanic

type_synonym 'a result = "error + 'a"

fun error_text :: "error \<Rightarrow> string" where
  "error_text (ESqlite m) = ''sqlite: '' @ m"
| "error_text (EIo m) = ''io: '' @ m"
| "error_text (ECodec m) = ''serialization: '' @ m"
| "error_text (ECrypto m) = ''crypto: '' @ m"
| "error_text (ERejected m) = ''rejected peer: '' @ m"
| "error_text ENotEnrolled = ''not enrolled in an organisation yet''"
| "error_text (ESchema m) = ''schema: '' @ m"
| "error_text (ENetwork m) = ''network: '' @ m"
| "error_text ENotRunning = ''node is not running''"
| "error_text (EOther m) = m"
| "error_text EPanic = []"

end
