(* ===== verification/Values.thy ===== *)
theory Values
  imports Errors
begin

text \<open>
  \<open>rust/p2p-core/src/db/value.rs\<close>: a SQLite value and its storage form.  An \<open>i64\<close> and the bit
  pattern of an \<open>f64\<close> are 64-bit words: the code moves floats as bytes and never computes on them.
\<close>

type_synonym i64 = "64 word"

datatype sql_value =
    VNull
  | VInt i64
  | VReal u64
  | VText string
  | VBlob bytes

definition T_NULL :: i64 where "T_NULL = 0"
definition T_INT :: i64 where "T_INT = 1"
definition T_REAL :: i64 where "T_REAL = 2"
definition T_TEXT :: i64 where "T_TEXT = 3"
definition T_BLOB :: i64 where "T_BLOB = 4"

lemmas tag_defs = T_NULL_def T_INT_def T_REAL_def T_TEXT_def T_BLOB_def

fun to_storage :: "sql_value \<Rightarrow> i64 \<times> bytes option" where
  "to_storage VNull = (T_NULL, None)"
| "to_storage (VInt i) = (T_INT, Some (u64_le i))"
| "to_storage (VReal f) = (T_REAL, Some (u64_le f))"
| "to_storage (VText s) = (T_TEXT, Some (as_bytes s))"
| "to_storage (VBlob b) = (T_BLOB, Some b)"

definition corrupt :: "string \<Rightarrow> error" where
  "corrupt what = ECodec (''corrupt '' @ what @ '' in change log'')"

definition from_storage :: "i64 \<Rightarrow> bytes option \<Rightarrow> sql_value result" where
  "from_storage vtype raw =
     (if vtype = T_NULL then Inr VNull
      else if vtype = T_INT then
        (case raw of None \<Rightarrow> Inl (corrupt ''integer'')
         | Some b \<Rightarrow> if length b = 8 then Inr (VInt (le_u64 b)) else Inl (corrupt ''integer''))
      else if vtype = T_REAL then
        (case raw of None \<Rightarrow> Inl (corrupt ''real'')
         | Some b \<Rightarrow> if length b = 8 then Inr (VReal (le_u64 b)) else Inl (corrupt ''real''))
      else if vtype = T_TEXT then
        (case raw of None \<Rightarrow> Inl (corrupt ''text'')
         | Some b \<Rightarrow> if utf8_valid b then Inr (VText (bytes_str b)) else Inl (corrupt ''text''))
      else if vtype = T_BLOB then Inr (VBlob (case raw of None \<Rightarrow> [] | Some b \<Rightarrow> b))
      else Inl (ECodec (''unknown value type tag '' @ show_int (sint vtype))))"

text \<open>A value Rust can hold: its text, if any, is valid UTF-8.\<close>

definition value_ok :: "sql_value \<Rightarrow> bool" where
  "value_ok v = (case v of VText s \<Rightarrow> rust_string s | _ \<Rightarrow> True)"

text \<open>
  \<open>to_pk_string\<close>; the rendering of a float and of bytes are the standard library's and the \<open>hex\<close>
  crate's.
\<close>

definition to_pk_string :: "(u64 \<Rightarrow> string) \<Rightarrow> (bytes \<Rightarrow> string) \<Rightarrow> sql_value \<Rightarrow> string" where
  "to_pk_string f64_text hex_text v =
     (case v of
        VNull \<Rightarrow> []
      | VInt i \<Rightarrow> show_int (sint i)
      | VReal f \<Rightarrow> f64_text f
      | VText s \<Rightarrow> s
      | VBlob b \<Rightarrow> hex_text b)"

section \<open>Values as SQLite hands them out\<close>

text \<open>
  \<open>String::from_utf8_lossy\<close>: every maximal prefix of a sequence that breaks off becomes U+FFFD; a character
  that is not one of a valid sequence does, too.
\<close>

definition REPLACEMENT :: bytes where
  "REPLACEMENT = [239, 191, 189]"

text \<open>How many bytes the first chunk has, and whether it is a character.\<close>

definition utf8_chunk :: "u8 \<Rightarrow> bytes \<Rightarrow> nat \<times> bool" where
  "utf8_chunk b bs =
     (if unat b < 128 then (1, True)
      else if in_range 194 223 b then
        (case bs of c # _ \<Rightarrow> if in_range 128 191 c then (2, True) else (1, False) | [] \<Rightarrow> (1, False))
      else if in_range 224 239 b then
        (case bs of
           c # r \<Rightarrow>
             if \<not> in_range (if unat b = 224 then 160 else 128) (if unat b = 237 then 159 else 191) c then (1, False)
             else (case r of d # _ \<Rightarrow> if in_range 128 191 d then (3, True) else (2, False) | [] \<Rightarrow> (2, False))
         | [] \<Rightarrow> (1, False))
      else if in_range 240 244 b then
        (case bs of
           c # r \<Rightarrow>
             if \<not> in_range (if unat b = 240 then 144 else 128) (if unat b = 244 then 143 else 191) c then (1, False)
             else (case r of
                     d # s \<Rightarrow>
                       if \<not> in_range 128 191 d then (2, False)
                       else (case s of e # _ \<Rightarrow> if in_range 128 191 e then (4, True) else (3, False) | [] \<Rightarrow> (3, False))
                   | [] \<Rightarrow> (2, False))
         | [] \<Rightarrow> (1, False))
      else (1, False))"

fun utf8_lossy :: "bytes \<Rightarrow> bytes" where
  "utf8_lossy [] = []"
| "utf8_lossy (b # bs) =
     (let (n, valid) = utf8_chunk b bs
      in (if valid then take n (b # bs) else REPLACEMENT) @ utf8_lossy (drop (n - 1) bs))"

lemma utf8_valid_chunk:
  assumes "utf8_valid (b # bs)"
  shows "\<exists>n. utf8_chunk b bs = (Suc n, True) \<and> utf8_valid (drop n bs)"
proof -
  consider "unat b < 128" | "\<not> unat b < 128" "in_range 194 223 b"
    | "\<not> unat b < 128" "\<not> in_range 194 223 b" "in_range 224 239 b"
    | "\<not> unat b < 128" "\<not> in_range 194 223 b" "\<not> in_range 224 239 b" "in_range 240 244 b"
    using assms by (auto split: if_splits)
  then show ?thesis
  proof cases
    case 1
    then show ?thesis using assms by (intro exI [of _ 0]) (simp add: utf8_chunk_def)
  next
    case 2
    then obtain c r where "bs = c # r" "in_range 128 191 c" "utf8_valid r" using assms by (cases bs) auto
    then show ?thesis using 2 by (intro exI [of _ 1]) (simp add: utf8_chunk_def)
  next
    case 3
    let ?c = "in_range (if unat b = 224 then 160 else 128) (if unat b = 237 then 159 else 191)"
    have "case bs of c # d # r \<Rightarrow> ?c c \<and> in_range 128 191 d \<and> utf8_valid r | _ \<Rightarrow> False"
      using assms 3 by (simp only: utf8_valid.simps if_False if_True)
    then obtain c d r where r: "bs = c # d # r" "?c c" "in_range 128 191 d" "utf8_valid r"
      by (cases bs; cases "tl bs") auto
    have "utf8_chunk b bs = (3, True)" unfolding utf8_chunk_def r(1) list.case using 3 r(2,3) by (simp only: if_False if_True not_True_eq_False)
    then show ?thesis using r by (intro exI [of _ 2]) simp
  next
    case 4
    let ?c = "in_range (if unat b = 240 then 144 else 128) (if unat b = 244 then 143 else 191)"
    have "case bs of c # d # e # r \<Rightarrow> ?c c \<and> in_range 128 191 d \<and> in_range 128 191 e \<and> utf8_valid r | _ \<Rightarrow> False"
      using assms 4 by (simp only: utf8_valid.simps if_False if_True)
    then obtain c d e r where r: "bs = c # d # e # r" "?c c" "in_range 128 191 d" "in_range 128 191 e" "utf8_valid r"
      by (cases bs; cases "tl bs"; cases "tl (tl bs)") auto
    have "utf8_chunk b bs = (4, True)" unfolding utf8_chunk_def r(1) list.case using 4 r(2-4) by (simp only: if_False if_True not_True_eq_False)
    then show ?thesis using r by (intro exI [of _ 3]) simp
  qed
qed

lemma utf8_lossy_valid: "utf8_valid b \<Longrightarrow> utf8_lossy b = b"
proof (induction b rule: utf8_lossy.induct)
  case (2 b bs)
  obtain n where n: "utf8_chunk b bs = (Suc n, True)" "utf8_valid (drop n bs)"
    using utf8_valid_chunk [OF 2(2)] by blast
  then have "utf8_lossy (drop n bs) = drop n bs" using 2(1) by simp
  then show ?case by (simp add: n(1))
qed simp

datatype value_ref = RefNull | RefInteger i64 | RefReal u64 | RefText bytes | RefBlob bytes

fun of_value_ref :: "value_ref \<Rightarrow> sql_value" where
  "of_value_ref RefNull = VNull"
| "of_value_ref (RefInteger i) = VInt i"
| "of_value_ref (RefReal f) = VReal f"
| "of_value_ref (RefText t) = VText (bytes_str (utf8_lossy t))"
| "of_value_ref (RefBlob b) = VBlob b"

text \<open>A stored value, read back: the text of a column need not be UTF-8, that of the program is.\<close>

fun stored_ref :: "sql_value \<Rightarrow> value_ref" where
  "stored_ref VNull = RefNull"
| "stored_ref (VInt i) = RefInteger i"
| "stored_ref (VReal f) = RefReal f"
| "stored_ref (VText s) = RefText (as_bytes s)"
| "stored_ref (VBlob b) = RefBlob b"

definition read_value :: "sql_value \<Rightarrow> sql_value" where
  "read_value v = of_value_ref (stored_ref v)"

lemma read_value_ok [simp]: "value_ok v \<Longrightarrow> read_value v = v"
  by (cases v) (simp_all add: read_value_def value_ok_def rust_string_def utf8_lossy_valid)

lemma from_storage_to_storage [simp]:
  "value_ok v \<Longrightarrow> from_storage (fst (to_storage v)) (snd (to_storage v)) = Inr v"
  by (cases v) (simp_all add: from_storage_def tag_defs value_ok_def rust_string_def)

lemma to_storage_inject: "to_storage v = to_storage w \<longleftrightarrow> v = w"
  by (cases v; cases w) (simp_all add: tag_defs)

text \<open>The tag and the bytes, an absent column counting as no bytes, already determine the value.\<close>

lemma storage_bytes_inject:
  assumes "fst (to_storage v) = fst (to_storage w)"
    and "(case snd (to_storage v) of None \<Rightarrow> [] | Some b \<Rightarrow> b) =
         (case snd (to_storage w) of None \<Rightarrow> [] | Some b \<Rightarrow> b)"
  shows "v = w"
  using assms by (cases v; cases w) (simp_all add: tag_defs)

lemma from_storage_tag:
  assumes "from_storage t raw = Inr v"
  shows "fst (to_storage v) = t \<and> value_ok v"
  using assms
  by (auto simp: from_storage_def value_ok_def rust_string_def split: if_splits option.splits)

lemma le_u64_inverse: "length b = 8 \<Longrightarrow> u64_le (le_u64 b) = b"
proof -
  assume b: "length b = 8"
  have "le_val b < 2 ^ 64" using le_val_bound [of b] b by simp
  then have "unat (word_of_nat (le_val b) :: u64) = le_val b"
    by (simp add: unsigned_of_nat take_bit_nat_eq_self)
  then show ?thesis using le_bytes_le_val [of b] b by (simp add: u64_le_def le_u64_def)
qed

text \<open>Reading accepts exactly the encodings that writing produces, and two lenient forms.\<close>

lemma from_storage_Inr_iff:
  "from_storage t raw = Inr v \<longleftrightarrow>
     value_ok v \<and> ((t, raw) = to_storage v \<or> v = VNull \<and> t = T_NULL \<or>
                   v = VBlob [] \<and> t = T_BLOB \<and> raw = None)"
  by (cases v; cases raw)
     (auto simp: from_storage_def value_ok_def rust_string_def tag_defs le_u64_inverse
           split: if_splits)

end
