(* ===== verification/Crypto.thy ===== *)
theory Crypto
  imports Errors
begin

text \<open>
  What the code takes from libraries outside the repository: Ed25519 and PeerId from \<open>libp2p\<close>,
  \<open>blake3\<close>, the \<open>hex\<close> crate.  They are the fields of one record that is an argument of every
  definition that uses them; nothing is assumed of them here.  \<open>crypto_laws\<close> states the documented
  behaviour that some theorems name as a hypothesis, and \<open>toy_crypto\<close> is a concrete instance of it, on
  which the theorems are applied to inputs.

  A PeerId is its byte encoding, a libp2p \<open>PublicKey\<close> its protobuf encoding, an Ed25519 key its
  raw bytes, a secret key its bytes.
\<close>

type_synonym peer_id = bytes

record crypto =
  ed_sign :: "bytes \<Rightarrow> bytes \<Rightarrow> bytes"             \<comment> \<open>secret, message\<close>
  ed_verify :: "bytes \<Rightarrow> bytes \<Rightarrow> bytes \<Rightarrow> bool"    \<comment> \<open>public key, message, signature\<close>
  ed_public :: "bytes \<Rightarrow> bytes"                    \<comment> \<open>public key of a secret\<close>
  ed_public_ok :: "bytes \<Rightarrow> bool"                  \<comment> \<open>\<open>PublicKey::try_from_bytes\<close> succeeds\<close>
  key_of_ed :: "bytes \<Rightarrow> bytes"                    \<comment> \<open>\<open>PublicKey::from\<close>\<close>
  keypair_sign :: "bytes \<Rightarrow> bytes \<Rightarrow> bytes result" \<comment> \<open>\<open>Keypair::sign\<close>\<close>
  key_verify :: "bytes \<Rightarrow> bytes \<Rightarrow> bytes \<Rightarrow> bool"   \<comment> \<open>\<open>PublicKey::verify\<close>\<close>
  decode_key :: "bytes \<Rightarrow> bytes option"            \<comment> \<open>\<open>PublicKey::try_decode_protobuf\<close>\<close>
  to_peer_id :: "bytes \<Rightarrow> peer_id"                 \<comment> \<open>\<open>PublicKey::to_peer_id\<close>\<close>
  multihash :: "peer_id \<Rightarrow> (nat \<times> bytes) option"   \<comment> \<open>code and digest\<close>
  peer_text :: "peer_id \<Rightarrow> string"
  peer_parse :: "string \<Rightarrow> peer_id option"
  secret_ok :: "bytes \<Rightarrow> bool"                     \<comment> \<open>\<open>SecretKey::try_from_bytes\<close> succeeds\<close>
  keypair_bytes :: "bytes \<Rightarrow> bytes"                \<comment> \<open>64-byte encoding of the key pair of a secret\<close>
  keypair_parse :: "bytes \<Rightarrow> bytes option"
  lib_message :: "bytes \<Rightarrow> string"                 \<comment> \<open>text of a library's error on this input\<close>
  blake3 :: "bytes \<Rightarrow> bytes"
  hex_encode :: "bytes \<Rightarrow> string"
  hex_decode :: "string \<Rightarrow> bytes option"

text \<open>
  Documented behaviour: signatures made with a secret verify under its public key, an Ed25519 key
  is inlined into its PeerId (multihash code 0) and can be read back, and texts parse back.
\<close>

definition crypto_laws :: "'a crypto_scheme \<Rightarrow> bool" where
  "crypto_laws C \<longleftrightarrow>
     (\<forall>sk m. ed_verify C (ed_public C sk) m (ed_sign C sk m)) \<and>
     (\<forall>sk. ed_public_ok C (ed_public C sk) \<and> length (ed_public C sk) = 32) \<and>
     (\<forall>sk m. keypair_sign C sk m = Inr (ed_sign C sk m)) \<and>
     (\<forall>sk m. ed_sign C sk m \<noteq> []) \<and>
     (\<forall>k. ed_public_ok C k \<longrightarrow>
        multihash C (to_peer_id C (key_of_ed C k)) = Some (0, key_of_ed C k) \<and>
        decode_key C (key_of_ed C k) = Some (key_of_ed C k) \<and>
        (\<forall>m s. key_verify C (key_of_ed C k) m s = ed_verify C k m s)) \<and>
     (\<forall>sk. keypair_parse C (keypair_bytes C sk) = Some sk) \<and>
     (\<forall>p. peer_parse C (peer_text C p) = Some p) \<and>
     (\<forall>b. hex_decode C (hex_encode C b) = Some b)"

section \<open>A concrete instance\<close>

text \<open>
  Keys are 32-byte strings, a signature is the public key followed by the message.  It satisfies
  the laws, so no theorem that names them is empty.
\<close>

definition toy_public :: "bytes \<Rightarrow> bytes" where
  "toy_public sk = take 32 (sk @ replicate 32 0)"

definition toy_crypto :: crypto where
  "toy_crypto =
     \<lparr>ed_sign = (\<lambda>sk m. toy_public sk @ m),
      ed_verify = (\<lambda>k m s. s = k @ m),
      ed_public = toy_public,
      ed_public_ok = (\<lambda>k. length k = 32),
      key_of_ed = (\<lambda>k. k),
      keypair_sign = (\<lambda>sk m. Inr (toy_public sk @ m)),
      key_verify = (\<lambda>k m s. s = k @ m),
      decode_key = Some,
      to_peer_id = (\<lambda>k. k),
      multihash = (\<lambda>p. Some (0, p)),
      peer_text = bytes_str,
      peer_parse = (\<lambda>s. Some (as_bytes s)),
      secret_ok = (\<lambda>_. True),
      keypair_bytes = (\<lambda>sk. sk),
      keypair_parse = Some,
      lib_message = (\<lambda>_. []),
      blake3 = (\<lambda>b. b),
      hex_encode = bytes_str,
      hex_decode = (\<lambda>s. Some (as_bytes s))\<rparr>"

lemma toy_public_length [simp]: "length (toy_public sk) = 32"
  by (simp add: toy_public_def)

lemma toy_public_nonempty [simp]: "toy_public sk \<noteq> []"
  using toy_public_length [of sk] by (auto simp del: toy_public_length)

lemma toy_crypto_laws: "crypto_laws toy_crypto"
  by (simp add: crypto_laws_def toy_crypto_def)

end
