(* ===== verification/HybridClock.thy ===== *)
theory HybridClock
  imports Errors
begin

text \<open>
  \<open>rust/p2p-core/src/hlc.rs\<close>: the hybrid logical clock.  \<open>hlc\<close> is the timestamp with its derived
  order and its sortable text; \<open>hybrid_clock\<close> is the shared clock.  Reading the system clock is an
  argument \<open>W\<close>: its \<open>i\<close>-th reading is \<open>W i\<close>, an arbitrary value, so that stopped, skewed and
  backward-running system clocks are all covered.  The clock's state counts the readings taken.
\<close>

section \<open>Timestamps\<close>

datatype hlc = Hlc (wall_ms: u64) (counter: u32)

text \<open>\<open>#[derive(Ord)]\<close>: the fields in their order.\<close>

definition hlc_lt :: "hlc \<Rightarrow> hlc \<Rightarrow> bool" where
  "hlc_lt a b \<longleftrightarrow> wall_ms a < wall_ms b \<or> wall_ms a = wall_ms b \<and> counter a < counter b"

definition hlc_le :: "hlc \<Rightarrow> hlc \<Rightarrow> bool" where
  "hlc_le a b \<longleftrightarrow> wall_ms a < wall_ms b \<or> wall_ms a = wall_ms b \<and> counter a \<le> counter b"

instantiation hlc :: linorder
begin

definition less_hlc :: "hlc \<Rightarrow> hlc \<Rightarrow> bool" where
  "less_hlc = hlc_lt"

definition less_eq_hlc :: "hlc \<Rightarrow> hlc \<Rightarrow> bool" where
  "less_eq_hlc = hlc_le"

instance
  by standard (auto simp: less_hlc_def less_eq_hlc_def hlc_lt_def hlc_le_def intro: hlc.expand)

end

lemma Hlc_less [simp]: "Hlc w c < Hlc v d \<longleftrightarrow> w < v \<or> w = v \<and> c < d"
  by (simp add: less_hlc_def hlc_lt_def)

lemma Hlc_le [simp]: "Hlc w c \<le> Hlc v d \<longleftrightarrow> w < v \<or> w = v \<and> c \<le> d"
  by (simp add: less_eq_hlc_def hlc_le_def)

definition MAX_CLOCK_DRIFT_MS :: u64 where
  "MAX_CLOCK_DRIFT_MS = 60000"

definition hlc_zero :: hlc where
  "hlc_zero = Hlc 0 0"

lemma hlc_zero_le [simp]: "hlc_zero \<le> h"
proof (cases h)
  case (Hlc w c)
  then show ?thesis by (cases "w = 0") (simp_all add: hlc_zero_def word_neq_0_conv)
qed

section \<open>Sortable text\<close>

definition to_hex :: "hlc \<Rightarrow> string" where
  "to_hex h = hex_fixed 16 (unat (wall_ms h)) @ hex_fixed 8 (unat (counter h))"

definition from_hex :: "string \<Rightarrow> hlc option result" where
  "from_hex s =
     (if length s \<noteq> 24 then Inr None
      else if \<not> char_boundary s 16 then Inl EPanic
      else Inr (case from_str_radix16 64 (take 16 s) of
                  None \<Rightarrow> None
                | Some w \<Rightarrow> (case from_str_radix16 32 (take 8 (drop 16 s)) of
                      None \<Rightarrow> None
                    | Some c \<Rightarrow> Some (Hlc (word_of_nat w) (word_of_nat c)))))"

lemma length_to_hex [simp, codec_simps]: "length (to_hex h) = 24"
  by (simp add: to_hex_def)

lemma wall_bound: "unat (w :: u64) < 16 ^ 16"
  using unsigned_less [of w] by simp

lemma counter_bound: "unat (c :: u32) < 16 ^ 8"
  using unsigned_less [of c] by simp

lemma digit_char_ascii: "d < 16 \<Longrightarrow> unat (char_byte (digit_char d)) < 128"
  by (simp add: unat_char_byte of_char_digit_char)

lemma hex_fixed_ascii: "c \<in> set (hex_fixed n v) \<Longrightarrow> unat (char_byte c) < 128"
proof (induction n arbitrary: v)
  case (Suc n)
  have "unat (char_byte (digit_char (v mod 16))) < 128" by (rule digit_char_ascii) simp
  with Suc show ?case by auto
qed simp

lemma to_hex_boundary: "char_boundary (to_hex h) 16"
proof -
  have "to_hex h ! 16 \<in> set (hex_fixed 8 (unat (counter h)))"
    unfolding to_hex_def by (simp add: nth_append)
  then have "unat (char_byte (to_hex h ! 16)) < 128" by (rule hex_fixed_ascii)
  then show ?thesis by (simp add: char_boundary_def in_range_def)
qed

lemma from_hex_to_hex [simp, codec_simps]: "from_hex (to_hex h) = Inr (Some h)"
proof -
  have w: "from_str_radix16 64 (hex_fixed 16 (unat (wall_ms h))) = Some (unat (wall_ms h))"
    using wall_bound unsigned_less [of "wall_ms h"]
    by (intro from_str_radix16_hex_fixed) simp_all
  have c: "from_str_radix16 32 (hex_fixed 8 (unat (counter h))) = Some (unat (counter h))"
    using counter_bound unsigned_less [of "counter h"]
    by (intro from_str_radix16_hex_fixed) simp_all
  have "take 16 (to_hex h) = hex_fixed 16 (unat (wall_ms h))"
    and "take 8 (drop 16 (to_hex h)) = hex_fixed 8 (unat (counter h))"
    by (simp_all add: to_hex_def)
  with w c to_hex_boundary [of h] show ?thesis by (simp add: from_hex_def)
qed

lemma to_hex_inject [simp]: "to_hex a = to_hex b \<longleftrightarrow> a = b"
  by (metis from_hex_to_hex option.inject sum.inject(2))

text \<open>The text sorts exactly like the struct, so SQL may compare it.\<close>

lemma to_hex_less [simp]: "to_hex a < to_hex b \<longleftrightarrow> a < b"
proof -
  have "to_hex a < to_hex b \<longleftrightarrow>
      unat (wall_ms a) < unat (wall_ms b) \<or>
      unat (wall_ms a) = unat (wall_ms b) \<and> unat (counter a) < unat (counter b)"
    unfolding to_hex_def
    by (simp only: append_less length_hex_fixed hex_fixed_less hex_fixed_inject wall_bound counter_bound)
  also have "\<dots> \<longleftrightarrow> a < b"
    by (simp add: less_hlc_def hlc_lt_def word_less_nat_alt word_unat_eq_iff)
  finally show ?thesis .
qed

lemma to_hex_le [simp]: "to_hex a \<le> to_hex b \<longleftrightarrow> a \<le> b"
  by (simp add: le_less)

lemma to_hex_nonempty [simp]: "[] < to_hex h"
  by (cases "to_hex h") (auto dest: arg_cong [of _ _ length])

lemma to_hex_neq_Nil [simp]: "to_hex h \<noteq> []"
  by (auto dest: arg_cong [of _ _ length])

section \<open>The clock\<close>

type_synonym wall_clock = "nat \<Rightarrow> u64"

record hybrid_clock =
  last_hlc :: hlc
  reads :: nat

definition new_clock :: hybrid_clock where
  "new_clock = \<lparr>last_hlc = hlc_zero, reads = 0\<rparr>"

definition resuming_from :: "hlc \<Rightarrow> hybrid_clock" where
  "resuming_from seen = \<lparr>last_hlc = seen, reads = 0\<rparr>"

definition now_ms :: "wall_clock \<Rightarrow> hybrid_clock \<Rightarrow> u64 \<times> hybrid_clock" where
  "now_ms W c = (W (reads c), c\<lparr>reads := Suc (reads c)\<rparr>)"

text \<open>The successor that \<open>tick\<close> and the out-of-window branch of \<open>observe\<close> both take.\<close>

definition advance :: "u64 \<Rightarrow> hlc \<Rightarrow> hlc" where
  "advance phys h =
     (if wall_ms h < phys then Hlc phys 0 else Hlc (wall_ms h) (sat_add (counter h) 1))"

definition tick :: "wall_clock \<Rightarrow> hybrid_clock \<Rightarrow> hlc \<times> hybrid_clock" where
  "tick W c =
     (let (phys, c) = now_ms W c;
          nxt = advance phys (last_hlc c)
      in (nxt, c\<lparr>last_hlc := nxt\<rparr>))"

definition observe :: "wall_clock \<Rightarrow> hlc \<Rightarrow> hybrid_clock \<Rightarrow> hlc \<times> hybrid_clock" where
  "observe W remote c =
     (let (phys, c) = now_ms W c;
          lst = last_hlc c
      in if wall_ms remote > sat_add phys MAX_CLOCK_DRIFT_MS then
           (let nxt = advance phys lst in (nxt, c\<lparr>last_hlc := nxt\<rparr>))
         else
           (let max_wall = max (max phys (wall_ms lst)) (wall_ms remote);
                nxt = (if max_wall = wall_ms lst \<and> max_wall = wall_ms remote then
                         Hlc max_wall (sat_add (max (counter lst) (counter remote)) 1)
                       else if max_wall = wall_ms lst then Hlc max_wall (sat_add (counter lst) 1)
                       else if max_wall = wall_ms remote then Hlc max_wall (sat_add (counter remote) 1)
                       else Hlc max_wall 0)
            in (nxt, c\<lparr>last_hlc := nxt\<rparr>)))"

text \<open>A stamp that still has room for a successor in the same millisecond.\<close>

definition not_saturated :: "hlc \<Rightarrow> bool" where
  "not_saturated h \<longleftrightarrow> counter h \<noteq> - 1"

lemma advance_ge: "h \<le> advance phys h"
  by (cases h) (auto simp: advance_def sat_add_ge)

lemma advance_gt: "not_saturated h \<or> wall_ms h < phys \<Longrightarrow> h < advance phys h"
  by (cases h) (auto simp: advance_def not_saturated_def sat_add_1_gt)

lemma advance_wall: "wall_ms (advance phys h) = max phys (wall_ms h)"
  by (simp add: advance_def max.absorb1 max.absorb2 not_less less_imp_le)

lemma tick_simps:
  "fst (tick W c) = advance (W (reads c)) (last_hlc c)"
  "snd (tick W c) = c\<lparr>last_hlc := fst (tick W c), reads := Suc (reads c)\<rparr>"
  by (simp_all add: tick_def now_ms_def Let_def)

lemma observe_snd:
  "snd (observe W r c) = c\<lparr>last_hlc := fst (observe W r c), reads := Suc (reads c)\<rparr>"
  by (simp add: observe_def now_ms_def Let_def)

lemma observe_ge: "last_hlc c \<le> fst (observe W r c)"
proof (cases "last_hlc c"; cases r)
  fix w n v m assume "last_hlc c = Hlc w n" "r = Hlc v m"
  then show ?thesis
    using advance_ge [of "Hlc w n" "W (reads c)"]
      sat_add_ge [of n 1] order.trans [OF max.cobounded1 [of n m] sat_add_ge [of "max n m" 1]]
    by (auto simp: observe_def now_ms_def Let_def max_def split: if_splits)
qed

lemma observe_remote_ge:
  assumes "wall_ms r \<le> sat_add (W (reads c)) MAX_CLOCK_DRIFT_MS"
  shows "r \<le> fst (observe W r c)"
proof (cases "last_hlc c"; cases r)
  fix w n v m assume "last_hlc c = Hlc w n" "r = Hlc v m"
  then show ?thesis
    using assms
      sat_add_ge [of m 1] order.trans [OF max.cobounded2 [of m n] sat_add_ge [of "max n m" 1]]
    by (auto simp: observe_def now_ms_def Let_def max_def split: if_splits)
qed


lemma observe_remote_gt:
  assumes "wall_ms r \<le> sat_add (W (reads c)) MAX_CLOCK_DRIFT_MS"
    and "not_saturated r" "not_saturated (last_hlc c)"
  shows "r < fst (observe W r c)"
proof (cases "last_hlc c"; cases r)
  fix w n v m assume l: "last_hlc c = Hlc w n" and r: "r = Hlc v m"
  have "m \<noteq> - 1" "n \<noteq> - 1" using assms(2,3) l r by (simp_all add: not_saturated_def)
  then have "m < sat_add m 1" "max n m < sat_add (max n m) 1"
    by (simp_all add: sat_add_1_gt max_def)
  moreover have "m \<le> max n m" by simp
  ultimately have "m < sat_add m 1" "m < sat_add (max n m) 1" by (simp, meson le_less_trans)
  then show ?thesis
    using assms(1) l r
    by (auto simp: observe_def now_ms_def Let_def max_def split: if_splits)
qed

text \<open>How far one observation can move the clock.\<close>

lemma observe_wall_bound:
  "wall_ms (fst (observe W r c))
     \<le> max (sat_add (W (reads c)) MAX_CLOCK_DRIFT_MS) (wall_ms (last_hlc c))"
proof -
  let ?p = "W (reads c)" and ?s = "sat_add (W (reads c)) MAX_CLOCK_DRIFT_MS"
  have p: "?p \<le> ?s" by (rule sat_add_ge)
  show ?thesis
  proof (cases "wall_ms r > ?s")
    case True
    then have "fst (observe W r c) = advance ?p (last_hlc c)"
      by (simp add: observe_def now_ms_def Let_def)
    with p show ?thesis by (auto simp: advance_wall le_max_iff_disj)
  next
    case False
    then have "wall_ms (fst (observe W r c)) = max (max ?p (wall_ms (last_hlc c))) (wall_ms r)"
      by (simp add: observe_def now_ms_def Let_def)
    with p False show ?thesis by (auto simp: le_max_iff_disj not_less)
  qed
qed

section \<open>Runs of the clock\<close>

text \<open>The stamps handed out by \<open>n\<close> successive ticks, and the clock afterwards.\<close>

fun ticks :: "wall_clock \<Rightarrow> nat \<Rightarrow> hybrid_clock \<Rightarrow> hlc list \<times> hybrid_clock" where
  "ticks W 0 c = ([], c)"
| "ticks W (Suc n) c =
     (let (h, c) = tick W c; (hs, c) = ticks W n c in (h # hs, c))"

text \<open>\<open>clock_room n c\<close>: the counter can be incremented \<open>n\<close> times without saturating.\<close>

definition clock_room :: "nat \<Rightarrow> hybrid_clock \<Rightarrow> bool" where
  "clock_room n c \<longleftrightarrow> unat (counter (last_hlc c)) + n < 2 ^ 32"

lemma clock_room_not_saturated: "clock_room (Suc n) c \<Longrightarrow> not_saturated (last_hlc c)"
  unfolding clock_room_def not_saturated_def by (auto simp: unat_max_word)

lemma clock_room_tick: "clock_room (Suc n) c \<Longrightarrow> clock_room n (snd (tick W c))"
  by (auto simp: clock_room_def tick_simps advance_def sat_add_unat)

lemma clock_room_mono: "clock_room n c \<Longrightarrow> m \<le> n \<Longrightarrow> clock_room m c"
  by (simp add: clock_room_def)

lemma tick_gt: "clock_room (Suc n) c \<Longrightarrow> last_hlc c < fst (tick W c)"
  by (simp add: tick_simps advance_gt clock_room_not_saturated)

lemma last_hlc_tick [simp]: "last_hlc (snd (tick W c)) = fst (tick W c)"
  by (simp add: tick_simps)

lemma ticks_increasing:
  "clock_room n c \<Longrightarrow> sorted_wrt (<) (last_hlc c # fst (ticks W n c))"
proof (induction n arbitrary: c)
  case (Suc n)
  let ?c = "snd (tick W c)"
  have IH: "sorted_wrt (<) (fst (tick W c) # fst (ticks W n ?c))"
    using Suc.IH [OF clock_room_tick [OF Suc.prems, of W]] by simp
  have "last_hlc c < fst (tick W c)" using Suc.prems by (rule tick_gt)
  with IH show ?case by (auto simp: Let_def split_beta)
qed simp

end
