(* ===== verification/Identity.thy ===== *)
theory Identity
  imports Crypto HybridClock
begin

text \<open>
  \<open>rust/p2p-core/src/identity.rs\<close>: roles, device certificates, the organisation key, revocation
  lists, device identities, and the proof of possession of an enrolment request.  An organisation
  or device key pair is represented by its secret; the keys and signatures come from \<open>crypto\<close>.
\<close>

section \<open>Domains and text encoding\<close>

definition CERT_DOMAIN :: bytes where "CERT_DOMAIN = as_bytes ''p2p-org-devcert-v1''"
definition CRL_DOMAIN :: bytes where "CRL_DOMAIN = as_bytes ''p2p-org-crl-v1''"
definition ENROLL_DOMAIN :: bytes where "ENROLL_DOMAIN = as_bytes ''p2p-org-enroll-request-v1''"

text \<open>A length-prefixed string; \<open>as u32\<close> truncates the length.\<close>

definition put_str :: "string \<Rightarrow> bytes" where
  "put_str s = u32_le (word_of_nat (length s)) @ as_bytes s"

definition fits_u32 :: "'a list \<Rightarrow> bool" where
  "fits_u32 s \<longleftrightarrow> length s < 2 ^ 32"

lemma append_eq_append_len: "length xs = length ys \<Longrightarrow> xs @ us = ys @ vs \<longleftrightarrow> xs = ys \<and> us = vs"
  by simp

lemma u32_le_length_inject:
  assumes "fits_u32 s" "fits_u32 t" "u32_le (word_of_nat (length s)) = u32_le (word_of_nat (length t))"
  shows "length s = length t"
proof -
  have "(word_of_nat (length s) :: u32) = word_of_nat (length t)" using assms(3) by simp
  then have "unat (word_of_nat (length s) :: u32) = unat (word_of_nat (length t) :: u32)" by simp
  with assms(1,2) show ?thesis by (simp add: fits_u32_def unsigned_of_nat take_bit_nat_eq_self)
qed

text \<open>The prefix makes the encoding self-delimiting.\<close>

lemma put_str_append_inject [codec_simps]:
  assumes "fits_u32 s" "fits_u32 t"
  shows "put_str s @ us = put_str t @ vs \<longleftrightarrow> s = t \<and> us = vs"
proof
  assume eq: "put_str s @ us = put_str t @ vs"
  then have "u32_le (word_of_nat (length s)) = u32_le (word_of_nat (length t))"
    and rest: "as_bytes s @ us = as_bytes t @ vs"
    by (simp_all add: put_str_def append_eq_append_len)
  from u32_le_length_inject [OF assms this(1)] rest show "s = t \<and> us = vs"
    by (simp add: append_eq_append_len)
qed simp

lemma put_str_inject [codec_simps]:
  "fits_u32 s \<Longrightarrow> fits_u32 t \<Longrightarrow> put_str s = put_str t \<longleftrightarrow> s = t"
  using put_str_append_inject [of s t "[]" "[]"] by simp

section \<open>Roles\<close>

datatype role = Admin | Member | ReadOnly

fun role_as_u8 :: "role \<Rightarrow> u8" where
  "role_as_u8 Admin = 0"
| "role_as_u8 Member = 1"
| "role_as_u8 ReadOnly = 2"

definition role_from_u8 :: "u8 \<Rightarrow> role option" where
  "role_from_u8 v = (if v = 0 then Some Admin else if v = 1 then Some Member
     else if v = 2 then Some ReadOnly else None)"

fun role_as_str :: "role \<Rightarrow> string" where
  "role_as_str Admin = ''admin''"
| "role_as_str Member = ''member''"
| "role_as_str ReadOnly = ''readonly''"

definition role_from_str_lossy :: "string \<Rightarrow> role" where
  "role_from_str_lossy s =
     (if s = ''admin'' then Admin else if s = ''readonly'' then ReadOnly else Member)"

definition may_write :: "role \<Rightarrow> bool" where
  "may_write r \<longleftrightarrow> r = Admin \<or> r = Member"

lemma role_codec [simp]:
  "role_from_u8 (role_as_u8 r) = Some r" "role_from_str_lossy (role_as_str r) = r"
  by (cases r; simp add: role_from_u8_def role_from_str_lossy_def)+

lemma role_as_u8_inject [simp]: "role_as_u8 r = role_as_u8 s \<longleftrightarrow> r = s"
  by (cases r; cases s) simp_all

section \<open>Keys\<close>

definition org_id_from_public :: "'a crypto_scheme \<Rightarrow> bytes \<Rightarrow> string" where
  "org_id_from_public C org_pub = hex_encode C (blake3 C org_pub)"

definition ed25519_public :: "'a crypto_scheme \<Rightarrow> bytes \<Rightarrow> bytes result" where
  "ed25519_public C b =
     (if ed_public_ok C b then Inr b
      else Inl (ECrypto (''bad ed25519 public key: '' @ lib_message C b)))"

definition device_pub_to_peer_id :: "'a crypto_scheme \<Rightarrow> bytes \<Rightarrow> peer_id result" where
  "device_pub_to_peer_id C pub =
     (case ed25519_public C pub of Inl e \<Rightarrow> Inl e | Inr k \<Rightarrow> Inr (to_peer_id C (key_of_ed C k)))"

text \<open>The public key inlined in a PeerId.\<close>

definition peer_public_key :: "'a crypto_scheme \<Rightarrow> peer_id \<Rightarrow> bytes result" where
  "peer_public_key C peer =
     (case multihash C peer of
        None \<Rightarrow> Inl (ECrypto (''bad peer id: '' @ lib_message C peer))
      | Some (code, digest) \<Rightarrow>
          if code \<noteq> 0 then
            Inl (ECrypto ''peer id hashes its key rather than inlining it; not an ed25519 identity'')
          else (case decode_key C digest of
                  None \<Rightarrow> Inl (ECrypto (lib_message C digest))
                | Some k \<Rightarrow> Inr k))"

definition peer_public_key_from_str :: "'a crypto_scheme \<Rightarrow> string \<Rightarrow> bytes result" where
  "peer_public_key_from_str C peer =
     (case peer_parse C peer of
        None \<Rightarrow> Inl (ECrypto (''bad peer id `'' @ peer @ ''`: '' @ lib_message C (as_bytes peer)))
      | Some pid \<Rightarrow> peer_public_key C pid)"

section \<open>Certificates\<close>

record cert_claims =
  claim_org_id :: string
  device_pub :: bytes
  user_id :: string
  display_name :: string
  claim_role :: role
  issued_at_ms :: u64
  expires_at_ms :: u64
  serial :: u64

definition cert_signing_bytes :: "cert_claims \<Rightarrow> bytes" where
  "cert_signing_bytes c =
     CERT_DOMAIN @ put_str (claim_org_id c) @ device_pub c @ put_str (user_id c)
     @ put_str (display_name c) @ [role_as_u8 (claim_role c)]
     @ u64_le (issued_at_ms c) @ u64_le (expires_at_ms c) @ u64_le (serial c)"

record device_cert =
  claims :: cert_claims
  cert_org_pub :: bytes
  cert_signature :: bytes

definition cert_peer_id :: "'a crypto_scheme \<Rightarrow> device_cert \<Rightarrow> peer_id result" where
  "cert_peer_id C cert = device_pub_to_peer_id C (device_pub (claims cert))"

definition is_expired_at :: "device_cert \<Rightarrow> u64 \<Rightarrow> bool" where
  "is_expired_at cert now \<longleftrightarrow> expires_at_ms (claims cert) \<le> now"

section \<open>Revocation lists\<close>

record revocation_list =
  crl_org_id :: string
  updated_at_ms :: u64
  revoked :: "u64 list"
  crl_org_pub :: bytes
  crl_signature :: bytes

definition crl_empty :: "string \<Rightarrow> revocation_list" where
  "crl_empty org = \<lparr>crl_org_id = org, updated_at_ms = 0, revoked = [],
     crl_org_pub = replicate 32 0, crl_signature = []\<rparr>"

definition crl_signing_bytes :: "revocation_list \<Rightarrow> bytes" where
  "crl_signing_bytes l =
     CRL_DOMAIN @ put_str (crl_org_id l) @ u64_le (updated_at_ms l)
     @ u32_le (word_of_nat (length (revoked l))) @ concat (List.map u64_le (revoked l))"

text \<open>\<open>slice::binary_search\<close> of the standard library: the loop halves the candidate range.\<close>

fun bsearch_loop :: "'k::linorder list \<Rightarrow> 'k \<Rightarrow> nat \<Rightarrow> nat \<Rightarrow> nat" where
  "bsearch_loop xs x lo sz =
     (if sz \<le> 1 then lo
      else (let half = sz div 2; mid = lo + half
            in bsearch_loop xs x (if x < xs ! mid then lo else mid) (sz - half)))"

declare bsearch_loop.simps [simp del]

definition binary_search :: "'k::linorder list \<Rightarrow> 'k \<Rightarrow> bool" where
  "binary_search xs x \<longleftrightarrow> xs \<noteq> [] \<and> xs ! bsearch_loop xs x 0 (length xs) = x"

definition is_revoked :: "revocation_list \<Rightarrow> u64 \<Rightarrow> bool" where
  "is_revoked l s \<longleftrightarrow> binary_search (revoked l) s"

text \<open>\<open>windows(2).all(|w| w[0] < w[1])\<close>\<close>

fun windows_increasing :: "'k::ord list \<Rightarrow> bool" where
  "windows_increasing (x # y # zs) \<longleftrightarrow> x < y \<and> windows_increasing (y # zs)"
| "windows_increasing _ \<longleftrightarrow> True"

definition crl_verify :: "'a crypto_scheme \<Rightarrow> revocation_list \<Rightarrow> string \<Rightarrow> unit result" where
  "crl_verify C l expected_org =
     (if updated_at_ms l = 0 \<and> revoked l = [] then Inr ()
      else if crl_org_id l \<noteq> expected_org \<or> org_id_from_public C (crl_org_pub l) \<noteq> expected_org
        then Inl (ERejected ''revocation list is for a different organisation'')
      else if \<not> windows_increasing (revoked l)
        then Inl (ERejected ''revocation list is not sorted and deduplicated'')
      else (case ed25519_public C (crl_org_pub l) of
              Inl e \<Rightarrow> Inl e
            | Inr key \<Rightarrow>
                if ed_verify C key (crl_signing_bytes l) (crl_signature l) then Inr ()
                else Inl (ERejected ''revocation list signature is not valid'')))"

section \<open>Validation of a certificate\<close>

text \<open>The sum \<open>now_ms_ + MAX_CLOCK_DRIFT_MS\<close> wraps, as it does without overflow checks.\<close>

definition cert_verify ::
  "'a crypto_scheme \<Rightarrow> device_cert \<Rightarrow> string \<Rightarrow> peer_id option \<Rightarrow> revocation_list option \<Rightarrow> u64 \<Rightarrow> unit result"
where
  "cert_verify C cert expected_org expected_peer crl now =
     (if org_id_from_public C (cert_org_pub cert) \<noteq> expected_org
        then Inl (ERejected ''certificate is from a different organisation'')
      else if claim_org_id (claims cert) \<noteq> expected_org
        then Inl (ERejected ''certificate org id does not match its signing key'')
      else (case ed25519_public C (cert_org_pub cert) of
        Inl e \<Rightarrow> Inl e
      | Inr org_key \<Rightarrow>
          if \<not> ed_verify C org_key (cert_signing_bytes (claims cert)) (cert_signature cert)
            then Inl (ERejected ''certificate signature is not valid'')
          else if expires_at_ms (claims cert) \<le> now
            then Inl (ERejected ''certificate has expired'')
          else if now + MAX_CLOCK_DRIFT_MS < issued_at_ms (claims cert)
            then Inl (ERejected ''certificate is not valid yet'')
          else (let revocation =
                  (case crl of
                     None \<Rightarrow> Inr ()
                   | Some l \<Rightarrow>
                       if is_revoked l (serial (claims cert))
                       then Inl (ERejected ''certificate has been revoked'') else Inr ())
                in (case expected_peer of
                      None \<Rightarrow> revocation
                    | Some peer \<Rightarrow>
                        (case cert_peer_id C cert of
                           Inl e \<Rightarrow> Inl e
                         | Inr cert_peer \<Rightarrow>
                             if cert_peer \<noteq> peer
                             then Inl (ERejected ''certificate belongs to a different device than the one connected'')
                             else revocation)))))"

section \<open>The organisation key\<close>

definition org_from_bytes :: "'a crypto_scheme \<Rightarrow> bytes \<Rightarrow> bytes result" where
  "org_from_bytes C b =
     (case keypair_parse C b of
        None \<Rightarrow> Inl (ECrypto (''bad org key: '' @ lib_message C b)) | Some sk \<Rightarrow> Inr sk)"

definition org_id :: "'a crypto_scheme \<Rightarrow> bytes \<Rightarrow> string" where
  "org_id C org = org_id_from_public C (ed_public C org)"

definition issue_cert ::
  "'a crypto_scheme \<Rightarrow> bytes \<Rightarrow> bytes \<Rightarrow> string \<Rightarrow> string \<Rightarrow> role \<Rightarrow> u64 \<Rightarrow> u64 \<Rightarrow> u64 \<Rightarrow> device_cert"
where
  "issue_cert C org dev_pub user display r ser valid_for now =
     (let c = \<lparr>claim_org_id = org_id C org, device_pub = dev_pub, user_id = user,
               display_name = display, claim_role = r, issued_at_ms = now,
               expires_at_ms = sat_add now valid_for, serial = ser\<rparr>
      in \<lparr>claims = c, cert_org_pub = ed_public C org,
          cert_signature = ed_sign C org (cert_signing_bytes c)\<rparr>)"

definition sign_crl :: "'a crypto_scheme \<Rightarrow> bytes \<Rightarrow> u64 list \<Rightarrow> u64 \<Rightarrow> revocation_list" where
  "sign_crl C org serials updated =
     (let l = \<lparr>crl_org_id = org_id C org, updated_at_ms = updated,
               revoked = remdups_adj (sort serials), crl_org_pub = ed_public C org,
               crl_signature = []\<rparr>
      in l\<lparr>crl_signature := ed_sign C org (crl_signing_bytes l)\<rparr>)"

section \<open>Device identities\<close>

definition device_from_secret :: "'a crypto_scheme \<Rightarrow> bytes \<Rightarrow> bytes result" where
  "device_from_secret C secret =
     (if length secret \<noteq> 32 then Inl (ECrypto ''device secret key must be 32 bytes'')
      else if secret_ok C secret then Inr secret
      else Inl (ECrypto (''bad device secret: '' @ lib_message C secret)))"

definition device_peer_id :: "'a crypto_scheme \<Rightarrow> bytes \<Rightarrow> peer_id" where
  "device_peer_id C sk = to_peer_id C (key_of_ed C (ed_public C sk))"

definition enrollment_bytes :: "bytes \<Rightarrow> string \<Rightarrow> string \<Rightarrow> u64 \<Rightarrow> bytes" where
  "enrollment_bytes pub token name at_ms =
     ENROLL_DOMAIN @ put_str token @ put_str name @ pub @ u64_le at_ms"

definition sign_enrollment :: "'a crypto_scheme \<Rightarrow> bytes \<Rightarrow> string \<Rightarrow> string \<Rightarrow> u64 \<Rightarrow> bytes" where
  "sign_enrollment C sk token name at_ms =
     ed_sign C sk (enrollment_bytes (ed_public C sk) token name at_ms)"

definition verify_enrollment_proof ::
  "'a crypto_scheme \<Rightarrow> bytes \<Rightarrow> string \<Rightarrow> string \<Rightarrow> u64 \<Rightarrow> bytes \<Rightarrow> unit result"
where
  "verify_enrollment_proof C pub token name at_ms sig =
     (case ed25519_public C pub of
        Inl e \<Rightarrow> Inl e
      | Inr key \<Rightarrow>
          if ed_verify C key (enrollment_bytes pub token name at_ms) sig then Inr ()
          else Inl (ERejected ''enrolment proof-of-possession is not valid''))"


section \<open>Binary search\<close>

lemma bsearch_loop_range:
  "0 < sz \<Longrightarrow> lo \<le> bsearch_loop xs x lo sz \<and> bsearch_loop xs x lo sz < lo + sz"
proof (induction xs x lo sz rule: bsearch_loop.induct)
  case (1 xs x lo sz)
  show ?case
  proof (cases "sz \<le> 1")
    case True
    with "1.prems" show ?thesis by (simp add: bsearch_loop.simps [of xs x lo sz])
  next
    case False
    let ?lo = "if x < xs ! (lo + sz div 2) then lo else lo + sz div 2"
    have "?lo \<le> bsearch_loop xs x ?lo (sz - sz div 2) \<and>
        bsearch_loop xs x ?lo (sz - sz div 2) < ?lo + (sz - sz div 2)"
      using "1.IH" [OF False refl refl] False by simp
    moreover have "bsearch_loop xs x lo sz = bsearch_loop xs x ?lo (sz - sz div 2)"
      using False by (subst bsearch_loop.simps) (simp add: Let_def)
    ultimately show ?thesis
      using False by (cases "x < xs ! (lo + sz div 2)") (simp_all, linarith)
  qed
qed

lemma bsearch_loop_finds:
  assumes "sorted xs" "lo + sz \<le> length xs" "lo \<le> i" "i < lo + sz" "xs ! i = x"
  shows "xs ! bsearch_loop xs x lo sz = x"
  using assms
proof (induction xs x lo sz arbitrary: i rule: bsearch_loop.induct)
  case (1 xs x lo sz)
  show ?case
  proof (cases "sz \<le> 1")
    case True
    with "1.prems" have "i = lo" by simp
    with True "1.prems" show ?thesis by (simp add: bsearch_loop.simps [of xs x lo sz])
  next
    case False
    let ?h = "sz div 2" let ?mid = "lo + ?h"
    let ?lo = "if x < xs ! ?mid then lo else ?mid"
    have mid: "?mid < length xs" using False "1.prems"(2) by linarith
    have "\<exists>j. ?lo \<le> j \<and> j < ?lo + (sz - ?h) \<and> xs ! j = x"
    proof (cases "x < xs ! ?mid")
      case True
      then have "i < ?mid"
        using sorted_nth_mono [OF \<open>sorted xs\<close>, of ?mid i] "1.prems" by (metis leD leI add_less_cancel_left le_less_trans less_le_trans)
      with True "1.prems" show ?thesis by (intro exI [of _ i]) auto
    next
      case mid_le: False
      show ?thesis
      proof (cases "?mid \<le> i")
        case True
        with mid_le "1.prems" show ?thesis by (intro exI [of _ i]) auto
      next
        case False
        then have "xs ! i \<le> xs ! ?mid" using mid by (intro sorted_nth_mono [OF \<open>sorted xs\<close>]) simp_all
        with mid_le "1.prems"(5) have "xs ! ?mid = x" by simp
        with mid_le \<open>\<not> sz \<le> 1\<close> show ?thesis by (intro exI [of _ ?mid]) auto
      qed
    qed
    then obtain j where j: "?lo \<le> j" "j < ?lo + (sz - ?h)" "xs ! j = x" by blast
    have "?lo + (sz - ?h) \<le> length xs" using "1.prems"(2) by auto
    then have "xs ! bsearch_loop xs x ?lo (sz - ?h) = x"
      using "1.IH" [OF False refl refl "1.prems"(1)] j by blast
    then show ?thesis using False by (subst bsearch_loop.simps) (simp add: Let_def)
  qed
qed

lemma binary_search_iff: "sorted xs \<Longrightarrow> binary_search xs x \<longleftrightarrow> x \<in> set xs"
proof
  assume "binary_search xs x"
  then show "x \<in> set xs"
    using bsearch_loop_range [of "length xs" 0 xs x] nth_mem [of "bsearch_loop xs x 0 (length xs)" xs]
    by (auto simp: binary_search_def)
next
  assume "sorted xs" "x \<in> set xs"
  then obtain i where "i < length xs" "xs ! i = x" by (auto simp: in_set_conv_nth)
  then show "binary_search xs x"
    using bsearch_loop_finds [OF \<open>sorted xs\<close>, of 0 "length xs" i x]
    by (auto simp: binary_search_def)
qed

lemma windows_increasing_iff: "windows_increasing xs \<longleftrightarrow> sorted_wrt (<) xs" for xs :: "'k::linorder list"
proof (induction xs rule: windows_increasing.induct)
  case (1 x y zs)
  then show ?case by (auto intro: less_trans)
qed simp_all

lemma sorted_wrt_less_sorted: "sorted_wrt (<) xs \<Longrightarrow> sorted xs" for xs :: "'k::linorder list"
  by (rule sorted_wrt_mono_rel [of _ "(<)"]) simp_all

lemma sorted_remdups_adj_strict:
  "sorted xs \<Longrightarrow> sorted_wrt (<) (remdups_adj xs)" for xs :: "'k::linorder list"
proof (induction xs rule: remdups_adj.induct)
  case (3 x y zs)
  then show ?case by (cases "x = y") (auto simp: less_le)
qed simp_all

section \<open>Signed bytes determine what was signed\<close>

definition claims_fit :: "cert_claims \<Rightarrow> bool" where
  "claims_fit c \<longleftrightarrow> fits_u32 (claim_org_id c) \<and> fits_u32 (user_id c) \<and> fits_u32 (display_name c)
     \<and> length (device_pub c) = 32"

lemma cert_signing_bytes_inject:
  assumes "claims_fit c" "claims_fit d" "cert_signing_bytes c = cert_signing_bytes d"
  shows "c = d"
proof -
  have "claim_org_id c = claim_org_id d"
    and "device_pub c @ put_str (user_id c) @ put_str (display_name c) @ [role_as_u8 (claim_role c)]
     @ u64_le (issued_at_ms c) @ u64_le (expires_at_ms c) @ u64_le (serial c) =
     device_pub d @ put_str (user_id d) @ put_str (display_name d) @ [role_as_u8 (claim_role d)]
     @ u64_le (issued_at_ms d) @ u64_le (expires_at_ms d) @ u64_le (serial d)"
    using assms unfolding cert_signing_bytes_def claims_fit_def
    by (simp_all add: put_str_append_inject)
  moreover from this(2) have "device_pub c = device_pub d"
    and "put_str (user_id c) @ put_str (display_name c) @ [role_as_u8 (claim_role c)]
     @ u64_le (issued_at_ms c) @ u64_le (expires_at_ms c) @ u64_le (serial c) =
     put_str (user_id d) @ put_str (display_name d) @ [role_as_u8 (claim_role d)]
     @ u64_le (issued_at_ms d) @ u64_le (expires_at_ms d) @ u64_le (serial d)"
    using assms(1,2) unfolding claims_fit_def by (simp_all add: append_eq_append_len)
  moreover from this(2) have "user_id c = user_id d" "display_name c = display_name d"
    "claim_role c = claim_role d" "issued_at_ms c = issued_at_ms d"
    "expires_at_ms c = expires_at_ms d" "serial c = serial d"
    using assms(1,2) unfolding claims_fit_def
    by (simp_all add: put_str_append_inject put_str_inject append_eq_append_len)
  ultimately show ?thesis by simp
qed


lemma enrollment_bytes_inject:
  assumes "fits_u32 t" "fits_u32 u" "fits_u32 n" "fits_u32 m" "length p = length q"
  shows "enrollment_bytes p t n a = enrollment_bytes q u m b \<longleftrightarrow> p = q \<and> t = u \<and> n = m \<and> a = b"
  using assms by (auto simp: enrollment_bytes_def put_str_append_inject put_str_inject append_eq_append_len)

text \<open>The texts that open each kind of signed message differ within their first nine bytes.\<close>

lemma domains_differ:
  "take 9 CERT_DOMAIN \<noteq> take 9 CRL_DOMAIN"
  "take 9 CERT_DOMAIN \<noteq> take 9 ENROLL_DOMAIN"
  "take 9 CRL_DOMAIN \<noteq> take 9 ENROLL_DOMAIN"
  by (simp_all add: CERT_DOMAIN_def CRL_DOMAIN_def ENROLL_DOMAIN_def as_bytes_def char_byte_def)

lemma signing_bytes_domain:
  "take 9 (cert_signing_bytes c) = take 9 CERT_DOMAIN"
  "take 9 (crl_signing_bytes l) = take 9 CRL_DOMAIN"
  "take 9 (enrollment_bytes p t n a) = take 9 ENROLL_DOMAIN"
  by (simp_all add: cert_signing_bytes_def crl_signing_bytes_def enrollment_bytes_def
      CERT_DOMAIN_def CRL_DOMAIN_def ENROLL_DOMAIN_def as_bytes_def)

section \<open>Laws of the keys\<close>

lemma crypto_lawsD:
  assumes "crypto_laws C"
  shows "ed_verify C (ed_public C sk) m (ed_sign C sk m)"
    and "ed_public_ok C (ed_public C sk)"
    and "length (ed_public C sk) = 32"
    and "keypair_sign C sk m = Inr (ed_sign C sk m)"
    and "ed_sign C sk m \<noteq> []"
    and "peer_parse C (peer_text C p) = Some p"
    and "hex_decode C (hex_encode C b) = Some b"
    and "keypair_parse C (keypair_bytes C sk) = Some sk"
  using assms by (simp_all add: crypto_laws_def)

lemma peer_public_key_device:
  assumes "crypto_laws C"
  shows "peer_public_key_from_str C (peer_text C (device_peer_id C sk)) = Inr (key_of_ed C (ed_public C sk))"
    and "key_verify C (key_of_ed C (ed_public C sk)) m s = ed_verify C (ed_public C sk) m s"
proof -
  have "ed_public_ok C (ed_public C sk)" by (rule crypto_lawsD [OF assms])
  then show "peer_public_key_from_str C (peer_text C (device_peer_id C sk)) = Inr (key_of_ed C (ed_public C sk))"
    and "key_verify C (key_of_ed C (ed_public C sk)) m s = ed_verify C (ed_public C sk) m s"
    using assms
    by (simp_all add: crypto_laws_def peer_public_key_from_str_def peer_public_key_def device_peer_id_def)
qed

lemma crl_signing_bytes_sig [simp]: "crl_signing_bytes (l\<lparr>crl_signature := s\<rparr>) = crl_signing_bytes l"
  by (simp add: crl_signing_bytes_def)

text \<open>What a certificate must satisfy.\<close>

lemma cert_verify_ok:
  "cert_verify C cert org peer crl now = Inr () \<longleftrightarrow>
     org_id_from_public C (cert_org_pub cert) = org \<and> claim_org_id (claims cert) = org \<and>
     ed_public_ok C (cert_org_pub cert) \<and>
     ed_verify C (cert_org_pub cert) (cert_signing_bytes (claims cert)) (cert_signature cert) \<and>
     now < expires_at_ms (claims cert) \<and>
     issued_at_ms (claims cert) \<le> now + MAX_CLOCK_DRIFT_MS \<and>
     (case peer of None \<Rightarrow> True | Some p \<Rightarrow> cert_peer_id C cert = Inr p) \<and>
     (case crl of None \<Rightarrow> True | Some l \<Rightarrow> \<not> is_revoked l (serial (claims cert)))"
  by (auto simp: cert_verify_def ed25519_public_def Let_def not_le not_less
           split: option.splits sum.splits)

text \<open>Signed revocation lists.\<close>

lemma sign_crl_simps:
  "revoked (sign_crl C org serials t) = remdups_adj (sort serials)"
  "crl_org_id (sign_crl C org serials t) = org_id C org"
  "crl_org_pub (sign_crl C org serials t) = ed_public C org"
  "updated_at_ms (sign_crl C org serials t) = t"
  by (simp_all add: sign_crl_def Let_def)

lemma is_revoked_sign_crl: "is_revoked (sign_crl C org serials t) s \<longleftrightarrow> s \<in> set serials"
proof -
  have "sorted (remdups_adj (sort serials))"
    by (rule sorted_wrt_less_sorted [OF sorted_remdups_adj_strict [OF sorted_sort]])
  then show ?thesis by (simp add: is_revoked_def sign_crl_simps binary_search_iff)
qed

text \<open>A list the organisation signed verifies.\<close>

lemma sign_crl_verifies:
  assumes "crypto_laws C"
  shows "crl_verify C (sign_crl C org serials t) (org_id C org) = Inr ()"
proof -
  have sorted: "sorted_wrt (<) (revoked (sign_crl C org serials t))"
    by (simp add: sign_crl_simps sorted_remdups_adj_strict)
  let ?l = "\<lparr>crl_org_id = org_id C org, updated_at_ms = t, revoked = remdups_adj (sort serials),
      crl_org_pub = ed_public C org, crl_signature = []\<rparr>"
  have eq: "sign_crl C org serials t = ?l\<lparr>crl_signature := ed_sign C org (crl_signing_bytes ?l)\<rparr>"
    by (simp add: sign_crl_def Let_def)
  have "crl_signing_bytes (sign_crl C org serials t) = crl_signing_bytes ?l"
    unfolding eq by (rule crl_signing_bytes_sig)
  moreover have "crl_signature (sign_crl C org serials t) = ed_sign C org (crl_signing_bytes ?l)"
    unfolding eq by simp
  ultimately have "ed_verify C (ed_public C org) (crl_signing_bytes (sign_crl C org serials t))
      (crl_signature (sign_crl C org serials t))"
    using crypto_lawsD(1) [OF assms] by simp
  with sorted show ?thesis
    using assms
    by (simp add: crl_verify_def windows_increasing_iff sign_crl_simps ed25519_public_def crypto_lawsD)
       (simp add: org_id_def)
qed

end
