(* ===== verification/Changes.thy ===== *)
theory Changes
  imports Tables Values Identity
begin

text \<open>
  \<open>rust/p2p-core/src/db/change.rs\<close>: the change record with its signed bytes, the version vector,
  and the last-writer-wins rule.
\<close>

section \<open>Change records\<close>

definition CHANGE_DOMAIN :: bytes where "CHANGE_DOMAIN = as_bytes ''p2p-change-v1''"

datatype change_kind = Cell | Delete

fun kind_as_i64 :: "change_kind \<Rightarrow> i64" where
  "kind_as_i64 Cell = 0"
| "kind_as_i64 Delete = 1"

definition kind_from_i64 :: "i64 \<Rightarrow> change_kind" where
  "kind_from_i64 v = (if v = 1 then Delete else Cell)"

lemma kind_codec [simp]: "kind_from_i64 (kind_as_i64 k) = k"
  by (cases k) (simp_all add: kind_from_i64_def)

record change_record =
  cr_tbl :: string
  cr_pk :: string
  cr_col :: string
  cr_value :: sql_value
  cr_hlc :: hlc
  cr_origin :: string
  cr_kind :: change_kind
  cr_sig :: bytes

text \<open>The order of the whole organisation: stamp text, then author.\<close>

definition order_key :: "change_record \<Rightarrow> string \<times> string" where
  "order_key r = (to_hex (cr_hlc r), cr_origin r)"

definition raw_or_default :: "bytes option \<Rightarrow> bytes" where
  "raw_or_default raw = (case raw of None \<Rightarrow> [] | Some b \<Rightarrow> b)"

definition signing_bytes :: "change_record \<Rightarrow> bytes" where
  "signing_bytes r =
     (let (vtype, raw) = to_storage (cr_value r);
          raw = raw_or_default raw
      in CHANGE_DOMAIN @ put_str (cr_tbl r) @ put_str (cr_pk r) @ put_str (cr_col r)
         @ [ucast (kind_as_i64 (cr_kind r))] @ u64_le vtype
         @ u32_le (word_of_nat (length raw)) @ raw
         @ u64_le (wall_ms (cr_hlc r)) @ u32_le (counter (cr_hlc r)) @ put_str (cr_origin r))"

text \<open>\<open>sign_with\<close>, for the device whose secret is \<open>sk\<close>.\<close>

definition sign_with :: "'a crypto_scheme \<Rightarrow> bytes \<Rightarrow> change_record \<Rightarrow> change_record result" where
  "sign_with C sk r =
     (case keypair_sign C sk (signing_bytes r) of
        Inl e \<Rightarrow> Inl e | Inr s \<Rightarrow> Inr (r\<lparr>cr_sig := s\<rparr>))"

definition verify_author :: "'a crypto_scheme \<Rightarrow> change_record \<Rightarrow> unit result" where
  "verify_author C r =
     (if cr_sig r = [] then Inl (ERejected (''change from `'' @ cr_origin r @ ''` is unsigned''))
      else (case peer_public_key_from_str C (cr_origin r) of
              Inl e \<Rightarrow> Inl e
            | Inr key \<Rightarrow>
                if key_verify C key (signing_bytes r) (cr_sig r) then Inr ()
                else Inl (ERejected (''change claiming to come from `'' @ cr_origin r
                                     @ ''` is not signed by that device''))))"

text \<open>The decision between an incoming change and the one held for the same cell.\<close>

definition incoming_wins :: "string \<Rightarrow> string \<Rightarrow> string \<Rightarrow> string \<Rightarrow> bool" where
  "incoming_wins new_hlc new_origin old_hlc old_origin \<longleftrightarrow>
     (new_hlc, new_origin) > (old_hlc, old_origin)"

section \<open>Version vectors\<close>

type_synonym vvector = "(string \<times> hlc) list"

definition vv_get :: "vvector \<Rightarrow> string \<Rightarrow> hlc" where
  "vv_get vv origin = (case tbl_get vv origin of None \<Rightarrow> hlc_zero | Some h \<Rightarrow> h)"

definition vv_observe :: "string \<Rightarrow> hlc \<Rightarrow> vvector \<Rightarrow> vvector" where
  "vv_observe origin h vv =
     (let vv = (case tbl_get vv origin of None \<Rightarrow> tbl_put origin hlc_zero vv | Some _ \<Rightarrow> vv)
      in if vv_get vv origin < h then tbl_put origin h vv else vv)"

lemma tbl_put_twice: "tbl_put k v (tbl_put k u t) = tbl_put k v t"
  by (induction t) auto

lemma hlc_zero_less: "hlc_zero < h \<longleftrightarrow> h \<noteq> hlc_zero"
  using hlc_zero_le [of h] by (auto simp: le_less)

lemma not_less_hlc_zero [simp]: "\<not> h < hlc_zero"
  by (simp add: not_less)

interpretation vvt: lww_table "[]" tbl_put tbl_get tbl_wf "\<lambda>h :: hlc. h" vv_observe
proof
  fix k :: string and v :: hlc and t
  show "vv_observe k v t =
      (case tbl_get t k of None \<Rightarrow> tbl_put k v t
       | Some old \<Rightarrow> if old < v then tbl_put k v t else t)"
    by (cases "tbl_get t k")
       (auto simp: vv_observe_def Let_def vv_get_def tbl_get_put tbl_put_twice hlc_zero_less)
qed

text \<open>Observing keeps, for every device, the highest stamp seen.\<close>

lemma vv_get_observe:
  "tbl_wf vv \<Longrightarrow>
     vv_get (vv_observe origin h vv) l = (if l = origin then max (vv_get vv l) h else vv_get vv l)"
  by (auto simp: vv_get_def vvt.get_put max_def not_le split: option.split)

section \<open>What a signature covers\<close>

definition record_fits :: "change_record \<Rightarrow> bool" where
  "record_fits r \<longleftrightarrow> fits_u32 (cr_tbl r) \<and> fits_u32 (cr_pk r) \<and> fits_u32 (cr_col r)
     \<and> fits_u32 (cr_origin r) \<and> fits_u32 (raw_or_default (snd (to_storage (cr_value r))))"

lemma kind_byte_inject: "(ucast (kind_as_i64 k) :: u8) = ucast (kind_as_i64 l) \<longleftrightarrow> k = l"
  by (cases k; cases l) simp_all

text \<open>A length-prefixed byte vector is self-delimiting too.\<close>

lemma raw_append_inject:
  assumes "fits_u32 x" "fits_u32 y"
  shows "u32_le (word_of_nat (length x)) @ x @ us = u32_le (word_of_nat (length y)) @ y @ vs
     \<longleftrightarrow> x = y \<and> us = vs"
  using u32_le_length_inject [OF assms] by (auto simp: append_eq_append_len)

lemma signing_bytes_inject:
  assumes "record_fits r" "record_fits s" "signing_bytes r = signing_bytes s"
  shows "r\<lparr>cr_sig := []\<rparr> = s\<lparr>cr_sig := []\<rparr>"
proof -
  let ?x = "raw_or_default (snd (to_storage (cr_value r)))"
  let ?y = "raw_or_default (snd (to_storage (cr_value s)))"
  have head: "cr_tbl r = cr_tbl s" "cr_pk r = cr_pk s" "cr_col r = cr_col s" "cr_kind r = cr_kind s"
    and tag: "fst (to_storage (cr_value r)) = fst (to_storage (cr_value s))"
    and tail: "u32_le (word_of_nat (length ?x)) @ ?x
         @ u64_le (wall_ms (cr_hlc r)) @ u32_le (counter (cr_hlc r)) @ put_str (cr_origin r) =
       u32_le (word_of_nat (length ?y)) @ ?y
         @ u64_le (wall_ms (cr_hlc s)) @ u32_le (counter (cr_hlc s)) @ put_str (cr_origin s)"
    using assms unfolding signing_bytes_def record_fits_def
    by (simp_all add: split_beta Let_def put_str_append_inject append_eq_append_len kind_byte_inject)
  have raw: "?x = ?y"
    and hlc: "u64_le (wall_ms (cr_hlc r)) @ u32_le (counter (cr_hlc r)) @ put_str (cr_origin r) =
       u64_le (wall_ms (cr_hlc s)) @ u32_le (counter (cr_hlc s)) @ put_str (cr_origin s)"
    using tail raw_append_inject [of ?x ?y] assms(1,2) unfolding record_fits_def by blast+
  have "cr_value r = cr_value s"
    using tag raw unfolding raw_or_default_def by (rule storage_bytes_inject)
  moreover have "wall_ms (cr_hlc r) = wall_ms (cr_hlc s)" "counter (cr_hlc r) = counter (cr_hlc s)"
    "cr_origin r = cr_origin s"
    using hlc assms(1,2) unfolding record_fits_def
    by (simp_all add: append_eq_append_len put_str_inject)
  ultimately show ?thesis
    using head hlc.expand [of "cr_hlc r" "cr_hlc s"] by simp
qed

lemma change_domain_differs: "take 9 (signing_bytes r) \<noteq> take 9 ENROLL_DOMAIN"
  by (simp add: signing_bytes_def split_beta Let_def CHANGE_DOMAIN_def ENROLL_DOMAIN_def
      as_bytes_def char_byte_def)

lemma signing_bytes_sig [simp]: "signing_bytes (r\<lparr>cr_sig := s\<rparr>) = signing_bytes r"
  by (simp add: signing_bytes_def)

text \<open>A record a device signs verifies as written by that device.\<close>

lemma sign_with_verifies:
  assumes "crypto_laws C" "cr_origin r = peer_text C (device_peer_id C sk)"
  shows "\<exists>s. sign_with C sk r = Inr (r\<lparr>cr_sig := s\<rparr>) \<and> verify_author C (r\<lparr>cr_sig := s\<rparr>) = Inr ()"
  using assms
  by (intro exI [of _ "ed_sign C sk (signing_bytes r)"])
     (simp add: sign_with_def verify_author_def crypto_lawsD peer_public_key_device)

end
