(* ===== verification/Replica.thy ===== *)
theory Replica
  imports Changes
begin

text \<open>
  The state of \<open>rust/p2p-core/src/db/mod.rs\<close> (\<open>Db\<close>, \<open>TableSpec\<close>) over the schema of
  \<open>schema.rs\<close> (\<open>MIGRATION_V1\<close>), and its helper functions.  \<open>replica_file\<close> is what the SQLite
  file holds: one field per \<open>_p2p_\<close> table, the capture triggers, and the application's tables.
  \<open>db\<close> extends it by what lives in memory.  Every SQL statement of the source is a HOL
  expression on these tables.

  Of SQLite the model takes as arguments what depends on the application's schema: column
  affinity, defaults, constraints, and the text of a float.
\<close>

section \<open>Rows of the application's tables\<close>

type_synonym row = "(string \<times> sql_value) list"

record env = crypto +
  wall :: wall_clock                                      \<comment> \<open>the system clock\<close>
  json_of_cols :: "string list \<Rightarrow> string"                 \<comment> \<open>\<open>serde_json\<close> on a list of names\<close>
  cols_of_json :: "string \<Rightarrow> string list option"
  affinity :: "string \<Rightarrow> string \<Rightarrow> sql_value \<Rightarrow> sql_value"   \<comment> \<open>value as table and column store it\<close>
  col_default :: "string \<Rightarrow> string \<Rightarrow> sql_value"
  row_ok :: "string \<Rightarrow> row \<Rightarrow> bool"                        \<comment> \<open>\<open>NOT NULL\<close>, \<open>CHECK\<close> and type constraints\<close>
  unique_ok :: "string \<Rightarrow> row list \<Rightarrow> row \<Rightarrow> bool"          \<comment> \<open>\<open>UNIQUE\<close> constraints against other rows\<close>
  real_text :: "u64 \<Rightarrow> string"                            \<comment> \<open>\<open>CAST\<close> of a float\<close>
  alnum_char :: "bytes \<Rightarrow> bool"                           \<comment> \<open>\<open>char::is_alphanumeric\<close> beyond ASCII\<close>

text \<open>\<open>CAST(v AS TEXT)\<close>; \<open>None\<close> is SQL's \<open>NULL\<close>.\<close>

fun cast_text :: "'a env_scheme \<Rightarrow> sql_value \<Rightarrow> string option" where
  "cast_text E VNull = None"
| "cast_text E (VInt i) = Some (show_int (sint i))"
| "cast_text E (VReal f) = Some (real_text E f)"
| "cast_text E (VText s) = Some s"
| "cast_text E (VBlob b) = Some (bytes_str b)"

text \<open>A table: \<open>PRAGMA table_info\<close> as (column, position in the primary key), and its rows.\<close>

record app_table =
  at_info :: "(string \<times> int) list"
  at_rows :: "row list"

definition row_value :: "row \<Rightarrow> string \<Rightarrow> sql_value" where
  "row_value r c = (case map_of r c of None \<Rightarrow> VNull | Some v \<Rightarrow> v)"

definition row_key :: "'a env_scheme \<Rightarrow> string \<Rightarrow> row \<Rightarrow> string option" where
  "row_key E pk_col r = cast_text E (row_value r pk_col)"

section \<open>State\<close>

record table_spec =
  ts_name :: string
  ts_pk_col :: string
  ts_cols :: "string list"

record cell =
  cl_val :: "bytes option"
  cl_vtype :: i64
  cl_hlc :: string
  cl_origin :: string

record stored_change =
  sc_seq :: int
  sc_tbl :: string
  sc_pk :: string
  sc_col :: string
  sc_val :: "bytes option"
  sc_vtype :: i64
  sc_hlc :: string
  sc_origin :: string
  sc_kind :: i64
  sc_sig :: bytes

record peer_row =
  pr_user_id :: string
  pr_display_name :: string
  pr_role :: string
  pr_serial :: i64
  pr_last_seen_ms :: i64
  pr_cert :: string

record local_op =
  lo_id :: int
  lo_tbl :: string
  lo_pk :: string
  lo_op :: string

record replica_file =
  meta :: "(string \<times> string) list"
  guard :: int
  local_ops :: "local_op list"
  ops_seq :: int                                          \<comment> \<open>\<open>AUTOINCREMENT\<close> of \<open>_p2p_local_ops\<close>\<close>
  cells :: "((string \<times> string \<times> string) \<times> cell) list"
  tombs :: "((string \<times> string) \<times> (string \<times> string)) list"
  changes :: "stored_change list"                         \<comment> \<open>in \<open>seq\<close> order\<close>
  vv_rows :: "(string \<times> string) list"
  synced :: "(string \<times> (string \<times> string)) list"          \<comment> \<open>table, primary key, columns as JSON\<close>
  peers :: "(string \<times> peer_row) list"
  triggers :: "(string \<times> (string \<times> string)) list"        \<comment> \<open>name prefix, table, primary key\<close>
  app :: "(string \<times> app_table) list"

record db = replica_file +
  clock :: hybrid_clock
  device_id :: string
  tables :: "(string \<times> table_spec) list"
  signer :: "bytes option"
  require_signatures :: bool

section \<open>The change log, cells, tombstones and version vector\<close>

definition stored_of :: "int \<Rightarrow> change_record \<Rightarrow> stored_change" where
  "stored_of seq r =
     \<lparr>sc_seq = seq, sc_tbl = cr_tbl r, sc_pk = cr_pk r, sc_col = cr_col r,
      sc_val = snd (to_storage (cr_value r)), sc_vtype = fst (to_storage (cr_value r)),
      sc_hlc = to_hex (cr_hlc r), sc_origin = cr_origin r, sc_kind = kind_as_i64 (cr_kind r),
      sc_sig = cr_sig r\<rparr>"

definition change_key :: "stored_change \<Rightarrow> string \<times> string" where
  "change_key c = (sc_origin c, sc_hlc c)"

text \<open>\<open>AUTOINCREMENT\<close>: one more than any sequence number used; rows of the log are never deleted.\<close>

definition next_seq :: "stored_change list \<Rightarrow> int" where
  "next_seq log = (if log = [] then 1 else sc_seq (last log) + 1)"

definition store_change :: "change_record \<Rightarrow> 'a replica_file_scheme \<Rightarrow> nat \<times> 'a replica_file_scheme" where
  "store_change r d =
     (if (cr_origin r, to_hex (cr_hlc r)) \<in> change_key ` set (changes d) then (0, d)
      else (1, d\<lparr>changes := changes d @ [stored_of (next_seq (changes d)) r]\<rparr>))"

definition cell_of :: "change_record \<Rightarrow> cell" where
  "cell_of r =
     \<lparr>cl_val = snd (to_storage (cr_value r)), cl_vtype = fst (to_storage (cr_value r)),
      cl_hlc = to_hex (cr_hlc r), cl_origin = cr_origin r\<rparr>"

definition upsert_cell :: "change_record \<Rightarrow> 'a replica_file_scheme \<Rightarrow> bool \<times> 'a replica_file_scheme" where
  "upsert_cell r d =
     (let key = (cr_tbl r, cr_pk r, cr_col r);
          write = (True, d\<lparr>cells := tbl_put key (cell_of r) (cells d)\<rparr>)
      in (case tbl_get (cells d) key of
            None \<Rightarrow> write
          | Some old \<Rightarrow>
              if \<not> incoming_wins (to_hex (cr_hlc r)) (cr_origin r) (cl_hlc old) (cl_origin old)
              then (False, d) else write))"

definition upsert_tombstone ::
  "change_record \<Rightarrow> 'a replica_file_scheme \<Rightarrow> bool \<times> 'a replica_file_scheme" where
  "upsert_tombstone r d =
     (let key = (cr_tbl r, cr_pk r);
          write = (True, d\<lparr>tombs := tbl_put key (to_hex (cr_hlc r), cr_origin r) (tombs d)\<rparr>)
      in (case tbl_get (tombs d) key of
            None \<Rightarrow> write
          | Some (old_hlc, old_origin) \<Rightarrow>
              if \<not> incoming_wins (to_hex (cr_hlc r)) (cr_origin r) old_hlc old_origin
              then (False, d) else write))"

definition cell_matches ::
  "'a replica_file_scheme \<Rightarrow> string \<Rightarrow> string \<Rightarrow> string \<Rightarrow> i64 \<Rightarrow> bytes option \<Rightarrow> bool" where
  "cell_matches d t pk col vtype raw =
     (case tbl_get (cells d) (t, pk, col) of
        None \<Rightarrow> False | Some c \<Rightarrow> cl_vtype c = vtype \<and> cl_val c = raw)"

definition bump_vv :: "string \<Rightarrow> hlc \<Rightarrow> 'a replica_file_scheme \<Rightarrow> 'a replica_file_scheme" where
  "bump_vv origin h d =
     d\<lparr>vv_rows := tbl_put origin
        (case tbl_get (vv_rows d) origin of None \<Rightarrow> to_hex h | Some old \<Rightarrow> max old (to_hex h))
        (vv_rows d)\<rparr>"

section \<open>Capture triggers\<close>

datatype row_event = Inserted row | Updated row row | Deleted row

text \<open>What the triggers of one table stage for a row event: primary key text and operation.\<close>

fun event_ops :: "'a env_scheme \<Rightarrow> string \<Rightarrow> row_event \<Rightarrow> (string option \<times> string) list" where
  "event_ops E pk_col (Inserted new) = [(row_key E pk_col new, ''upsert'')]"
| "event_ops E pk_col (Updated old new) =
     (row_key E pk_col new, ''upsert'') #
     (case (row_key E pk_col old, row_key E pk_col new) of
        (Some o', Some n) \<Rightarrow> if o' \<noteq> n then [(Some o', ''delete'')] else []
      | _ \<Rightarrow> [])"
| "event_ops E pk_col (Deleted old) = [(row_key E pk_col old, ''delete'')]"

text \<open>\<open>INSERT INTO _p2p_local_ops\<close>; its \<open>pk\<close> is \<open>NOT NULL\<close>, so a null key aborts the statement.\<close>

fun stage_ops ::
  "string \<Rightarrow> (string option \<times> string) list \<Rightarrow> 'a replica_file_scheme \<Rightarrow> 'a replica_file_scheme result" where
  "stage_ops t [] d = Inr d"
| "stage_ops t ((None, oper) # ops) d = Inl (ESqlite ''NOT NULL constraint failed: _p2p_local_ops.pk'')"
| "stage_ops t ((Some pk, oper) # ops) d =
     stage_ops t ops
       (d\<lparr>ops_seq := ops_seq d + 1,
          local_ops := local_ops d @ [\<lparr>lo_id = ops_seq d + 1, lo_tbl = t, lo_pk = pk, lo_op = oper\<rparr>]\<rparr>)"

fun fire_triggers ::
  "'a env_scheme \<Rightarrow> string \<Rightarrow> row_event \<Rightarrow> (string \<times> (string \<times> string)) list
    \<Rightarrow> 'b replica_file_scheme \<Rightarrow> 'b replica_file_scheme result" where
  "fire_triggers E t ev [] d = Inr d"
| "fire_triggers E t ev ((prefix, on_tbl, pk_col) # trs) d =
     (if on_tbl = t \<and> guard d = 0 then
        (case stage_ops t (event_ops E pk_col ev) d of
           Inl e \<Rightarrow> Inl e | Inr d \<Rightarrow> fire_triggers E t ev trs d)
      else fire_triggers E t ev trs d)"

definition set_rows :: "string \<Rightarrow> row list \<Rightarrow> 'a replica_file_scheme \<Rightarrow> 'a replica_file_scheme" where
  "set_rows t rows d =
     (case tbl_get (app d) t of
        None \<Rightarrow> d | Some at \<Rightarrow> d\<lparr>app := tbl_put t (at\<lparr>at_rows := rows\<rparr>) (app d)\<rparr>)"

fun fire_all ::
  "'a env_scheme \<Rightarrow> string \<Rightarrow> row_event list \<Rightarrow> 'b replica_file_scheme \<Rightarrow> 'b replica_file_scheme result" where
  "fire_all E t [] d = Inr d"
| "fire_all E t (ev # evs) d =
     (case fire_triggers E t ev (triggers d) d of
        Inl e \<Rightarrow> Inl e | Inr d \<Rightarrow> fire_all E t evs d)"

text \<open>A statement that leaves the table with these rows, and fires its triggers row by row.\<close>

definition write_rows ::
  "'a env_scheme \<Rightarrow> string \<Rightarrow> row list \<Rightarrow> row_event list \<Rightarrow> 'b replica_file_scheme
    \<Rightarrow> 'b replica_file_scheme result" where
  "write_rows E t rows evs d = fire_all E t evs (set_rows t rows d)"

section \<open>Reading and rebuilding a row\<close>

definition no_such_table :: "string \<Rightarrow> error" where
  "no_such_table t = ESqlite (''no such table: '' @ t)"

text \<open>\<open>SELECT * ... WHERE CAST(pk AS TEXT) = ?1 LIMIT 1\<close>\<close>

definition read_row ::
  "'a env_scheme \<Rightarrow> table_spec \<Rightarrow> string \<Rightarrow> 'b replica_file_scheme \<Rightarrow> row option result" where
  "read_row E spec pk d =
     (case tbl_get (app d) (ts_name spec) of
        None \<Rightarrow> Inl (no_such_table (ts_name spec))
      | Some at \<Rightarrow>
          Inr (map_option (List.map (\<lambda>(c, v). (c, read_value v)))
                 (List.find (\<lambda>r. row_key E (ts_pk_col spec) r = Some pk) (at_rows at))))"

text \<open>The row an \<open>INSERT\<close> of the given columns proposes.\<close>

definition candidate_row :: "'a env_scheme \<Rightarrow> string \<Rightarrow> app_table \<Rightarrow> row \<Rightarrow> row" where
  "candidate_row E t at given =
     List.map (\<lambda>(c, _). (c, case map_of given c of
                         Some v \<Rightarrow> affinity E t c v | None \<Rightarrow> col_default E t c)) (at_info at)"

text \<open>\<open>DO UPDATE SET c = excluded.c\<close> for the listed columns.\<close>

definition update_row :: "string list \<Rightarrow> row \<Rightarrow> row \<Rightarrow> row" where
  "update_row cols excluded old =
     List.map (\<lambda>(c, v). (c, if c \<in> set cols then row_value excluded c else v)) old"

text \<open>
  \<open>INSERT ... ON CONFLICT(pk) DO UPDATE\<close>: \<open>NOT NULL\<close> and \<open>CHECK\<close> are tested on the proposed row
  first; then the row with an equal key is updated, or the proposed row inserted.
\<close>

definition upsert_row ::
  "'a env_scheme \<Rightarrow> string \<Rightarrow> string \<Rightarrow> row \<Rightarrow> app_table \<Rightarrow> (row list \<times> row_event list) result" where
  "upsert_row E t pk_col given at =
     (let cand = candidate_row E t at given;
          cols = List.map fst given;
          same = (\<lambda>r. row_value r pk_col = row_value cand pk_col);
          failed = Inl (ESqlite ''constraint failed'')
      in if \<not> set cols \<subseteq> fst ` set (at_info at) then Inl (ESqlite (''no such column in '' @ t))
         else if \<not> row_ok E t cand then failed
         else (case List.find same (at_rows at) of
                 None \<Rightarrow>
                   if unique_ok E t (at_rows at) cand
                   then Inr (at_rows at @ [cand], [Inserted cand]) else failed
               | Some old \<Rightarrow>
                   (let new = update_row cols cand old
                    in if row_ok E t new \<and> unique_ok E t (List.filter (\<lambda>r. \<not> same r) (at_rows at)) new
                       then Inr (List.map (\<lambda>r. if same r then new else r) (at_rows at), [Updated old new])
                       else failed)))"

definition row_cells :: "'a replica_file_scheme \<Rightarrow> string \<Rightarrow> string \<Rightarrow> (string \<times> cell) list" where
  "row_cells d t pk =
     List.map (\<lambda>(k, c). (snd (snd k), c))
       (List.filter (\<lambda>(k, c). fst k = t \<and> fst (snd k) = pk) (cells d))"

definition cell_stamp :: "cell \<Rightarrow> string \<times> string" where
  "cell_stamp c = (cl_hlc c, cl_origin c)"

definition row_deleted :: "(string \<times> string) option \<Rightarrow> (string \<times> cell) list \<Rightarrow> bool" where
  "row_deleted tomb cs =
     (case tomb of
        None \<Rightarrow> False
      | Some th \<Rightarrow> (if cs = [] then True else th > Max (cell_stamp ` snd ` set cs)))"

text \<open>The known columns with their decoded values; a corrupt cell fails the whole row.\<close>

fun decode_cells :: "string list \<Rightarrow> (string \<times> cell) list \<Rightarrow> row result" where
  "decode_cells known [] = Inr []"
| "decode_cells known ((col, c) # cs) =
     (if col \<notin> set known then decode_cells known cs
      else (case from_storage (cl_vtype c) (cl_val c) of
              Inl e \<Rightarrow> Inl e
            | Inr v \<Rightarrow> (case decode_cells known cs of Inl e \<Rightarrow> Inl e | Inr vs \<Rightarrow> Inr ((col, v) # vs))))"

definition materialize ::
  "'a env_scheme \<Rightarrow> table_spec \<Rightarrow> string \<Rightarrow> 'b replica_file_scheme \<Rightarrow> 'b replica_file_scheme result" where
  "materialize E spec pk d =
     (let t = ts_name spec;
          tomb = tbl_get (tombs d) (t, pk);
          cs = row_cells d t pk
      in if cs = [] \<and> tomb = None then Inr d
         else if row_deleted tomb cs then
           (case tbl_get (app d) t of
              None \<Rightarrow> Inl (no_such_table t)
            | Some at \<Rightarrow>
                (let gone = (\<lambda>r. row_key E (ts_pk_col spec) r = Some pk)
                 in write_rows E t (List.filter (\<lambda>r. \<not> gone r) (at_rows at))
                      (List.map Deleted (List.filter gone (at_rows at))) d))
         else (case decode_cells (ts_cols spec) cs of
                 Inl e \<Rightarrow> Inl e
               | Inr vals \<Rightarrow>
                   (case tbl_get (app d) t of
                      None \<Rightarrow> Inl (no_such_table t)
                    | Some at \<Rightarrow>
                        (case upsert_row E t (ts_pk_col spec) ((ts_pk_col spec, VText pk) # vals) at of
                           Inl e \<Rightarrow> Inl e
                         | Inr (rows, evs) \<Rightarrow> write_rows E t rows evs d))))"

end
