(* ===== verification/LocalWrites.thy ===== *)
theory LocalWrites
  imports Replica
begin

text \<open>
  The local half of \<open>Db\<close>: statements of the application, which fire the capture triggers, and
  \<open>flush_local\<close>, which turns what they staged into signed change records.

  A fallible operation on the handle returns its result together with the handle: the clock keeps
  every tick even when the transaction is rolled back.
\<close>

section \<open>Statements of the application\<close>

text \<open>The row changes that SQLite makes for one statement, in their order.\<close>

datatype row_write =
    WInsert string row
  | WUpdate string nat row
  | WDelete string nat

fun apply_write :: "'a env_scheme \<Rightarrow> row_write \<Rightarrow> 'b replica_file_scheme \<Rightarrow> 'b replica_file_scheme result" where
  "apply_write E (WInsert t r) d =
     (case tbl_get (app d) t of
        None \<Rightarrow> Inl (no_such_table t)
      | Some at \<Rightarrow> write_rows E t (at_rows at @ [r]) [Inserted r] d)"
| "apply_write E (WUpdate t i r) d =
     (case tbl_get (app d) t of
        None \<Rightarrow> Inl (no_such_table t)
      | Some at \<Rightarrow>
          if i < length (at_rows at)
          then write_rows E t ((at_rows at)[i := r]) [Updated (at_rows at ! i) r] d else Inr d)"
| "apply_write E (WDelete t i) d =
     (case tbl_get (app d) t of
        None \<Rightarrow> Inl (no_such_table t)
      | Some at \<Rightarrow>
          if i < length (at_rows at)
          then write_rows E t (take i (at_rows at) @ drop (Suc i) (at_rows at))
                 [Deleted (at_rows at ! i)] d else Inr d)"

fun apply_writes ::
  "'a env_scheme \<Rightarrow> row_write list \<Rightarrow> 'b replica_file_scheme \<Rightarrow> 'b replica_file_scheme result" where
  "apply_writes E [] d = Inr d"
| "apply_writes E (w # ws) d =
     (case apply_write E w d of Inl e \<Rightarrow> Inl e | Inr d \<Rightarrow> apply_writes E ws d)"

section \<open>Flushing\<close>

text \<open>The final operation per row, and the rows in first-seen order.\<close>

definition collapse_step ::
  "local_op \<Rightarrow> (string \<times> string) list \<times> ((string \<times> string) \<times> string) list
    \<Rightarrow> (string \<times> string) list \<times> ((string \<times> string) \<times> string) list" where
  "collapse_step lo acc =
     (let key = (lo_tbl lo, lo_pk lo); (order, final_op) = acc
      in (if tbl_get final_op key = None then order @ [key] else order,
          tbl_put key (lo_op lo) final_op))"

definition collapse ::
  "local_op list \<Rightarrow> (string \<times> string) list \<times> ((string \<times> string) \<times> string) list" where
  "collapse staged = fold collapse_step staged ([], [])"

definition db_tick :: "'a env_scheme \<Rightarrow> db \<Rightarrow> hlc \<times> db" where
  "db_tick E d = (let (h, c) = tick (wall E) (clock d) in (h, d\<lparr>clock := c\<rparr>))"

text \<open>A record authored here: stamped by a fresh tick and signed when the replica signs.\<close>

definition author :: "'a env_scheme \<Rightarrow> change_record \<Rightarrow> db \<Rightarrow> change_record result \<times> db" where
  "author E r d =
     (let (h, d) = db_tick E d;
          r = r\<lparr>cr_hlc := h, cr_origin := device_id d, cr_sig := []\<rparr>
      in (case signer d of None \<Rightarrow> (Inr r, d) | Some sk \<Rightarrow> (sign_with E sk r, d)))"

definition cell_record :: "string \<Rightarrow> string \<Rightarrow> string \<Rightarrow> sql_value \<Rightarrow> change_record" where
  "cell_record t pk col v =
     \<lparr>cr_tbl = t, cr_pk = pk, cr_col = col, cr_value = v, cr_hlc = hlc_zero, cr_origin = [],
      cr_kind = Cell, cr_sig = []\<rparr>"

definition delete_record :: "string \<Rightarrow> string \<Rightarrow> change_record" where
  "delete_record t pk =
     \<lparr>cr_tbl = t, cr_pk = pk, cr_col = [], cr_value = VNull, cr_hlc = hlc_zero, cr_origin = [],
      cr_kind = Delete, cr_sig = []\<rparr>"

text \<open>One record per column whose stored value differs from the CRDT state.\<close>

fun flush_cols ::
  "'a env_scheme \<Rightarrow> string \<Rightarrow> string \<Rightarrow> row \<Rightarrow> string list \<Rightarrow> db \<Rightarrow> change_record list result \<times> db" where
  "flush_cols E t pk vals [] d = (Inr [], d)"
| "flush_cols E t pk vals (col # cols) d =
     (case map_of vals col of
        None \<Rightarrow> flush_cols E t pk vals cols d
      | Some v \<Rightarrow>
          if cell_matches d t pk col (fst (to_storage v)) (snd (to_storage v))
          then flush_cols E t pk vals cols d
          else (case author E (cell_record t pk col v) d of
                  (Inl e, d) \<Rightarrow> (Inl e, d)
                | (Inr r, d) \<Rightarrow>
                    (case flush_cols E t pk vals cols (snd (upsert_cell r (snd (store_change r d)))) of
                       (Inl e, d) \<Rightarrow> (Inl e, d)
                     | (Inr out, d) \<Rightarrow> (Inr (r # out), d))))"

definition flush_key ::
  "'a env_scheme \<Rightarrow> ((string \<times> string) \<times> string) list \<Rightarrow> string \<times> string \<Rightarrow> db
    \<Rightarrow> change_record list result \<times> db" where
  "flush_key E final_op key d =
     (case tbl_get (tables d) (fst key) of
        None \<Rightarrow> (Inr [], d)
      | Some spec \<Rightarrow>
          (let oper = (case tbl_get final_op key of None \<Rightarrow> ''upsert'' | Some x \<Rightarrow> x)
           in (case read_row E spec (snd key) d of
                 Inl e \<Rightarrow> (Inl e, d)
               | Inr None \<Rightarrow>
                   if oper = ''delete'' then
                     (case author E (delete_record (fst key) (snd key)) d of
                        (Inl e, d) \<Rightarrow> (Inl e, d)
                      | (Inr r, d) \<Rightarrow> (Inr [r], snd (upsert_tombstone r (snd (store_change r d)))))
                   else (Inr [], d)
               | Inr (Some vals) \<Rightarrow> flush_cols E (fst key) (snd key) vals (ts_cols spec) d)))"

fun flush_keys ::
  "'a env_scheme \<Rightarrow> ((string \<times> string) \<times> string) list \<Rightarrow> (string \<times> string) list \<Rightarrow> db
    \<Rightarrow> change_record list result \<times> db" where
  "flush_keys E final_op [] d = (Inr [], d)"
| "flush_keys E final_op (key # keys) d =
     (case flush_key E final_op key d of
        (Inl e, d) \<Rightarrow> (Inl e, d)
      | (Inr out, d) \<Rightarrow>
          (case flush_keys E final_op keys d of
             (Inl e, d) \<Rightarrow> (Inl e, d)
           | (Inr out', d) \<Rightarrow> (Inr (out @ out'), d)))"

text \<open>
  A key that is a blob reaches \<open>_p2p_local_ops\<close> cast to text, and reading a text that is not UTF-8 as a
  \<open>String\<close> is an error: then the flush ends before it has touched anything.
\<close>

definition flush_local :: "'a env_scheme \<Rightarrow> db \<Rightarrow> change_record list result \<times> db" where
  "flush_local E d =
     (if local_ops d = [] then (Inr [], d)
      else if \<not> list_all (\<lambda>lo. utf8_valid (as_bytes (lo_pk lo))) (local_ops d) then
        (Inl (ESqlite ''invalid utf-8 sequence in _p2p_local_ops.pk''), d)
      else (let staged = local_ops d;
                max_id = Max (set (List.map lo_id staged));
                (order, final_op) = collapse staged
            in (case flush_keys E final_op order d of
                  (Inl e, d') \<Rightarrow> (Inl e, d\<lparr>clock := clock d'\<rparr>)
                | (Inr out, d') \<Rightarrow>
                    (let d' = d'\<lparr>local_ops := List.filter (\<lambda>lo. \<not> lo_id lo \<le> max_id) (local_ops d')\<rparr>
                     in (Inr out,
                         if out = [] then d'
                         else bump_vv (device_id d') (Max (set (List.map cr_hlc out))) d')))))"

text \<open>\<open>Db::execute\<close>: the statement, which takes effect as a whole or not at all, then a flush.\<close>

definition execute :: "'a env_scheme \<Rightarrow> row_write list \<Rightarrow> db \<Rightarrow> (nat \<times> change_record list) result \<times> db" where
  "execute E ws d =
     (case apply_writes E ws d of
        Inl e \<Rightarrow> (Inl e, d)
      | Inr d \<Rightarrow>
          (case flush_local E d of
             (Inl e, d) \<Rightarrow> (Inl e, d)
           | (Inr out, d) \<Rightarrow> (Inr (length ws, out), d)))"

end
