(* ===== verification/RemoteChanges.thy ===== *)
theory RemoteChanges
  imports Replica
begin

text \<open>
  The remote half of \<open>Db\<close>: \<open>apply_remote\<close>, which stores and merges records from a peer, and the
  anti-entropy reads \<open>version_vector\<close>, \<open>changes_since\<close>, \<open>unbroadcast_local\<close> with its high-water
  mark.  \<open>apply_remote\<close> can only fail on the storage itself, which the model does not have, so it
  returns its outcome outright.
\<close>

section \<open>Applying\<close>

record apply_outcome =
  applied :: nat
  duplicates :: nat
  deferred :: nat
  rejected :: nat
  tables_touched :: "string list"

definition no_outcome :: apply_outcome where
  "no_outcome = \<lparr>applied = 0, duplicates = 0, deferred = 0, rejected = 0, tables_touched = []\<rparr>"

text \<open>Authorship check of a batch: the records that go on, and how many were rejected.\<close>

fun admit :: "'a env_scheme \<Rightarrow> bool \<Rightarrow> change_record list \<Rightarrow> change_record list \<times> nat" where
  "admit E required [] = ([], 0)"
| "admit E required (r # rs) =
     (let (kept, bad) = admit E required rs
      in if cr_origin r = [] \<or> cr_tbl r = [] then (kept, bad)
         else if required \<and> verify_author E r \<noteq> Inr () then (kept, Suc bad)
         else (r # kept, bad))"

text \<open>What the loop carries: the outcome, the rows to rebuild, the highest new stamp per device.\<close>

record apply_acc =
  acc_out :: apply_outcome
  acc_dirty :: "(string \<times> string) list"
  acc_vv :: vvector

definition apply_one :: "'a env_scheme \<Rightarrow> change_record \<Rightarrow> apply_acc \<times> db \<Rightarrow> apply_acc \<times> db" where
  "apply_one E r ad =
     (let (a, d) = ad; (n, d) = store_change r d; out = acc_out a
      in if n = 0 then (a\<lparr>acc_out := out\<lparr>duplicates := duplicates out + 1\<rparr>\<rparr>, d)
         else
           (let out = out\<lparr>applied := applied out + 1\<rparr>;
                d = d\<lparr>clock := snd (observe (wall E) (cr_hlc r) (clock d))\<rparr>;
                a = a\<lparr>acc_vv := vv_observe (cr_origin r) (cr_hlc r) (acc_vv a)\<rparr>;
                d = (case cr_kind r of
                       Delete \<Rightarrow> snd (upsert_tombstone r d)
                     | Cell \<Rightarrow> snd (upsert_cell r d))
            in if tbl_get (tables d) (cr_tbl r) \<noteq> None then
                 (a\<lparr>acc_out := out\<lparr>tables_touched := insort_insert (cr_tbl r) (tables_touched out)\<rparr>,
                    acc_dirty := insort_insert (cr_tbl r, cr_pk r) (acc_dirty a)\<rparr>, d)
               else (a\<lparr>acc_out := out\<lparr>deferred := deferred out + 1\<rparr>\<rparr>, d)))"

definition materialize_key :: "'a env_scheme \<Rightarrow> string \<times> string \<Rightarrow> db \<Rightarrow> db" where
  "materialize_key E key d =
     (case tbl_get (tables d) (fst key) of
        None \<Rightarrow> d
      | Some spec \<Rightarrow> (case materialize E spec (snd key) d of Inl e \<Rightarrow> d | Inr d' \<Rightarrow> d'))"

definition apply_remote :: "'a env_scheme \<Rightarrow> change_record list \<Rightarrow> db \<Rightarrow> apply_outcome \<times> db" where
  "apply_remote E chs d =
     (let (kept, bad) = admit E (require_signatures d) chs;
          out = no_outcome\<lparr>rejected := bad\<rparr>
      in if kept = [] then (out, d)
         else
           (let d = d\<lparr>guard := 1\<rparr>;
                acc = \<lparr>acc_out = out, acc_dirty = [], acc_vv = []\<rparr>;
                (acc, d) = fold (apply_one E) (sort_key order_key kept) (acc, d);
                d = fold (materialize_key E) (acc_dirty acc) d;
                d = fold (\<lambda>e d. bump_vv (fst e) (snd e) d) (acc_vv acc) d;
                d = d\<lparr>guard := 0\<rparr>
            in (acc_out acc, d)))"

section \<open>Anti-entropy\<close>

fun read_vv :: "(string \<times> string) list \<Rightarrow> vvector \<Rightarrow> vvector result" where
  "read_vv [] vv = Inr vv"
| "read_vv ((origin, h) # rows) vv =
     (case from_hex h of
        Inl e \<Rightarrow> Inl e
      | Inr None \<Rightarrow> read_vv rows vv
      | Inr (Some s) \<Rightarrow> read_vv rows (vv_observe origin s vv))"

definition version_vector :: "'a replica_file_scheme \<Rightarrow> vvector result" where
  "version_vector d = read_vv (vv_rows d) []"

definition decode_change :: "stored_change \<Rightarrow> change_record result" where
  "decode_change c =
     (case from_storage (sc_vtype c) (sc_val c) of
        Inl e \<Rightarrow> Inl e
      | Inr v \<Rightarrow>
          (case from_hex (sc_hlc c) of
             Inl e \<Rightarrow> Inl e
           | Inr h \<Rightarrow>
               Inr \<lparr>cr_tbl = sc_tbl c, cr_pk = sc_pk c, cr_col = sc_col c, cr_value = v,
                    cr_hlc = (case h of None \<Rightarrow> hlc_zero | Some h \<Rightarrow> h), cr_origin = sc_origin c,
                    cr_kind = kind_from_i64 (sc_kind c), cr_sig = sc_sig c\<rparr>))"

fun decode_changes :: "stored_change list \<Rightarrow> change_record list result" where
  "decode_changes [] = Inr []"
| "decode_changes (c # cs) =
     (case decode_change c of
        Inl e \<Rightarrow> Inl e
      | Inr r \<Rightarrow> (case decode_changes cs of Inl e \<Rightarrow> Inl e | Inr rs \<Rightarrow> Inr (r # rs)))"

text \<open>\<open>COALESCE(a.hlc, '')\<close> of the asking peer's vector.\<close>

definition asked_above :: "vvector \<Rightarrow> string \<Rightarrow> string" where
  "asked_above vv origin = (case tbl_get vv origin of None \<Rightarrow> [] | Some h \<Rightarrow> to_hex h)"

definition log_order :: "stored_change \<Rightarrow> string \<times> string" where
  "log_order c = (sc_hlc c, sc_origin c)"

definition missing_rows :: "'a replica_file_scheme \<Rightarrow> vvector \<Rightarrow> stored_change list" where
  "missing_rows d vv =
     sort_key log_order (List.filter (\<lambda>c. asked_above vv (sc_origin c) < sc_hlc c) (changes d))"

definition changes_since ::
  "'a replica_file_scheme \<Rightarrow> vvector \<Rightarrow> nat \<Rightarrow> change_record list result" where
  "changes_since d vv limit = decode_changes (take limit (missing_rows d vv))"

section \<open>Metadata and the broadcast mark\<close>

definition set_meta :: "string \<Rightarrow> string \<Rightarrow> 'a replica_file_scheme \<Rightarrow> 'a replica_file_scheme" where
  "set_meta k v d = d\<lparr>meta := tbl_put k v (meta d)\<rparr>"

definition get_meta :: "'a replica_file_scheme \<Rightarrow> string \<Rightarrow> string option" where
  "get_meta d k = tbl_get (meta d) k"

definition watermark :: "'a replica_file_scheme \<Rightarrow> int" where
  "watermark d =
     (case get_meta d ''broadcast_seq'' of
        None \<Rightarrow> 0
      | Some v \<Rightarrow> (case parse_i64 v of None \<Rightarrow> 0 | Some n \<Rightarrow> n))"

definition unbroadcast_rows :: "db \<Rightarrow> nat \<Rightarrow> stored_change list" where
  "unbroadcast_rows d limit =
     take limit (List.filter (\<lambda>c. sc_origin c = device_id d \<and> watermark d < sc_seq c) (changes d))"

definition unbroadcast_local :: "db \<Rightarrow> nat \<Rightarrow> (change_record list \<times> int) result" where
  "unbroadcast_local d limit =
     (let rows = unbroadcast_rows d limit
      in (case decode_changes rows of
            Inl e \<Rightarrow> Inl e
          | Inr out \<Rightarrow> Inr (out, fold (\<lambda>c high. max high (sc_seq c)) rows (watermark d))))"

definition mark_broadcast :: "int \<Rightarrow> 'a replica_file_scheme \<Rightarrow> 'a replica_file_scheme" where
  "mark_broadcast seq d = set_meta ''broadcast_seq'' (show_int seq) d"

section \<open>Statistics and the peer table\<close>

record db_stats =
  st_changes :: nat
  st_cells :: nat
  st_tombstones :: nat
  st_known_devices :: nat
  st_pending_local_ops :: nat

definition stats :: "'a replica_file_scheme \<Rightarrow> db_stats" where
  "stats d = \<lparr>st_changes = length (changes d), st_cells = length (cells d),
     st_tombstones = length (tombs d), st_known_devices = length (vv_rows d),
     st_pending_local_ops = length (local_ops d)\<rparr>"

definition record_peer ::
  "string \<Rightarrow> string \<Rightarrow> string \<Rightarrow> string \<Rightarrow> i64 \<Rightarrow> string \<Rightarrow> u64
    \<Rightarrow> 'a replica_file_scheme \<Rightarrow> 'a replica_file_scheme" where
  "record_peer peer user display rl ser cert now d =
     d\<lparr>peers := tbl_put peer
        \<lparr>pr_user_id = user, pr_display_name = display, pr_role = rl, pr_serial = ser,
         pr_last_seen_ms = now, pr_cert = cert\<rparr> (peers d)\<rparr>"

definition devices_with_role :: "'a replica_file_scheme \<Rightarrow> string \<Rightarrow> string list" where
  "devices_with_role d rl = List.map fst (List.filter (\<lambda>(p, r). pr_role r = rl) (peers d))"

definition touch_peer :: "string \<Rightarrow> u64 \<Rightarrow> 'a replica_file_scheme \<Rightarrow> 'a replica_file_scheme" where
  "touch_peer peer now d =
     (case tbl_get (peers d) peer of
        None \<Rightarrow> d
      | Some r \<Rightarrow> d\<lparr>peers := tbl_put peer (r\<lparr>pr_last_seen_ms := now\<rparr>) (peers d)\<rparr>)"

end
