(* ===== verification/Opening.thy ===== *)
theory Opening
  imports LocalWrites RemoteChanges
begin

text \<open>
  Opening a replica (\<open>from_connection\<close>, \<open>open_authenticated\<close>) and bringing a table into
  replication (\<open>register_table\<close>), with the schema and the trigger names of
  \<open>rust/p2p-core/src/db/schema.rs\<close>.
\<close>

section \<open>Schema\<close>

text \<open>The tables of \<open>APP_SCHEMA_V1\<close>: their columns, \<open>id\<close> being the primary key.\<close>

definition key_and :: "string list \<Rightarrow> (string \<times> int) list" where
  "key_and cols = (''id'', 1) # List.map (\<lambda>c. (c, 0)) cols"

definition messages_table :: app_table where
  "messages_table =
     \<lparr>at_info = key_and [''room'', ''author'', ''author_name'', ''body'', ''sent_at_ms''], at_rows = []\<rparr>"

definition records_table :: app_table where
  "records_table =
     \<lparr>at_info = key_and [''collection'', ''title'', ''body'', ''status'', ''updated_by'', ''updated_at_ms''],
      at_rows = []\<rparr>"

text \<open>The file before the first migration, and \<open>CREATE TABLE IF NOT EXISTS\<close>.\<close>

definition empty_file :: replica_file where
  "empty_file =
     \<lparr>meta = [], guard = 0, local_ops = [], ops_seq = 0, cells = [], tombs = [], changes = [],
      vv_rows = [], synced = [], peers = [], triggers = [], app = []\<rparr>"

definition create_table :: "string \<Rightarrow> app_table \<Rightarrow> 'a replica_file_scheme \<Rightarrow> 'a replica_file_scheme" where
  "create_table t at d =
     (case tbl_get (app d) t of None \<Rightarrow> d\<lparr>app := tbl_put t at (app d)\<rparr> | Some _ \<Rightarrow> d)"

definition migrate :: "'a replica_file_scheme \<Rightarrow> 'a replica_file_scheme" where
  "migrate d = create_table ''records'' records_table (create_table ''messages'' messages_table d)"

text \<open>
  The prefix of a table's trigger names: every character that is not alphanumeric becomes \<open>_\<close>.
  The replacement works on characters, so the bytes are grouped first.
\<close>

fun utf8_chars :: "string \<Rightarrow> string list" where
  "utf8_chars [] = []"
| "utf8_chars (c # cs) =
     (let tail = takeWhile (\<lambda>x. in_range 128 191 (char_byte x)) cs
      in (c # tail) # utf8_chars (drop (length tail) cs))"

text \<open>White space and \<open>str::trim\<close> of a string of nothing else.\<close>

definition is_white :: "string \<Rightarrow> bool" where
  "is_white ch =
     (case List.map unat (as_bytes ch) of
        [a] \<Rightarrow> 9 \<le> a \<and> a \<le> 13 \<or> a = 32
      | [a, b] \<Rightarrow> a = 194 \<and> (b = 133 \<or> b = 160)
      | [a, b, c] \<Rightarrow> a = 225 \<and> b = 154 \<and> c = 128
          \<or> a = 226 \<and> b = 128 \<and> (128 \<le> c \<and> c \<le> 138 \<or> c = 168 \<or> c = 169 \<or> c = 175)
          \<or> a = 226 \<and> b = 129 \<and> c = 159 \<or> a = 227 \<and> b = 128 \<and> c = 128
      | _ \<Rightarrow> False)"

definition blank :: "string \<Rightarrow> bool" where
  "blank s \<longleftrightarrow> list_all is_white (utf8_chars s)"

definition is_alphanumeric :: "'a env_scheme \<Rightarrow> string \<Rightarrow> bool" where
  "is_alphanumeric E ch =
     (case ch of [c] \<Rightarrow> ascii_alnum c | _ \<Rightarrow> alnum_char E (as_bytes ch))"

definition trigger_prefix :: "'a env_scheme \<Rightarrow> string \<Rightarrow> string" where
  "trigger_prefix E t =
     ''_p2p_cap_'' @
     concat (List.map (\<lambda>ch. if is_alphanumeric E ch then ch else ''_'') (utf8_chars t))"

text \<open>
  \<open>capture_triggers\<close>: drops the triggers of that prefix, whatever table they are on, and creates
  them on this one.
\<close>

definition install_triggers ::
  "'a env_scheme \<Rightarrow> string \<Rightarrow> string \<Rightarrow> 'b replica_file_scheme \<Rightarrow> 'b replica_file_scheme" where
  "install_triggers E t pk_col d =
     d\<lparr>triggers := tbl_put (trigger_prefix E t) (t, pk_col) (triggers d)\<rparr>"

section \<open>Names in SQL text\<close>

text \<open>
  Names of tables and columns come from the application and are set into SQL text between quotes,
  every quote inside them doubled: \<open>ident\<close> with \<open>"\<close>, \<open>lit\<close> with \<open>'\<close>.
\<close>

definition quote_with :: "char \<Rightarrow> string \<Rightarrow> string" where
  "quote_with q s = [q] @ concat (List.map (\<lambda>c. if c = q then [q, q] else [c]) s) @ [q]"

definition quote_ident :: "string \<Rightarrow> string" where
  "quote_ident name = quote_with (CHR 0x22) name"

definition quote_lit :: "string \<Rightarrow> string" where
  "quote_lit v = quote_with (CHR 0x27) v"

text \<open>SQLite's reading of a quoted token after its opening quote: the token and the text behind it.\<close>

fun scan_quoted :: "char \<Rightarrow> string \<Rightarrow> (string \<times> string) option" where
  "scan_quoted q [] = None"
| "scan_quoted q (c # cs) =
     (if c = CHR 0x00 then None
      else if c \<noteq> q then map_option (apfst ((#) c)) (scan_quoted q cs)
      else (case cs of
              d # ds \<Rightarrow> if d = q then map_option (apfst ((#) q)) (scan_quoted q ds) else Some ([], cs)
            | [] \<Rightarrow> Some ([], [])))"

text \<open>A quoted name reads back as itself and ends where it was closed, whatever characters it has.\<close>

lemma scan_quoted_name:
  assumes "CHR 0x00 \<notin> set s" "q \<noteq> CHR 0x00" "rest = [] \<or> hd rest \<noteq> q"
  shows "scan_quoted q (tl (quote_with q s) @ rest) = Some (s, rest)"
  using assms(1)
proof (induction s)
  case Nil
  then show ?case using assms(2,3) by (cases rest) (simp_all add: quote_with_def)
next
  case (Cons c s)
  then show ?case using assms(2) by (auto simp: quote_with_def)
qed

section \<open>Registering a table\<close>

text \<open>Rows without any CRDT state are staged, so that they are shared.\<close>

definition has_cells :: "'a replica_file_scheme \<Rightarrow> string \<Rightarrow> string option \<Rightarrow> bool" where
  "has_cells d t pk \<longleftrightarrow> (\<exists>e\<in>set (cells d). fst (fst e) = t \<and> Some (fst (snd (fst e))) = pk)"

definition adopt_rows ::
  "'a env_scheme \<Rightarrow> string \<Rightarrow> string \<Rightarrow> 'b replica_file_scheme \<Rightarrow> 'b replica_file_scheme result" where
  "adopt_rows E t pk_col d =
     (case tbl_get (app d) t of
        None \<Rightarrow> Inl (no_such_table t)
      | Some at \<Rightarrow>
          stage_ops t
            (List.map (\<lambda>k. (k, ''upsert''))
               (List.filter (\<lambda>k. \<not> has_cells d t k) (List.map (row_key E pk_col) (at_rows at)))) d)"

definition register_table :: "'a env_scheme \<Rightarrow> string \<Rightarrow> string \<Rightarrow> db \<Rightarrow> table_spec result \<times> db" where
  "register_table E t pk_col d =
     (let info = (case tbl_get (app d) t of None \<Rightarrow> [] | Some at \<Rightarrow> at_info at)
      in if info = [] then (Inl (ESchema (''table `'' @ t @ ''` does not exist'')), d)
         else
           (let pk_cols = List.map fst (List.filter (\<lambda>(n, pk). 0 < pk) info)
            in if length pk_cols \<noteq> 1 then
                 (Inl (ESchema (''table `'' @ t
                    @ ''` must have exactly one primary key column to be replicated (found ''
                    @ show_nat (length pk_cols) @ '')'')), d)
               else
                 (let found_pk = hd pk_cols;
                      cols = List.filter (\<lambda>n. n \<noteq> found_pk) (List.map fst info)
                  in if found_pk \<noteq> pk_col then
                       (Inl (ESchema (''table `'' @ t @ ''` has primary key `'' @ found_pk
                          @ ''`, not `'' @ pk_col @ ''`'')), d)
                     else
                       (let spec = \<lparr>ts_name = t, ts_pk_col = found_pk, ts_cols = cols\<rparr>;
                            d = d\<lparr>synced := tbl_put t (found_pk, json_of_cols E cols) (synced d)\<rparr>;
                            d = install_triggers E t found_pk d
                        in (case adopt_rows E t found_pk d of
                              Inl e \<Rightarrow> (Inl e, d)
                            | Inr d \<Rightarrow> (Inr spec, d\<lparr>tables := tbl_put t spec (tables d)\<rparr>))))))"

section \<open>Opening\<close>

definition reload_table_specs :: "'a env_scheme \<Rightarrow> db \<Rightarrow> db" where
  "reload_table_specs E d =
     d\<lparr>tables :=
         fold (\<lambda>(t, pk_col, json). tbl_put t
                 \<lparr>ts_name = t, ts_pk_col = pk_col,
                  ts_cols = (case cols_of_json E json of None \<Rightarrow> [] | Some cs \<Rightarrow> cs)\<rparr>)
           (synced d) []\<rparr>"

text \<open>\<open>SELECT MAX(hlc) FROM _p2p_change WHERE origin = ?1\<close>\<close>

definition max_own_stamp :: "'a replica_file_scheme \<Rightarrow> string \<Rightarrow> string option" where
  "max_own_stamp d dev =
     (let own = List.map sc_hlc (List.filter (\<lambda>c. sc_origin c = dev) (changes d))
      in if own = [] then None else Some (Max (set own)))"

text \<open>The handle on a migrated file, its clock resuming from the highest own stamp, if any.\<close>

definition attach :: "'a env_scheme \<Rightarrow> replica_file \<Rightarrow> string \<Rightarrow> hlc option \<Rightarrow> db result" where
  "attach E file dev resume =
     (let clk = (case resume of Some h \<Rightarrow> resuming_from h | None \<Rightarrow> new_clock);
          d = replica_file.extend file
                \<lparr>clock = clk, device_id = dev, tables = [], signer = None, require_signatures = False\<rparr>;
          d = reload_table_specs E d
      in (case register_table E ''messages'' ''id'' d of
            (Inl e, d) \<Rightarrow> Inl e
          | (Inr _, d) \<Rightarrow>
              (case register_table E ''records'' ''id'' d of
                 (Inl e, d) \<Rightarrow> Inl e
               | (Inr _, d) \<Rightarrow> Inr d)))"

definition from_connection :: "'a env_scheme \<Rightarrow> replica_file \<Rightarrow> string \<Rightarrow> db result" where
  "from_connection E file dev =
     (let file = migrate file
      in (case (case max_own_stamp file dev of None \<Rightarrow> Inr None | Some h \<Rightarrow> from_hex h) of
            Inl e \<Rightarrow> Inl e
          | Inr resume \<Rightarrow> attach E file dev resume))"

text \<open>A replica that signs what it authors and refuses what a peer cannot prove it authored.\<close>

definition open_authenticated :: "'a env_scheme \<Rightarrow> replica_file \<Rightarrow> bytes \<Rightarrow> db result" where
  "open_authenticated E file sk =
     (case from_connection E file (peer_text E (device_peer_id E sk)) of
        Inl e \<Rightarrow> Inl e
      | Inr d \<Rightarrow> Inr (d\<lparr>signer := Some sk, require_signatures := True\<rparr>))"

end
