(* ===== verification/Merging.thy ===== *)
theory Merging
  imports LocalWrites RemoteChanges
begin

text \<open>
  The tables of the replica as merges over its change log.  The conditional writes of \<open>upsert_cell\<close>,
  \<open>upsert_tombstone\<close> and \<open>bump_vv\<close> are instances of \<open>lww_table\<close>; \<open>log_ok\<close> is the invariant of the
  log and of the tables merged from it, and \<open>apply_remote_spec\<close> says what \<open>apply_remote\<close> computes.
\<close>

section \<open>Writes that leave the replicated state alone\<close>

definition app_only :: "'a replica_file_scheme \<Rightarrow> 'a replica_file_scheme \<Rightarrow> bool" where
  "app_only d d' \<longleftrightarrow> d' = d\<lparr>local_ops := local_ops d', ops_seq := ops_seq d', app := app d'\<rparr>"

lemma app_only_refl [simp]: "app_only d d"
  by (simp add: app_only_def)

lemma app_only_trans: "app_only a b \<Longrightarrow> app_only b c \<Longrightarrow> app_only a c"
  unfolding app_only_def by (cases a, cases b, cases c) simp

lemma app_only_fields:
  assumes "app_only d d'"
  shows "changes d' = changes d" "cells d' = cells d" "tombs d' = tombs d" "vv_rows d' = vv_rows d"
    "meta d' = meta d" "guard d' = guard d" "synced d' = synced d" "peers d' = peers d"
    "triggers d' = triggers d" "replica_file.more d' = replica_file.more d"
  using assms unfolding app_only_def by (cases d; cases d'; simp)+

lemma app_only_db:
  assumes "app_only (d :: 'a db_scheme) d'"
  shows "clock d' = clock d" "device_id d' = device_id d" "tables d' = tables d"
    "signer d' = signer d" "require_signatures d' = require_signatures d"
  using assms unfolding app_only_def by (cases d; cases d'; simp)+

lemma stage_ops_app_only: "stage_ops t ops d = Inr d' \<Longrightarrow> app_only d d'"
proof (induction t ops d rule: stage_ops.induct)
  case (3 t pk oper ops d)
  then show ?case
    by (intro app_only_trans [OF _ "3.IH"]) (simp_all add: app_only_def)
qed simp_all

lemma fire_triggers_app_only: "fire_triggers E t ev trs d = Inr d' \<Longrightarrow> app_only d d'"
  by (induction E t ev trs d rule: fire_triggers.induct)
     (auto split: if_splits sum.splits dest: stage_ops_app_only intro: app_only_trans)

lemma fire_all_app_only: "fire_all E t evs d = Inr d' \<Longrightarrow> app_only d d'"
  by (induction E t evs d rule: fire_all.induct)
     (auto split: sum.splits dest: fire_triggers_app_only intro: app_only_trans)

lemma write_rows_app_only: "write_rows E t rows evs d = Inr d' \<Longrightarrow> app_only d d'"
  unfolding write_rows_def
  by (rule app_only_trans [OF _ fire_all_app_only])
     (auto simp: set_rows_def app_only_def split: option.splits)

lemma materialize_app_only: "materialize E spec pk d = Inr d' \<Longrightarrow> app_only d d'"
  unfolding materialize_def
  by (auto simp: Let_def split: if_splits option.splits sum.splits dest: write_rows_app_only)

lemma materialize_key_app_only: "app_only d (materialize_key E key d)"
  unfolding materialize_key_def
  by (auto split: option.splits sum.splits dest: materialize_app_only)

lemma fold_materialize_app_only: "app_only d (fold (materialize_key E) keys d)"
  by (induction keys arbitrary: d)
     (auto intro: app_only_trans [OF materialize_key_app_only])

lemma apply_write_app_only: "apply_write E w d = Inr d' \<Longrightarrow> app_only d d'"
  by (cases w) (auto split: option.splits if_splits dest: write_rows_app_only)

lemma apply_writes_app_only: "apply_writes E ws d = Inr d' \<Longrightarrow> app_only d d'"
  by (induction E ws d rule: apply_writes.induct)
     (auto split: sum.splits dest: apply_write_app_only intro: app_only_trans)

section \<open>Last-writer-wins tables\<close>

definition cell_put ::
  "string \<times> string \<times> string \<Rightarrow> cell \<Rightarrow> ((string \<times> string \<times> string) \<times> cell) list
    \<Rightarrow> ((string \<times> string \<times> string) \<times> cell) list" where
  "cell_put k c t = (case tbl_get t k of None \<Rightarrow> tbl_put k c t
     | Some old \<Rightarrow> if cell_stamp old < cell_stamp c then tbl_put k c t else t)"

text \<open>Tombstones and the version vector hold nothing but the stamp.\<close>

definition stamp_put :: "'k::linorder \<Rightarrow> 's::linorder \<Rightarrow> ('k \<times> 's) list \<Rightarrow> ('k \<times> 's) list" where
  "stamp_put k s t = (case tbl_get t k of None \<Rightarrow> tbl_put k s t
     | Some old \<Rightarrow> if old < s then tbl_put k s t else t)"

interpretation cellt: lww_table "[]" tbl_put tbl_get tbl_wf cell_stamp cell_put
  by unfold_locales (simp add: cell_put_def)

interpretation stampt: lww_table "[]" tbl_put tbl_get tbl_wf "\<lambda>s :: 's::linorder. s" stamp_put
  by unfold_locales (simp add: stamp_put_def)

definition cell_key :: "change_record \<Rightarrow> string \<times> string \<times> string" where
  "cell_key r = (cr_tbl r, cr_pk r, cr_col r)"

lemma upsert_cell_eq: "snd (upsert_cell r d) = d\<lparr>cells := cell_put (cell_key r) (cell_of r) (cells d)\<rparr>"
  by (auto simp: upsert_cell_def cell_put_def cell_key_def Let_def incoming_wins_def cell_stamp_def
      cell_of_def split: option.split)

lemma upsert_tombstone_eq:
  "snd (upsert_tombstone r d) =
     d\<lparr>tombs := stamp_put (cr_tbl r, cr_pk r) (order_key r) (tombs d)\<rparr>"
  by (auto simp: upsert_tombstone_def stamp_put_def Let_def incoming_wins_def order_key_def
      split: option.split)

lemma bump_vv_eq:
  assumes "tbl_wf (vv_rows d)"
  shows "bump_vv origin h d = d\<lparr>vv_rows := stamp_put origin (to_hex h) (vv_rows d)\<rparr>"
  using assms tbl.upsert_same [of "vv_rows d" origin]
  by (auto simp: bump_vv_def stamp_put_def max_def split: option.split)

section \<open>What the log merges to\<close>

definition is_delete :: "stored_change \<Rightarrow> bool" where
  "is_delete c \<longleftrightarrow> kind_from_i64 (sc_kind c) = Delete"

definition cell_entries :: "stored_change list \<Rightarrow> ((string \<times> string \<times> string) \<times> cell) list" where
  "cell_entries log =
     List.map (\<lambda>c. ((sc_tbl c, sc_pk c, sc_col c),
         \<lparr>cl_val = sc_val c, cl_vtype = sc_vtype c, cl_hlc = sc_hlc c, cl_origin = sc_origin c\<rparr>))
       (List.filter (\<lambda>c. \<not> is_delete c) log)"

definition tomb_entries :: "stored_change list \<Rightarrow> ((string \<times> string) \<times> (string \<times> string)) list" where
  "tomb_entries log =
     List.map (\<lambda>c. ((sc_tbl c, sc_pk c), (sc_hlc c, sc_origin c))) (List.filter is_delete log)"

definition vv_entries :: "stored_change list \<Rightarrow> (string \<times> string) list" where
  "vv_entries log = List.map (\<lambda>c. (sc_origin c, sc_hlc c)) log"

definition merged_cells :: "stored_change list \<Rightarrow> ((string \<times> string \<times> string) \<times> cell) list" where
  "merged_cells log = fold (\<lambda>e. cell_put (fst e) (snd e)) (cell_entries log) []"

definition merged_tombs :: "stored_change list \<Rightarrow> ((string \<times> string) \<times> (string \<times> string)) list" where
  "merged_tombs log = fold (\<lambda>e. stamp_put (fst e) (snd e)) (tomb_entries log) []"

definition merged_vv :: "stored_change list \<Rightarrow> (string \<times> string) list" where
  "merged_vv log = fold (\<lambda>e. stamp_put (fst e) (snd e)) (vv_entries log) []"

lemmas merged_defs = merged_cells_def merged_tombs_def merged_vv_def
lemmas entry_defs = cell_entries_def tomb_entries_def vv_entries_def

lemma merged_wf [simp]:
  "tbl_wf (merged_cells log)" "tbl_wf (merged_tombs log)" "tbl_wf (merged_vv log)"
  unfolding merged_defs
  by (simp_all add: cellt.merge.inv_fold stampt.merge.inv_fold)

text \<open>A log row without the local sequence number: what replicas exchange.\<close>

definition content :: "stored_change \<Rightarrow> stored_change" where
  "content c = c\<lparr>sc_seq := 0\<rparr>"

lemma content_fields [simp]:
  "sc_tbl (content c) = sc_tbl c" "sc_pk (content c) = sc_pk c" "sc_col (content c) = sc_col c"
  "sc_val (content c) = sc_val c" "sc_vtype (content c) = sc_vtype c" "sc_hlc (content c) = sc_hlc c"
  "sc_origin (content c) = sc_origin c" "sc_kind (content c) = sc_kind c" "sc_sig (content c) = sc_sig c"
  "is_delete (content c) = is_delete c" "change_key (content c) = change_key c"
  by (simp_all add: content_def is_delete_def change_key_def)

lemma content_stored_of: "content (stored_of n r) = stored_of 0 r"
  by (simp add: content_def stored_of_def)

lemma merged_content:
  "merged_cells (List.map content log) = merged_cells log"
  "merged_tombs (List.map content log) = merged_tombs log"
  "merged_vv (List.map content log) = merged_vv log"
  by (simp_all add: merged_defs entry_defs filter_map o_def)

text \<open>The merge of a log depends on the set of its rows alone.\<close>

definition unique_stamps :: "stored_change set \<Rightarrow> bool" where
  "unique_stamps S \<longleftrightarrow> inj_on change_key S"

lemma merged_set_eq:
  assumes "set l = set m" "unique_stamps (set l)"
  shows "merged_cells l = merged_cells m" "merged_tombs l = merged_tombs m" "merged_vv l = merged_vv m"
proof -
  have "\<forall>x\<in>set (cell_entries l). \<forall>y\<in>set (cell_entries l). cellt.same_entry x y"
    using assms(2)
    by (auto simp: cellt.same_entry_def cell_entries_def cell_stamp_def unique_stamps_def
        inj_on_def change_key_def)
  moreover have "set (cell_entries l) = set (cell_entries m)" using assms(1) by (auto simp: cell_entries_def)
  ultimately show "merged_cells l = merged_cells m"
    unfolding merged_cells_def by (intro cellt.merge.fold_set_eq) simp_all
  show "merged_tombs l = merged_tombs m" "merged_vv l = merged_vv m"
    unfolding merged_tombs_def merged_vv_def using assms(1)
    by (intro stampt.merge.fold_set_eq; force simp: stampt.same_entry_def tomb_entries_def vv_entries_def)+
qed

end
