(* ===== verification/Delivery.thy ===== *)
theory Delivery
  imports Merging
begin

text \<open>
  What \<open>apply_remote\<close> computes: the records of a batch that are new (\<open>fresh_records\<close>), the log
  they extend, the outcome, and the invariant \<open>log_ok\<close> that it keeps.
\<close>

section \<open>The invariant of the log\<close>

definition decodable :: "stored_change \<Rightarrow> bool" where
  "decodable c \<longleftrightarrow> (\<exists>r. c = stored_of (sc_seq c) r)"

definition seqs_ok :: "stored_change list \<Rightarrow> bool" where
  "seqs_ok log \<longleftrightarrow> sorted_wrt (<) (List.map sc_seq log) \<and> (\<forall>c\<in>set log. 0 < sc_seq c)"

definition rows_ok :: "stored_change list \<Rightarrow> bool" where
  "rows_ok log \<longleftrightarrow> distinct (List.map change_key log) \<and> seqs_ok log \<and> (\<forall>c\<in>set log. decodable c)"

definition data_ok :: "'a replica_file_scheme \<Rightarrow> bool" where
  "data_ok d \<longleftrightarrow> rows_ok (changes d) \<and> cells d = merged_cells (changes d)
     \<and> tombs d = merged_tombs (changes d)"

definition log_ok :: "'a replica_file_scheme \<Rightarrow> bool" where
  "log_ok d \<longleftrightarrow> data_ok d \<and> vv_rows d = merged_vv (changes d) \<and> guard d = 0"

lemma data_ok_app_only: "app_only d d' \<Longrightarrow> data_ok d' = data_ok d"
  by (simp add: data_ok_def app_only_fields)

lemma log_ok_app_only: "app_only d d' \<Longrightarrow> log_ok d' = log_ok d"
  by (simp add: log_ok_def app_only_fields data_ok_app_only)

section \<open>Storing one record\<close>

definition record_key :: "change_record \<Rightarrow> string \<times> string" where
  "record_key r = (cr_origin r, to_hex (cr_hlc r))"

lemma change_key_stored_of [simp]: "change_key (stored_of n r) = record_key r"
  by (simp add: change_key_def stored_of_def record_key_def)

lemma sc_seq_stored_of [simp]: "sc_seq (stored_of n r) = n"
  by (simp add: stored_of_def)

lemma sc_origin_stored_of [simp]: "sc_origin (stored_of n r) = cr_origin r"
  by (simp add: stored_of_def)

lemma sc_hlc_stored_of [simp]: "sc_hlc (stored_of n r) = to_hex (cr_hlc r)"
  by (simp add: stored_of_def)

lemma is_delete_stored_of [simp]: "is_delete (stored_of n r) \<longleftrightarrow> cr_kind r = Delete"
  by (simp add: is_delete_def stored_of_def)

lemma decodable_stored_of [simp]: "decodable (stored_of n r)"
  unfolding decodable_def by (rule exI [of _ r]) simp

lemma next_seq_bound:
  assumes "seqs_ok log"
  shows "0 < next_seq log" "c \<in> set log \<Longrightarrow> sc_seq c < next_seq log"
proof -
  show "0 < next_seq log"
    using assms by (cases log rule: rev_cases) (auto simp: seqs_ok_def next_seq_def)
  show "c \<in> set log \<Longrightarrow> sc_seq c < next_seq log"
    using assms
    by (cases log rule: rev_cases) (auto simp: seqs_ok_def next_seq_def sorted_wrt_append dest: less_imp_le)
qed

lemma rows_ok_snoc:
  assumes "rows_ok log" "record_key r \<notin> change_key ` set log"
  shows "rows_ok (log @ [stored_of (next_seq log) r])"
  using assms next_seq_bound [of log]
  by (auto simp: rows_ok_def seqs_ok_def sorted_wrt_append)

lemma merged_snoc:
  "merged_cells (log @ [stored_of n r]) =
     (if cr_kind r = Delete then merged_cells log else cell_put (cell_key r) (cell_of r) (merged_cells log))"
  "merged_tombs (log @ [stored_of n r]) =
     (if cr_kind r = Delete then stamp_put (cr_tbl r, cr_pk r) (order_key r) (merged_tombs log)
      else merged_tombs log)"
  "merged_vv (log @ [stored_of n r]) = stamp_put (cr_origin r) (to_hex (cr_hlc r)) (merged_vv log)"
  by (simp_all add: merged_defs entry_defs)
     (simp_all add: stored_of_def cell_key_def cell_of_def order_key_def)

text \<open>The tables after one record, whichever of the two merges its kind selects.\<close>

definition merge_one :: "change_record \<Rightarrow> 'a replica_file_scheme \<Rightarrow> 'a replica_file_scheme" where
  "merge_one r d =
     (let d = snd (store_change r d)
      in (case cr_kind r of Delete \<Rightarrow> snd (upsert_tombstone r d) | Cell \<Rightarrow> snd (upsert_cell r d)))"

lemma merge_one_fields:
  assumes "record_key r \<notin> change_key ` set (changes d)"
  shows "changes (merge_one r d) = changes d @ [stored_of (next_seq (changes d)) r]"
    "vv_rows (merge_one r d) = vv_rows d" "guard (merge_one r d) = guard d"
    "meta (merge_one r d) = meta d" "local_ops (merge_one r d) = local_ops d" "app (merge_one r d) = app d"
    "ops_seq (merge_one r d) = ops_seq d" "synced (merge_one r d) = synced d"
    "triggers (merge_one r d) = triggers d" "peers (merge_one r d) = peers d"
    "replica_file.more (merge_one r d) = replica_file.more d"
  using assms unfolding merge_one_def store_change_def Let_def record_key_def
  by (simp_all add: upsert_cell_eq upsert_tombstone_eq split: change_kind.split)

lemma merge_one_db:
  fixes d :: "'a db_scheme"
  assumes "record_key r \<notin> change_key ` set (changes d)"
  shows "clock (merge_one r d) = clock d" "device_id (merge_one r d) = device_id d"
    "tables (merge_one r d) = tables d" "signer (merge_one r d) = signer d"
    "require_signatures (merge_one r d) = require_signatures d"
  using assms unfolding merge_one_def store_change_def Let_def record_key_def
  by (simp_all add: upsert_cell_eq upsert_tombstone_eq split: change_kind.split)

lemma merge_one_data_ok:
  assumes "data_ok d" "record_key r \<notin> change_key ` set (changes d)"
  shows "data_ok (merge_one r d)"
  using assms
  unfolding data_ok_def merge_one_fields(1) [OF assms(2)]
  by (auto simp: rows_ok_snoc merged_snoc merge_one_def store_change_def Let_def record_key_def
      upsert_cell_eq upsert_tombstone_eq split: change_kind.split)

section \<open>The loop of \<open>apply_remote\<close>\<close>

text \<open>The records of a list that are not held yet, counting each once.\<close>

fun fresh_records :: "(string \<times> string) list \<Rightarrow> change_record list \<Rightarrow> change_record list" where
  "fresh_records held [] = []"
| "fresh_records held (r # rs) =
     (if record_key r \<in> set held then fresh_records held rs
      else r # fresh_records (record_key r # held) rs)"

fun append_log :: "stored_change list \<Rightarrow> change_record list \<Rightarrow> stored_change list" where
  "append_log log [] = log"
| "append_log log (r # rs) = append_log (log @ [stored_of (next_seq log) r]) rs"

lemma fresh_records_cong: "set h = set k \<Longrightarrow> fresh_records h rs = fresh_records k rs"
  by (induction rs arbitrary: h k) (simp, metis fresh_records.simps(2) insert_code(1) list.simps(15))

lemma fresh_records_iff:
  "record_key ` set (fresh_records held rs) = record_key ` set rs - set held"
  "set (fresh_records held rs) \<subseteq> set rs"
  "distinct (List.map record_key (fresh_records held rs))"
proof (induction held rs rule: fresh_records.induct)
  case (2 held r rs)
  {
    case 1 with 2 show ?case by (cases "record_key r \<in> set held") auto
  next
    case 2 with "2.IH" show ?case by auto
  next
    case 3
    show ?case
    proof (cases "record_key r \<in> set held")
      case False
      then have "record_key r \<notin> record_key ` set (fresh_records (record_key r # held) rs)"
        using "2.IH"(4) by simp
      with False "2.IH"(6) show ?thesis by simp
    qed (use "2.IH"(3) in simp)
  }
qed simp_all

lemma append_log_content:
  "List.map content (append_log log rs) = List.map content log @ List.map (stored_of 0) rs"
  by (induction rs arbitrary: log) (simp_all add: content_stored_of)

lemma append_log_keys:
  "List.map change_key (append_log log rs) = List.map change_key log @ List.map record_key rs"
  by (induction rs arbitrary: log) simp_all

text \<open>One round of the loop, for a record held already and for a new one.\<close>

lemma apply_one_held:
  "record_key r \<in> change_key ` set (changes d) \<Longrightarrow>
   apply_one E r (a, d) = (a\<lparr>acc_out := acc_out a\<lparr>duplicates := duplicates (acc_out a) + 1\<rparr>\<rparr>, d)"
  by (simp add: apply_one_def store_change_def record_key_def Let_def)

definition note_fresh :: "(string \<times> table_spec) list \<Rightarrow> change_record \<Rightarrow> apply_acc \<Rightarrow> apply_acc" where
  "note_fresh tbls r a =
     (let out = acc_out a\<lparr>applied := applied (acc_out a) + 1\<rparr>;
          a = a\<lparr>acc_vv := vv_observe (cr_origin r) (cr_hlc r) (acc_vv a)\<rparr>
      in if tbl_get tbls (cr_tbl r) \<noteq> None then
           a\<lparr>acc_out := out\<lparr>tables_touched := insort_insert (cr_tbl r) (tables_touched out)\<rparr>,
             acc_dirty := insort_insert (cr_tbl r, cr_pk r) (acc_dirty a)\<rparr>
         else a\<lparr>acc_out := out\<lparr>deferred := deferred out + 1\<rparr>\<rparr>)"

definition observing :: "'a env_scheme \<Rightarrow> change_record \<Rightarrow> db \<Rightarrow> db" where
  "observing E r d = d\<lparr>clock := snd (observe (wall E) (cr_hlc r) (clock d))\<rparr>"

lemma apply_one_fresh:
  assumes "record_key r \<notin> change_key ` set (changes d)"
  shows "apply_one E r (a, d) = (note_fresh (tables d) r a, observing E r (merge_one r d))"
  using assms unfolding record_key_def
  by (cases "tbl_get (tables d) (cr_tbl r)")
     (simp_all add: apply_one_def store_change_def note_fresh_def observing_def merge_one_def Let_def
      upsert_cell_eq upsert_tombstone_eq split: change_kind.split)

lemma observing_fields [simp]:
  "changes (observing E r d) = changes d" "cells (observing E r d) = cells d"
  "tombs (observing E r d) = tombs d" "vv_rows (observing E r d) = vv_rows d"
  "guard (observing E r d) = guard d" "local_ops (observing E r d) = local_ops d"
  "app (observing E r d) = app d" "meta (observing E r d) = meta d" "ops_seq (observing E r d) = ops_seq d"
  "synced (observing E r d) = synced d" "triggers (observing E r d) = triggers d"
  "peers (observing E r d) = peers d"
  "tables (observing E r d) = tables d" "device_id (observing E r d) = device_id d"
  "signer (observing E r d) = signer d"
  "require_signatures (observing E r d) = require_signatures d"
  "clock (observing E r d) = snd (observe (wall E) (cr_hlc r) (clock d))"
  "data_ok (observing E r d) = data_ok d"
  by (simp_all add: observing_def data_ok_def)

lemma merge_one_more:
  fixes d :: db
  assumes "record_key r \<notin> change_key ` set (changes d)"
  shows "observing E r (merge_one r d) =
     d\<lparr>changes := changes d @ [stored_of (next_seq (changes d)) r],
       cells := cells (merge_one r d), tombs := tombs (merge_one r d),
       clock := snd (observe (wall E) (cr_hlc r) (clock d))\<rparr>"
  using assms unfolding merge_one_def store_change_def Let_def record_key_def observing_def
  by (simp add: upsert_cell_eq upsert_tombstone_eq split: change_kind.split)

text \<open>The loop changes the log, the merged tables and the clock, and nothing else of the handle.\<close>

definition loop_frame :: "db \<Rightarrow> db \<Rightarrow> bool" where
  "loop_frame d d' \<longleftrightarrow>
     d' = d\<lparr>changes := changes d', cells := cells d', tombs := tombs d', clock := clock d'\<rparr>"

lemma loop_frame_trans: "loop_frame a b \<Longrightarrow> loop_frame b c \<Longrightarrow> loop_frame a c"
  unfolding loop_frame_def by (cases a, cases b, cases c) simp

lemma loop_frame_fields:
  assumes "loop_frame d d'"
  shows "vv_rows d' = vv_rows d" "meta d' = meta d" "guard d' = guard d" "local_ops d' = local_ops d"
    "ops_seq d' = ops_seq d" "app d' = app d" "triggers d' = triggers d" "synced d' = synced d"
    "peers d' = peers d" "device_id d' = device_id d" "tables d' = tables d" "signer d' = signer d"
    "require_signatures d' = require_signatures d"
  using assms unfolding loop_frame_def by (cases d; cases d'; simp)+

definition registered :: "db \<Rightarrow> change_record \<Rightarrow> bool" where
  "registered d r \<longleftrightarrow> tbl_get (tables d) (cr_tbl r) \<noteq> None"

definition fresh_in :: "'a replica_file_scheme \<Rightarrow> change_record list \<Rightarrow> change_record list" where
  "fresh_in d rs = fresh_records (List.map change_key (changes d)) rs"

text \<open>What the loop leaves behind, in the handle and in what it carries.\<close>

definition loop_state :: "'a env_scheme \<Rightarrow> change_record list \<Rightarrow> db \<Rightarrow> db \<Rightarrow> bool" where
  "loop_state E rs d d' \<longleftrightarrow>
     data_ok d' \<and> changes d' = append_log (changes d) (fresh_in d rs) \<and> loop_frame d d'
     \<and> clock d' = fold (\<lambda>r c. snd (observe (wall E) (cr_hlc r) c)) (fresh_in d rs) (clock d)"

definition loop_acc :: "change_record list \<Rightarrow> db \<Rightarrow> apply_acc \<Rightarrow> apply_acc \<Rightarrow> bool" where
  "loop_acc rs d a a' \<longleftrightarrow>
     (let new = fresh_in d rs in
       acc_vv a' = fold (\<lambda>r. vv_observe (cr_origin r) (cr_hlc r)) new (acc_vv a)
     \<and> applied (acc_out a') = applied (acc_out a) + length new
     \<and> applied (acc_out a') + duplicates (acc_out a')
         = applied (acc_out a) + duplicates (acc_out a) + length rs
     \<and> rejected (acc_out a') = rejected (acc_out a)
     \<and> deferred (acc_out a') = deferred (acc_out a) + length (List.filter (\<lambda>r. \<not> registered d r) new)
     \<and> set (acc_dirty a') = set (acc_dirty a)
         \<union> (\<lambda>r. (cr_tbl r, cr_pk r)) ` set (List.filter (registered d) new)
     \<and> set (tables_touched (acc_out a')) = set (tables_touched (acc_out a))
         \<union> cr_tbl ` set (List.filter (registered d) new))"

lemma fresh_in_held:
  "record_key r \<in> change_key ` set (changes d) \<Longrightarrow> fresh_in d (r # rs) = fresh_in d rs"
  by (simp add: fresh_in_def)

lemma fresh_in_new:
  assumes "record_key r \<notin> change_key ` set (changes d)"
  shows "fresh_in d (r # rs) = r # fresh_in (observing E r (merge_one r d)) rs"
proof -
  have "fresh_records (record_key r # List.map change_key (changes d)) rs =
      fresh_records (List.map change_key (changes (merge_one r d))) rs"
    unfolding merge_one_fields(1) [OF assms] by (rule fresh_records_cong) simp
  then show ?thesis using assms by (simp add: fresh_in_def)
qed

lemma observing_merge_frame:
  assumes "record_key r \<notin> change_key ` set (changes d)"
  shows "loop_frame d (observing E r (merge_one r d))"
  unfolding loop_frame_def by (subst merge_one_more [OF assms]) (simp add: merge_one_fields [OF assms] merge_one_db [OF assms])

lemma fold_apply_one:
  assumes "data_ok d" "fold (apply_one E) rs (a, d) = (a', d')"
  shows "loop_state E rs d d'" "loop_acc rs d a a'"
proof -
  have "loop_state E rs d d' \<and> loop_acc rs d a a'"
    using assms
  proof (induction rs arbitrary: a d)
    case Nil
    then show ?case by (simp add: loop_state_def loop_acc_def fresh_in_def loop_frame_def)
  next
    case (Cons r rs)
    show ?case
    proof (cases "record_key r \<in> change_key ` set (changes d)")
      case True
      let ?a = "a\<lparr>acc_out := acc_out a\<lparr>duplicates := duplicates (acc_out a) + 1\<rparr>\<rparr>"
      have step: "fold (apply_one E) rs (?a, d) = (a', d')"
        using Cons.prems(2) by (simp add: apply_one_held [OF True])
      from Cons.IH [OF Cons.prems(1) step] show ?thesis
        by (simp add: loop_state_def loop_acc_def fresh_in_held [OF True] Let_def)
    next
      case False
      let ?d = "observing E r (merge_one r d)" and ?a = "note_fresh (tables d) r a"
      have ok: "data_ok ?d" using Cons.prems(1) False by (simp add: merge_one_data_ok)
      have step: "fold (apply_one E) rs (?a, ?d) = (a', d')"
        using Cons.prems(2) by (simp add: apply_one_fresh [OF False])
      note IH = Cons.IH [OF ok step] and fr = fresh_in_new [OF False, of rs E]
      have st: "loop_state E (r # rs) d d'"
        using IH loop_frame_trans [OF observing_merge_frame [OF False]]
        by (auto simp: loop_state_def fr merge_one_fields [OF False] merge_one_db [OF False])
      have reg: "registered ?d = registered d"
        by (simp add: registered_def fun_eq_iff merge_one_db [OF False])
      have "loop_acc (r # rs) d a a'"
        using IH unfolding loop_acc_def fr reg Let_def
        by (cases "registered d r")
           (simp_all add: note_fresh_def Let_def registered_def insort_insert_set)
      with st show ?thesis ..
    qed
  qed
  then show "loop_state E rs d d'" "loop_acc rs d a a'" by simp_all
qed

section \<open>Records and their rows\<close>

lemma decode_change_stored_of:
  "decode_change (stored_of n r) = Inr s \<longleftrightarrow> value_ok (cr_value r) \<and> s = r"
proof -
  have "from_storage (fst (to_storage v)) (snd (to_storage v)) = Inr w \<longleftrightarrow> value_ok v \<and> w = v" for v w
    using from_storage_to_storage [of v] from_storage_Inr_iff [of "fst (to_storage v)" "snd (to_storage v)" w]
    by (cases v; cases w) (auto simp: tag_defs)
  then show ?thesis
    by (cases "from_storage (fst (to_storage (cr_value r))) (snd (to_storage (cr_value r)))")
       (auto simp: decode_change_def stored_of_def)
qed

lemma stored_of_inject: "stored_of n r = stored_of m s \<longleftrightarrow> n = m \<and> r = s"
proof
  assume a: "stored_of n r = stored_of m s"
  then have "to_storage (cr_value r) = to_storage (cr_value s)"
    by (simp add: stored_of_def prod_eq_iff)
  moreover have "kind_from_i64 (sc_kind (stored_of n r)) = kind_from_i64 (sc_kind (stored_of m s))"
    using a by simp
  ultimately show "n = m \<and> r = s"
    using a by (cases r; cases s) (simp add: stored_of_def to_storage_inject)
qed simp

lemma decode_changes_rows:
  "decode_changes cs = Inr rs \<Longrightarrow> \<forall>c\<in>set cs. decodable c \<Longrightarrow> List.map content cs = List.map (stored_of 0) rs"
proof (induction cs arbitrary: rs)
  case (Cons c cs)
  obtain r where c: "c = stored_of (sc_seq c) r" using Cons.prems(2) by (auto simp: decodable_def)
  obtain s ss where s: "decode_change c = Inr s" "decode_changes cs = Inr ss" "rs = s # ss"
    using Cons.prems(1) by (auto split: sum.splits)
  have "s = r" using s(1) c decode_change_stored_of by metis
  moreover have "content c = stored_of 0 r" using c content_stored_of by metis
  ultimately show ?case using Cons.IH [OF s(2)] Cons.prems(2) s(3) by simp
qed simp

lemma changes_since_rows:
  assumes "data_ok d" "changes_since d vv limit = Inr rs" "r \<in> set rs"
  shows "stored_of 0 r \<in> content ` set (changes d)"
proof -
  let ?cs = "take limit (missing_rows d vv)"
  have sub: "set ?cs \<subseteq> set (changes d)"
    unfolding missing_rows_def by (auto dest!: in_set_takeD)
  then have "\<forall>c\<in>set ?cs. decodable c" using assms(1) by (auto simp: data_ok_def rows_ok_def)
  with assms(2) have "List.map content ?cs = List.map (stored_of 0) rs"
    unfolding changes_since_def by (rule decode_changes_rows)
  then have "content ` set ?cs = stored_of 0 ` set rs" by (metis list.set_map)
  with sub assms(3) show ?thesis by blast
qed

end
