(* ===== verification/Applying.thy ===== *)
theory Applying
  imports Delivery
begin

text \<open>
  \<open>apply_remote\<close> as a whole: it keeps \<open>log_ok\<close>, extends the log by exactly the admitted records that
  were not held, keeps the version vector at the maximum of the log, and stages nothing for
  rebroadcast although it writes to tables with capture triggers.
\<close>

section \<open>Writing under the guard\<close>

definition rows_only :: "'a replica_file_scheme \<Rightarrow> 'a replica_file_scheme \<Rightarrow> bool" where
  "rows_only d d' \<longleftrightarrow> d' = d\<lparr>app := app d'\<rparr>"

lemma rows_only_refl [simp]: "rows_only d d"
  by (simp add: rows_only_def)

lemma rows_only_trans: "rows_only a b \<Longrightarrow> rows_only b c \<Longrightarrow> rows_only a c"
  unfolding rows_only_def by (cases a, cases b, cases c) simp

lemma rows_only_fields:
  assumes "rows_only d d'"
  shows "app_only d d'" "local_ops d' = local_ops d" "ops_seq d' = ops_seq d" "guard d' = guard d"
  using assms unfolding rows_only_def app_only_def by (cases d; cases d'; simp)+

lemma fire_triggers_guarded: "guard d \<noteq> 0 \<Longrightarrow> fire_triggers E t ev trs d = Inr d"
  by (induction trs) auto

lemma fire_all_guarded: "guard d \<noteq> 0 \<Longrightarrow> fire_all E t evs d = Inr d"
  by (induction evs) (simp_all add: fire_triggers_guarded)

lemma guard_set_rows [simp]: "guard (set_rows t rows d) = guard d"
  by (simp add: set_rows_def split: option.split)

lemma write_rows_guarded: "guard d \<noteq> 0 \<Longrightarrow> write_rows E t rows evs d = Inr (set_rows t rows d)"
  by (simp add: write_rows_def fire_all_guarded)

lemma set_rows_only: "rows_only d (set_rows t rows d)"
  by (simp add: set_rows_def rows_only_def split: option.split)

lemma materialize_rows_only:
  "guard d \<noteq> 0 \<Longrightarrow> materialize E spec pk d = Inr d' \<Longrightarrow> rows_only d d'"
  unfolding materialize_def
  by (auto simp: Let_def write_rows_guarded set_rows_only split: if_splits option.splits sum.splits)

lemma fold_materialize_rows_only:
  "guard d \<noteq> 0 \<Longrightarrow> rows_only d (fold (materialize_key E) keys d)"
proof (induction keys arbitrary: d)
  case (Cons key keys)
  have "rows_only d (materialize_key E key d)"
    unfolding materialize_key_def
    by (auto split: option.splits sum.splits dest: materialize_rows_only [OF Cons.prems])
  with Cons show ?case by (auto intro: rows_only_trans simp: rows_only_fields)
qed simp

section \<open>The version vector of a batch\<close>

abbreviation bump_all :: "vvector \<Rightarrow> (string \<times> string) list \<Rightarrow> (string \<times> string) list" where
  "bump_all vv t \<equiv> fold (\<lambda>e. stamp_put (fst e) (to_hex (snd e))) vv t"

lemma wf_bump_all: "tbl_wf t \<Longrightarrow> tbl_wf (bump_all vv t)"
  by (induction vv arbitrary: t) (simp_all add: stampt.wf_put)

lemma get_bump_all:
  assumes "tbl_wf vv" "tbl_wf t"
  shows "tbl_get (bump_all vv t) k =
    (case tbl_get vv k of None \<Rightarrow> tbl_get t k | Some h \<Rightarrow> tbl_get (stamp_put k (to_hex h) t) k)"
  using assms
proof (induction vv arbitrary: t)
  case (Cons e vv)
  have wf: "tbl_wf vv" and new: "fst e = k \<Longrightarrow> tbl_get vv k = None"
    using Cons.prems(1) by (auto simp: tbl_wf_Cons map_of_eq_None_iff)
  have "tbl_get (bump_all vv (stamp_put (fst e) (to_hex (snd e)) t)) k =
    (case tbl_get vv k of None \<Rightarrow> tbl_get (stamp_put (fst e) (to_hex (snd e)) t) k
     | Some h \<Rightarrow> tbl_get (stamp_put k (to_hex h) (stamp_put (fst e) (to_hex (snd e)) t)) k)"
    using Cons.prems by (intro Cons.IH wf stampt.wf_put)
  then show ?case
    using new Cons.prems by (auto simp: stampt.get_put stampt.wf_put split: option.splits)
qed simp

lemma get_stamp_put:
  "tbl_wf t \<Longrightarrow> tbl_get (stamp_put k s t) l =
     (if l \<noteq> k then tbl_get t l
      else case tbl_get t k of None \<Rightarrow> Some s | Some old \<Rightarrow> Some (max old s))"
  by (auto simp: stampt.get_put max_def split: option.split)

lemma get_vv_observe:
  "tbl_wf t \<Longrightarrow> tbl_get (vv_observe k h t) l =
     (if l \<noteq> k then tbl_get t l
      else case tbl_get t k of None \<Rightarrow> Some h | Some old \<Rightarrow> Some (max old h))"
  by (auto simp: vvt.get_put max_def split: option.split)

lemma to_hex_max: "to_hex (max a b) = max (to_hex a) (to_hex b)"
  by (simp add: max_def)

lemma bump_all_observe:
  assumes "tbl_wf vv" "tbl_wf t"
  shows "bump_all (vv_observe origin h vv) t = stamp_put origin (to_hex h) (bump_all vv t)"
proof (rule tbl_get_ext)
  show "tbl_wf (bump_all (vv_observe origin h vv) t)" using assms by (simp add: wf_bump_all)
  show "tbl_wf (stamp_put origin (to_hex h) (bump_all vv t))"
    using assms by (simp add: wf_bump_all stampt.wf_put)
  fix k
  show "tbl_get (bump_all (vv_observe origin h vv) t) k =
      tbl_get (stamp_put origin (to_hex h) (bump_all vv t)) k"
    using assms
    by (simp add: get_bump_all vvt.wf_put get_stamp_put wf_bump_all get_vv_observe to_hex_max ac_simps
        split: option.split)
qed

lemma wf_observe_all: "tbl_wf vv \<Longrightarrow> tbl_wf (fold (\<lambda>r. vv_observe (cr_origin r) (cr_hlc r)) rs vv)"
  by (induction rs arbitrary: vv) (simp_all add: vvt.wf_put)

lemma bump_all_observe_all:
  assumes "tbl_wf vv" "tbl_wf t"
  shows "bump_all (fold (\<lambda>r. vv_observe (cr_origin r) (cr_hlc r)) rs vv) t =
    fold (\<lambda>r. stamp_put (cr_origin r) (to_hex (cr_hlc r))) rs (bump_all vv t)"
  using assms
  by (induction rs arbitrary: vv) (simp_all add: vvt.wf_put bump_all_observe)

lemma merged_vv_append_log:
  "merged_vv (append_log log rs) =
     fold (\<lambda>r. stamp_put (cr_origin r) (to_hex (cr_hlc r))) rs (merged_vv log)"
  by (induction rs arbitrary: log) (simp_all add: merged_snoc)

lemma fold_bump_vv:
  "tbl_wf (vv_rows d) \<Longrightarrow>
     fold (\<lambda>e d. bump_vv (fst e) (snd e) d) vv d = d\<lparr>vv_rows := bump_all vv (vv_rows d)\<rparr>"
  by (induction vv arbitrary: d) (simp_all add: bump_vv_eq stampt.wf_put)

section \<open>The whole operation\<close>

definition admitted :: "'a env_scheme \<Rightarrow> change_record list \<Rightarrow> db \<Rightarrow> change_record list" where
  "admitted E chs d = sort_key order_key (fst (admit E (require_signatures d) chs))"

definition new_records :: "'a env_scheme \<Rightarrow> change_record list \<Rightarrow> db \<Rightarrow> change_record list" where
  "new_records E chs d = fresh_in d (admitted E chs d)"

text \<open>\<open>apply_remote\<close> by its stages.\<close>

lemma apply_remote_stages:
  assumes "admitted E chs d \<noteq> []"
  obtains a1 d1 where
    "fold (apply_one E) (admitted E chs d)
       (\<lparr>acc_out = no_outcome\<lparr>rejected := snd (admit E (require_signatures d) chs)\<rparr>,
         acc_dirty = [], acc_vv = []\<rparr>, d\<lparr>guard := 1\<rparr>) = (a1, d1)"
    "apply_remote E chs d =
       (acc_out a1,
        (fold (\<lambda>e d. bump_vv (fst e) (snd e) d) (acc_vv a1)
           (fold (materialize_key E) (acc_dirty a1) d1))\<lparr>guard := 0\<rparr>)"
proof -
  obtain kept bad where ad: "admit E (require_signatures d) chs = (kept, bad)" by fastforce
  obtain a1 d1 where f: "fold (apply_one E) (admitted E chs d)
       (\<lparr>acc_out = no_outcome\<lparr>rejected := snd (admit E (require_signatures d) chs)\<rparr>,
         acc_dirty = [], acc_vv = []\<rparr>, d\<lparr>guard := 1\<rparr>) = (a1, d1)" by fastforce
  have "kept \<noteq> []" using assms by (auto simp: admitted_def ad)
  then have "apply_remote E chs d =
       (acc_out a1,
        (fold (\<lambda>e d. bump_vv (fst e) (snd e) d) (acc_vv a1)
           (fold (materialize_key E) (acc_dirty a1) d1))\<lparr>guard := 0\<rparr>)"
    using f by (simp add: apply_remote_def ad admitted_def Let_def)
  with f show thesis by (rule that)
qed

lemma sort_key_Nil_iff: "sort_key f xs = [] \<longleftrightarrow> xs = []"
  by (metis length_0_conv length_sort)

lemma apply_remote_nothing:
  "admitted E chs d = [] \<Longrightarrow>
     apply_remote E chs d = (no_outcome\<lparr>rejected := snd (admit E (require_signatures d) chs)\<rparr>, d)"
  by (cases "admit E (require_signatures d) chs")
     (simp add: admitted_def apply_remote_def sort_key_Nil_iff Let_def)

lemma new_records_Nil: "admitted E chs d = [] \<Longrightarrow> new_records E chs d = []"
  by (simp add: new_records_def fresh_in_def)

text \<open>The state afterwards: the log grows by the new records, the rest of the handle stays.\<close>

definition applied_state :: "'a env_scheme \<Rightarrow> change_record list \<Rightarrow> db \<Rightarrow> db \<Rightarrow> bool" where
  "applied_state E new d d' \<longleftrightarrow>
     log_ok d' \<and> changes d' = append_log (changes d) new
     \<and> clock d' = fold (\<lambda>r c. snd (observe (wall E) (cr_hlc r) c)) new (clock d)
     \<and> d' = d\<lparr>changes := changes d', cells := cells d', tombs := tombs d', vv_rows := vv_rows d',
              app := app d', clock := clock d'\<rparr>"

lemma applied_state_fields:
  assumes "applied_state E new d d'"
  shows "log_ok d'" "changes d' = append_log (changes d) new"
    "clock d' = fold (\<lambda>r c. snd (observe (wall E) (cr_hlc r) c)) new (clock d)"
    "meta d' = meta d" "guard d' = guard d" "local_ops d' = local_ops d" "ops_seq d' = ops_seq d"
    "synced d' = synced d" "peers d' = peers d" "triggers d' = triggers d" "device_id d' = device_id d"
    "tables d' = tables d" "signer d' = signer d" "require_signatures d' = require_signatures d"
  using assms unfolding applied_state_def by (cases d; cases d'; simp)+

lemma applied_state_intro:
  assumes "log_ok d" "loop_state E rs (d\<lparr>guard := 1\<rparr>) d1" "rows_only d1 d2"
    "d' = d2\<lparr>vv_rows := merged_vv (changes d1), guard := 0\<rparr>"
  shows "applied_state E (fresh_in d rs) d d'"
proof -
  have fr: "fresh_in (d\<lparr>guard := 1\<rparr>) rs = fresh_in d rs" by (simp add: fresh_in_def)
  have "log_ok d'"
    using conjunct1 [OF assms(2) [unfolded loop_state_def]] assms(4)
      app_only_fields [OF rows_only_fields(1) [OF assms(3)]]
    by (simp add: log_ok_def data_ok_def)
  moreover have "changes d2 = changes d1" "clock d2 = clock d1"
    using app_only_fields app_only_db rows_only_fields(1) [OF assms(3)] by auto
  moreover have "guard d = 0" using assms(1) by (simp add: log_ok_def)
  moreover have "d1 = d\<lparr>guard := 1, changes := changes d1, cells := cells d1, tombs := tombs d1, clock := clock d1\<rparr>"
    using assms(2) unfolding loop_state_def loop_frame_def by (elim conjE)
  moreover have "d2 = d1\<lparr>app := app d2\<rparr>" using assms(3) by (simp add: rows_only_def)
  ultimately have "d' = d\<lparr>changes := changes d', cells := cells d', tombs := tombs d', vv_rows := vv_rows d',
              app := app d', clock := clock d'\<rparr>"
    unfolding assms(4) by (cases d; cases d1; cases d2) simp
  with \<open>log_ok d'\<close> show ?thesis
    using assms(2,4) \<open>changes d2 = changes d1\<close> \<open>clock d2 = clock d1\<close>
    by (simp add: applied_state_def loop_state_def fr)
qed

lemma apply_remote_state:
  assumes "log_ok d"
  shows "applied_state E (new_records E chs d) d (snd (apply_remote E chs d))"
proof (cases "admitted E chs d = []")
  case True
  then show ?thesis
    using assms by (simp add: apply_remote_nothing new_records_Nil applied_state_def)
next
  case False
  then obtain a1 d1 where
    loop: "fold (apply_one E) (admitted E chs d)
       (\<lparr>acc_out = no_outcome\<lparr>rejected := snd (admit E (require_signatures d) chs)\<rparr>,
         acc_dirty = [], acc_vv = []\<rparr>, d\<lparr>guard := 1\<rparr>) = (a1, d1)"
    and res: "apply_remote E chs d =
       (acc_out a1,
        (fold (\<lambda>e d. bump_vv (fst e) (snd e) d) (acc_vv a1)
           (fold (materialize_key E) (acc_dirty a1) d1))\<lparr>guard := 0\<rparr>)"
    by (rule apply_remote_stages)
  let ?d2 = "fold (materialize_key E) (acc_dirty a1) d1"
  have "data_ok (d\<lparr>guard := 1\<rparr>)" using assms by (simp add: log_ok_def data_ok_def)
  note post = fold_apply_one [OF this loop]
  have fr: "fresh_in (d\<lparr>guard := 1\<rparr>) (admitted E chs d) = new_records E chs d"
    by (simp add: fresh_in_def new_records_def)
  have lf: "loop_frame (d\<lparr>guard := 1\<rparr>) d1" using post(1) by (simp add: loop_state_def)
  have ro: "rows_only d1 ?d2"
    by (intro fold_materialize_rows_only) (simp add: loop_frame_fields [OF lf])
  have vv1: "vv_rows d1 = merged_vv (changes d)"
    using assms by (simp add: loop_frame_fields [OF lf] log_ok_def)
  then have vv2: "vv_rows ?d2 = merged_vv (changes d)"
    by (simp add: app_only_fields [OF rows_only_fields(1) [OF ro]])
  have "bump_all (acc_vv a1) (merged_vv (changes d)) = merged_vv (changes d1)"
    using post by (simp add: loop_acc_def loop_state_def fr Let_def bump_all_observe_all merged_vv_append_log)
  then have "snd (apply_remote E chs d) = ?d2\<lparr>vv_rows := merged_vv (changes d1), guard := 0\<rparr>"
    by (simp add: res fold_bump_vv vv2)
  from applied_state_intro [OF assms post(1) ro this] show ?thesis by (simp add: new_records_def)
qed

section \<open>The outcome\<close>

definition outcome_of :: "'a env_scheme \<Rightarrow> change_record list \<Rightarrow> db \<Rightarrow> apply_outcome \<Rightarrow> bool" where
  "outcome_of E chs d out \<longleftrightarrow>
     (let new = new_records E chs d
      in applied out = length new
       \<and> applied out + duplicates out = length (admitted E chs d)
       \<and> rejected out = snd (admit E (require_signatures d) chs)
       \<and> deferred out = length (List.filter (\<lambda>r. \<not> registered d r) new)
       \<and> set (tables_touched out) = cr_tbl ` set (List.filter (registered d) new))"

lemma apply_remote_outcome:
  assumes "log_ok d"
  shows "outcome_of E chs d (fst (apply_remote E chs d))"
proof (cases "admitted E chs d = []")
  case True
  then show ?thesis by (simp add: apply_remote_nothing outcome_of_def new_records_Nil no_outcome_def)
next
  case False
  then obtain a1 d1 where
    loop: "fold (apply_one E) (admitted E chs d)
       (\<lparr>acc_out = no_outcome\<lparr>rejected := snd (admit E (require_signatures d) chs)\<rparr>,
         acc_dirty = [], acc_vv = []\<rparr>, d\<lparr>guard := 1\<rparr>) = (a1, d1)"
    and res: "fst (apply_remote E chs d) = acc_out a1"
    by (rule apply_remote_stages) simp
  have "data_ok (d\<lparr>guard := 1\<rparr>)" using assms by (simp add: log_ok_def data_ok_def)
  from fold_apply_one(2) [OF this loop] show ?thesis
    by (simp add: loop_acc_def outcome_of_def res no_outcome_def Let_def new_records_def fresh_in_def
        registered_def)
qed

section \<open>Replays\<close>

lemma admit_split: "set (fst (admit E req rs)) \<subseteq> set rs"
  by (induction rs) (auto simp: split_beta Let_def)

lemma set_admitted [simp]: "set (admitted E chs d) = set (fst (admit E (require_signatures d) chs))"
  by (simp add: admitted_def)

lemma new_records_sub: "set (new_records E chs d) \<subseteq> set (admitted E chs d)"
  unfolding new_records_def fresh_in_def by (rule fresh_records_iff(2))

lemma admitted_sub: "set (admitted E chs d) \<subseteq> set chs"
  by (simp add: admit_split)

lemma applied_keys:
  assumes "applied_state E (new_records E chs d) d d'"
  shows "change_key ` set (changes d') = change_key ` set (changes d) \<union> record_key ` set (admitted E chs d)"
proof -
  let ?new = "new_records E chs d"
  have "set (List.map change_key (changes d')) = change_key ` set (changes d) \<union> record_key ` set ?new"
    unfolding applied_state_fields(2) [OF assms] append_log_keys by simp
  moreover have "record_key ` set ?new = record_key ` set (admitted E chs d) - change_key ` set (changes d)"
    unfolding new_records_def fresh_in_def
    using fresh_records_iff(1) [of "List.map change_key (changes d)" "admitted E chs d"] by simp
  ultimately show ?thesis by auto
qed

lemma fold_apply_one_held:
  "record_key ` set rs \<subseteq> change_key ` set (changes d) \<Longrightarrow>
   fold (apply_one E) rs (a, d) =
     (a\<lparr>acc_out := acc_out a\<lparr>duplicates := duplicates (acc_out a) + length rs\<rparr>\<rparr>, d)"
proof (induction rs arbitrary: a)
  case (Cons r rs)
  then show ?case using apply_one_held [of r d E a] by (simp add: Cons.IH)
qed simp

lemma apply_remote_held:
  assumes "guard d = 0" "record_key ` set (admitted E chs d) \<subseteq> change_key ` set (changes d)"
  shows "apply_remote E chs d =
    (no_outcome\<lparr>rejected := snd (admit E (require_signatures d) chs),
                duplicates := length (admitted E chs d)\<rparr>, d)"
proof (cases "admitted E chs d = []")
  case True
  then show ?thesis by (simp add: apply_remote_nothing no_outcome_def)
next
  case False
  then obtain a1 d1 where
    loop: "fold (apply_one E) (admitted E chs d)
       (\<lparr>acc_out = no_outcome\<lparr>rejected := snd (admit E (require_signatures d) chs)\<rparr>,
         acc_dirty = [], acc_vv = []\<rparr>, d\<lparr>guard := 1\<rparr>) = (a1, d1)"
    and res: "apply_remote E chs d =
       (acc_out a1,
        (fold (\<lambda>e d. bump_vv (fst e) (snd e) d) (acc_vv a1)
           (fold (materialize_key E) (acc_dirty a1) d1))\<lparr>guard := 0\<rparr>)"
    by (rule apply_remote_stages)
  have "record_key ` set (admitted E chs d) \<subseteq> change_key ` set (changes (d\<lparr>guard := 1\<rparr>))"
    using assms(2) by simp
  from loop [unfolded fold_apply_one_held [OF this]] have
    "acc_out a1 = no_outcome\<lparr>rejected := snd (admit E (require_signatures d) chs),
                duplicates := length (admitted E chs d)\<rparr>" "acc_dirty a1 = []" "acc_vv a1 = []"
    "d1 = d\<lparr>guard := 1\<rparr>"
    by (auto simp: no_outcome_def)
  with res assms(1) show ?thesis by simp
qed

lemma replay:
  assumes "log_ok d" "apply_remote E chs d = (out, d')"
  shows "apply_remote E chs d' =
    (no_outcome\<lparr>rejected := rejected out, duplicates := applied out + duplicates out\<rparr>, d')"
proof -
  have st: "applied_state E (new_records E chs d) d d'"
    using apply_remote_state [OF assms(1), of E chs] assms(2) by simp
  have same: "admitted E chs d' = admitted E chs d" "require_signatures d' = require_signatures d"
    by (simp_all add: admitted_def applied_state_fields [OF st])
  have "guard d' = 0" using applied_state_fields(5) [OF st] assms(1) by (simp add: log_ok_def)
  moreover have "record_key ` set (admitted E chs d') \<subseteq> change_key ` set (changes d')"
    unfolding same applied_keys [OF st] by blast
  ultimately show ?thesis
    using apply_remote_outcome [OF assms(1), of E chs] assms(2)
    by (simp add: apply_remote_held same outcome_of_def Let_def)
qed

section \<open>Batches in any order\<close>

fun apply_batches :: "'a env_scheme \<Rightarrow> change_record list list \<Rightarrow> db \<Rightarrow> db" where
  "apply_batches E [] d = d"
| "apply_batches E (b # bs) d = apply_batches E bs (snd (apply_remote E b d))"

lemma applied_content:
  assumes "applied_state E (new_records E chs d) d d'"
    and "unique_stamps (content ` set (changes d) \<union> stored_of 0 ` set chs)"
  shows "content ` set (changes d') = content ` set (changes d) \<union> stored_of 0 ` set (admitted E chs d)"
proof -
  let ?new = "new_records E chs d"
  have cont: "content ` set (changes d') = content ` set (changes d) \<union> stored_of 0 ` set ?new"
    unfolding applied_state_fields(2) [OF assms(1)]
    using append_log_content [of "changes d" ?new] by (metis list.set_map set_append)
  have "stored_of 0 r \<in> content ` set (changes d)" if "r \<in> set (admitted E chs d)" "r \<notin> set ?new" for r
  proof -
    have rk: "record_key ` set ?new = record_key ` set (admitted E chs d) - change_key ` set (changes d)"
      unfolding new_records_def fresh_in_def
      using fresh_records_iff(1) [of "List.map change_key (changes d)" "admitted E chs d"] by simp
    have r: "r \<in> set chs" using that(1) admitted_sub by blast
    show ?thesis
    proof (cases "record_key r \<in> change_key ` set (changes d)")
      case True
      then obtain c where "c \<in> set (changes d)" "change_key (content c) = change_key (stored_of 0 r)" by auto
      then show ?thesis using assms(2) r unfolding unique_stamps_def inj_on_def by (metis UnCI image_eqI)
    next
      case False
      then have "record_key r \<in> record_key ` set ?new" using rk that(1) by blast
      then obtain s where s: "s \<in> set ?new" "record_key s = record_key r" by force
      then have "s \<in> set chs" using new_records_sub admitted_sub by blast
      with s(2) r assms(2) have "stored_of 0 s = stored_of 0 r"
        unfolding unique_stamps_def inj_on_def by (metis UnCI change_key_stored_of image_eqI)
      with s(1) that(2) show ?thesis by (simp add: stored_of_inject)
    qed
  qed
  then show ?thesis unfolding cont using new_records_sub by blast
qed

lemma apply_batches_content:
  assumes "log_ok d" "unique_stamps (content ` set (changes d) \<union> stored_of 0 ` (\<Union>b\<in>set bs. set b))"
  shows "log_ok (apply_batches E bs d)
    \<and> content ` set (changes (apply_batches E bs d)) = content ` set (changes d)
        \<union> stored_of 0 ` (\<Union>b\<in>set bs. set (admitted E b d))"
  using assms
proof (induction bs arbitrary: d)
  case (Cons b bs)
  let ?d = "snd (apply_remote E b d)"
  have st: "applied_state E (new_records E b d) d ?d" by (rule apply_remote_state [OF Cons.prems(1)])
  have "unique_stamps (content ` set (changes d) \<union> stored_of 0 ` set b)"
    using Cons.prems(2) unfolding unique_stamps_def by (rule inj_on_subset) auto
  note c = applied_content [OF st this]
  have ok: "log_ok ?d" using applied_state_fields(1) [OF st] .
  have u: "unique_stamps (content ` set (changes ?d) \<union> stored_of 0 ` (\<Union>b\<in>set bs. set b))"
    using Cons.prems(2) admitted_sub [of E b d] unfolding unique_stamps_def c
    by (elim inj_on_subset) auto
  have "admitted E b' ?d = admitted E b' d" for b'
    by (simp add: admitted_def applied_state_fields [OF st])
  with Cons.IH [OF ok u] c show ?case by auto
qed simp

end
