(* ===== verification/Flushing.thy ===== *)
theory Flushing
  imports Applying
begin

text \<open>
  \<open>flush_local\<close> as a whole: the records it returns are the ones it appended to the log, strictly
  ordered above everything the device has stamped before, and signed by the device; the invariant
  \<open>log_ok\<close> is kept.  The counter of the clock must have room for the records of one flush, which
  \<open>flush_budget\<close> bounds.
\<close>

section \<open>Records authored here\<close>

text \<open>The device never stamped anything above its clock.\<close>

definition own_below :: "db \<Rightarrow> bool" where
  "own_below d \<longleftrightarrow>
     (\<forall>c\<in>set (changes d). sc_origin c = device_id d \<longrightarrow> sc_hlc c \<le> to_hex (last_hlc (clock d)))"

definition signed_here :: "'a env_scheme \<Rightarrow> db \<Rightarrow> change_record \<Rightarrow> bool" where
  "signed_here E d r \<longleftrightarrow>
     (case signer d of None \<Rightarrow> cr_sig r = []
      | Some sk \<Rightarrow> keypair_sign E sk (signing_bytes r) = Inr (cr_sig r))"

definition authored :: "'a env_scheme \<Rightarrow> nat \<Rightarrow> db \<Rightarrow> change_record list \<Rightarrow> db \<Rightarrow> bool" where
  "authored E room d out d' \<longleftrightarrow>
     data_ok d' \<and> own_below d' \<and> clock_room room (clock d')
     \<and> changes d' = append_log (changes d) out \<and> loop_frame d d'
     \<and> last_hlc (clock d) \<le> last_hlc (clock d')
     \<and> sorted_wrt (<) (last_hlc (clock d) # List.map cr_hlc out)
     \<and> (\<forall>r\<in>set out. cr_hlc r \<le> last_hlc (clock d') \<and> cr_origin r = device_id d \<and> signed_here E d r)"

lemma authored_none:
  "data_ok d \<Longrightarrow> own_below d \<Longrightarrow> clock_room room (clock d) \<Longrightarrow> authored E room d [] d"
  by (simp add: authored_def loop_frame_def)

lemma append_log_append: "append_log log (rs @ ss) = append_log (append_log log rs) ss"
  by (induction rs arbitrary: log) simp_all

lemma signed_here_frame: "loop_frame d d' \<Longrightarrow> signed_here E d' r = signed_here E d r"
  by (simp add: signed_here_def loop_frame_fields)

lemma authored_append:
  assumes "authored E n a out b" "authored E m b out' c"
  shows "authored E m a (out @ out') c"
proof -
  have fr: "loop_frame a b" "loop_frame b c" using assms by (simp_all add: authored_def)
  have le: "last_hlc (clock a) \<le> last_hlc (clock b)" "last_hlc (clock b) \<le> last_hlc (clock c)"
    using assms by (simp_all add: authored_def)
  have sep: "\<forall>x\<in>cr_hlc ` set out. x \<le> last_hlc (clock b)" "\<forall>y\<in>cr_hlc ` set out'. last_hlc (clock b) < y"
    using assms by (auto simp: authored_def)
  have "sorted_wrt (<) (last_hlc (clock a) # List.map cr_hlc (out @ out'))"
    using assms sep le by (auto simp: authored_def sorted_wrt_append intro: le_less_trans)
  then show ?thesis
    using assms le sep loop_frame_trans [OF fr]
    by (auto simp: authored_def append_log_append loop_frame_fields [OF fr(1)]
        signed_here_frame [OF fr(1)] intro: order_trans)
qed

lemma own_fresh:
  assumes "own_below d" "cr_origin r = device_id d" "last_hlc (clock d) < cr_hlc r"
  shows "record_key r \<notin> change_key ` set (changes d)"
proof
  assume "record_key r \<in> change_key ` set (changes d)"
  then obtain c where c: "c \<in> set (changes d)" "sc_origin c = device_id d" "sc_hlc c = to_hex (cr_hlc r)"
    using assms(2) by (auto simp: record_key_def change_key_def)
  with assms(1) have "to_hex (cr_hlc r) \<le> to_hex (last_hlc (clock d))" by (auto simp: own_below_def)
  with assms(3) show False by simp
qed

text \<open>\<open>author\<close> and its two ways to end.\<close>

lemma author_clock: "clock (snd (author E r d)) = snd (tick (wall E) (clock d))"
  by (simp add: author_def db_tick_def Let_def split_beta split: option.split)

lemma author_state: "snd (author E r d) = d\<lparr>clock := snd (tick (wall E) (clock d))\<rparr>"
  by (simp add: author_def db_tick_def Let_def split_beta split: option.split)

lemma author_ok:
  assumes "author E r0 d = (Inr r, d1)"
  shows "cr_hlc r = fst (tick (wall E) (clock d))" "cr_origin r = device_id d" "signed_here E d r"
    "cr_kind r = cr_kind r0" "cr_tbl r = cr_tbl r0" "cr_pk r = cr_pk r0" "cr_col r = cr_col r0"
    "cr_value r = cr_value r0"
  using assms
  by (auto simp: author_def db_tick_def Let_def split_beta sign_with_def signed_here_def
      split: option.splits sum.splits)

lemma clock_le_author: "last_hlc (clock d) \<le> last_hlc (clock (snd (author E r d)))"
  by (simp add: author_clock tick_simps advance_ge)

lemma authored_one:
  assumes "data_ok d" "own_below d" "clock_room (Suc room) (clock d)"
    and "author E r0 d = (Inr r, d1)"
  shows "authored E room d [r] (merge_one r d1)"
    "merge_one r d1 = (case cr_kind r of Delete \<Rightarrow> snd (upsert_tombstone r (snd (store_change r d1)))
       | Cell \<Rightarrow> snd (upsert_cell r (snd (store_change r d1))))"
proof -
  note r = author_ok [OF assms(4)]
  have d1: "d1 = d\<lparr>clock := snd (tick (wall E) (clock d))\<rparr>"
    using author_state [of E r0 d] assms(4) by simp
  have gt: "last_hlc (clock d) < cr_hlc r" unfolding r(1) by (rule tick_gt [OF assms(3)])
  have new: "record_key r \<notin> change_key ` set (changes d)"
    using assms(2) r(2) gt by (rule own_fresh)
  then have new1: "record_key r \<notin> change_key ` set (changes d1)" by (simp add: d1)
  have ok1: "data_ok d1" using assms(1) by (simp add: d1 data_ok_def)
  have hlc: "last_hlc (clock d1) = cr_hlc r" by (simp add: d1 r(1))
  have below: "own_below (merge_one r d1)"
    using assms(2) gt
    by (auto simp: own_below_def merge_one_fields [OF new1] merge_one_db [OF new1] hlc)
       (auto simp: d1 intro: order.trans less_imp_le)
  have fr: "loop_frame d (merge_one r d1)"
    unfolding loop_frame_def merge_one_def Let_def
    by (simp add: upsert_cell_eq upsert_tombstone_eq store_change_def d1 split: change_kind.split)
  show "authored E room d [r] (merge_one r d1)"
    unfolding authored_def
    using merge_one_data_ok [OF ok1 new1] below fr gt r(2,3) clock_room_tick [OF assms(3), of "wall E"]
    by (simp add: merge_one_fields [OF new1] merge_one_db [OF new1] hlc) (simp add: d1)
  show "merge_one r d1 = (case cr_kind r of Delete \<Rightarrow> snd (upsert_tombstone r (snd (store_change r d1)))
       | Cell \<Rightarrow> snd (upsert_cell r (snd (store_change r d1))))"
    by (simp add: merge_one_def Let_def)
qed

section \<open>Flushing\<close>

lemma flush_cols_authored:
  assumes "data_ok d" "own_below d" "clock_room (length cols + room) (clock d)"
    "flush_cols E t pk vals cols d = (Inr out, d')"
  shows "authored E room d out d'"
  using assms
proof (induction cols arbitrary: d out)
  case Nil
  then show ?case by (simp add: authored_none)
next
  case (Cons col cols)
  have room: "clock_room (length cols + room) (clock d)"
    using Cons.prems(3) by (rule clock_room_mono) simp
  show ?case
  proof (cases "\<exists>v. map_of vals col = Some v
      \<and> \<not> cell_matches d t pk col (fst (to_storage v)) (snd (to_storage v))")
    case False
    then have "flush_cols E t pk vals cols d = (Inr out, d')"
      using Cons.prems(4) by (auto split: option.splits)
    with Cons.IH Cons.prems(1,2) room show ?thesis by blast
  next
    case True
    then obtain v where v: "map_of vals col = Some v"
      "\<not> cell_matches d t pk col (fst (to_storage v)) (snd (to_storage v))" by blast
    obtain r d1 where a: "author E (cell_record t pk col v) d = (Inr r, d1)"
      using Cons.prems(4) v by (auto split: prod.splits sum.splits)
    have "clock_room (Suc (length cols + room)) (clock d)" using Cons.prems(3) by simp
    note one = authored_one [OF Cons.prems(1,2) this a]
    have "cr_kind r = Cell" using author_ok [OF a] by (simp add: cell_record_def)
    then have step: "snd (upsert_cell r (snd (store_change r d1))) = merge_one r d1"
      by (simp add: one(2))
    obtain out' where rest: "flush_cols E t pk vals cols (merge_one r d1) = (Inr out', d')"
      and out: "out = [r] @ out'"
      using Cons.prems(4) v a by (auto simp: step split: prod.splits sum.splits)
    have "authored E room (merge_one r d1) out' d'"
      using one(1) by (intro Cons.IH [OF _ _ _ rest]) (simp_all add: authored_def)
    with one(1) show ?thesis unfolding out by (rule authored_append)
  qed
qed

definition key_budget :: "db \<Rightarrow> string \<times> string \<Rightarrow> nat" where
  "key_budget d key =
     (case tbl_get (tables d) (fst key) of None \<Rightarrow> 0 | Some spec \<Rightarrow> Suc (length (ts_cols spec)))"

definition keys_budget :: "db \<Rightarrow> (string \<times> string) list \<Rightarrow> nat" where
  "keys_budget d keys = sum_list (List.map (key_budget d) keys)"

definition flush_budget :: "db \<Rightarrow> nat" where
  "flush_budget d = keys_budget d (fst (collapse (local_ops d)))"

lemma flush_key_authored:
  assumes "data_ok d" "own_below d" "clock_room (key_budget d key + room) (clock d)"
    "flush_key E final_op key d = (Inr out, d')"
  shows "authored E room d out d'"
proof (cases "tbl_get (tables d) (fst key)")
  case None
  then show ?thesis using assms by (simp add: flush_key_def key_budget_def authored_none)
next
  case (Some spec)
  then have room: "clock_room (Suc (length (ts_cols spec) + room)) (clock d)"
    using assms(3) by (simp add: key_budget_def)
  have room0: "clock_room room (clock d)" "clock_room (length (ts_cols spec) + room) (clock d)"
    "clock_room (Suc room) (clock d)"
    by (rule clock_room_mono [OF room]; simp)+
  obtain found where found: "read_row E spec (snd key) d = Inr found"
    using assms(4) Some by (auto simp: flush_key_def Let_def split: sum.splits)
  show ?thesis
  proof (cases found)
    case (Some vals)
    with found assms(4) \<open>tbl_get (tables d) (fst key) = Some spec\<close>
    have "flush_cols E (fst key) (snd key) vals (ts_cols spec) d = (Inr out, d')"
      by (simp add: flush_key_def Let_def)
    with assms(1,2) room0(2) show ?thesis by (rule flush_cols_authored)
  next
    case None
    let ?a = "author E (delete_record (fst key) (snd key)) d"
    show ?thesis
    proof (cases "out = [] \<and> d' = d")
      case True
      then show ?thesis using assms(1,2) room0(1) by (simp add: authored_none)
    next
      case False
      then obtain r d1 where a: "?a = (Inr r, d1)"
        and res: "out = [r]" "d' = snd (upsert_tombstone r (snd (store_change r d1)))"
        using assms(4) Some None found
        by (auto simp: flush_key_def Let_def split: prod.splits sum.splits if_splits)
      note one = authored_one [OF assms(1,2) room0(3) a]
      have "cr_kind r = Delete" using author_ok [OF a] by (simp add: delete_record_def)
      then show ?thesis using one res by simp
    qed
  qed
qed

lemma budget_frame: "loop_frame d d' \<Longrightarrow> keys_budget d' keys = keys_budget d keys"
  by (simp add: keys_budget_def key_budget_def [abs_def] loop_frame_fields)

lemma flush_keys_authored:
  assumes "data_ok d" "own_below d" "clock_room (keys_budget d keys + room) (clock d)"
    "flush_keys E final_op keys d = (Inr out, d')"
  shows "authored E room d out d'"
  using assms
proof (induction keys arbitrary: d out)
  case Nil
  then show ?case by (simp add: authored_none keys_budget_def)
next
  case (Cons key keys)
  obtain o1 d1 where k: "flush_key E final_op key d = (Inr o1, d1)"
    using Cons.prems(4) by (auto split: prod.splits sum.splits)
  obtain o2 where ks: "flush_keys E final_op keys d1 = (Inr o2, d')" and out: "out = o1 @ o2"
    using Cons.prems(4) k by (auto split: prod.splits sum.splits)
  have "clock_room (key_budget d key + (keys_budget d keys + room)) (clock d)"
    using Cons.prems(3) by (simp add: keys_budget_def add.assoc)
  from flush_key_authored [OF Cons.prems(1,2) this k]
  have one: "authored E (keys_budget d keys + room) d o1 d1" .
  then have "authored E room d1 o2 d'"
    using budget_frame [of d d1]
    by (intro Cons.IH [OF _ _ _ ks]) (simp_all add: authored_def)
  with one show ?case unfolding out by (rule authored_append)
qed

section \<open>The clock of a failed flush\<close>

lemma flush_cols_clock_le:
  "last_hlc (clock d) \<le> last_hlc (clock (snd (flush_cols E t pk vals cols d)))"
proof (induction cols arbitrary: d)
  case (Cons col cols)
  have up: "clock (snd (upsert_cell r (snd (store_change r d1)))) = clock d1" for r and d1 :: db
    by (simp add: upsert_cell_eq store_change_def)
  {
    fix v obtain res d1 where a: "author E (cell_record t pk col v) d = (res, d1)" by fastforce
    have le: "last_hlc (clock d) \<le> last_hlc (clock d1)"
      using clock_le_author [of d E "cell_record t pk col v"] by (simp add: a)
    have "last_hlc (clock d1) \<le> last_hlc (clock (snd (flush_cols E t pk vals cols
        (snd (upsert_cell r (snd (store_change r d1)))))))" for r
      using Cons.IH [of "snd (upsert_cell r (snd (store_change r d1)))"] by (simp add: up)
    then have "last_hlc (clock d) \<le> last_hlc (clock (snd (case author E (cell_record t pk col v) d of
         (Inl e, d) \<Rightarrow> (Inl e, d)
       | (Inr r, d) \<Rightarrow>
           (case flush_cols E t pk vals cols (snd (upsert_cell r (snd (store_change r d)))) of
              (Inl e, d) \<Rightarrow> (Inl e, d) | (Inr out, d) \<Rightarrow> (Inr (r # out), d)))))"
      using le by (auto simp: a split: sum.split prod.split) (metis order_trans snd_conv)+
  }
  with Cons.IH [of d] show ?case by (simp split: option.split)
qed simp

lemma flush_key_clock_le:
  "last_hlc (clock d) \<le> last_hlc (clock (snd (flush_key E final_op key d)))"
proof -
  have "last_hlc (clock d) \<le> last_hlc (clock (snd (case author E r0 d of
      (Inl e, d) \<Rightarrow> (Inl e, d)
    | (Inr r, d) \<Rightarrow> (Inr [r], snd (upsert_tombstone r (snd (store_change r d)))))))" for r0
    using clock_le_author [of d E r0]
    by (auto simp: upsert_tombstone_eq store_change_def split: prod.split sum.split)
  then show ?thesis
    by (auto simp: flush_key_def Let_def flush_cols_clock_le split: option.split sum.split)
qed

lemma flush_keys_clock_le:
  "last_hlc (clock d) \<le> last_hlc (clock (snd (flush_keys E final_op keys d)))"
proof (induction keys arbitrary: d)
  case (Cons key keys)
  obtain res d1 where k: "flush_key E final_op key d = (res, d1)" by fastforce
  have "last_hlc (clock d) \<le> last_hlc (clock d1)"
    using flush_key_clock_le [of d E final_op key] by (simp add: k)
  moreover obtain res2 d2 where ks: "flush_keys E final_op keys d1 = (res2, d2)" by fastforce
  moreover have "last_hlc (clock d1) \<le> last_hlc (clock d2)" using Cons.IH [of d1] by (simp add: ks)
  ultimately show ?case by (auto simp: k split: sum.split intro: order_trans)
qed simp

section \<open>One flush\<close>

lemma stamp_put_max:
  assumes "tbl_wf t"
  shows "stamp_put k a (stamp_put k b t) = stamp_put k (max b a) t"
  using assms
  by (intro tbl_get_ext) (auto simp: stampt.wf_put get_stamp_put max.assoc split: option.split)

lemma fold_stamp_put_max:
  assumes "tbl_wf t"
  shows "fold (\<lambda>r. stamp_put k (to_hex (cr_hlc r))) (r # rs) t =
    stamp_put k (to_hex (Max (set (List.map cr_hlc (r # rs))))) t"
proof (induction rs arbitrary: r rule: rev_induct)
  case (snoc s rs)
  have "Max (set (List.map cr_hlc (r # rs @ [s]))) = max (Max (set (List.map cr_hlc (r # rs)))) (cr_hlc s)"
    using Max_insert [of "insert (cr_hlc r) (cr_hlc ` set rs)" "cr_hlc s"]
    by (simp add: insert_commute max.commute del: Max_insert)
  then show ?case using assms snoc by (simp add: stamp_put_max to_hex_max)
qed simp

lemma authored_vv:
  assumes "\<forall>r\<in>set out. cr_origin r = o'" "out \<noteq> []"
  shows "merged_vv (append_log log out) =
     stamp_put o' (to_hex (Max (set (List.map cr_hlc out)))) (merged_vv log)"
proof -
  have "fold (\<lambda>r. stamp_put (cr_origin r) (to_hex (cr_hlc r))) out (merged_vv log) =
      fold (\<lambda>r. stamp_put o' (to_hex (cr_hlc r))) out (merged_vv log)"
    using assms(1) by (intro fold_cong) simp_all
  also have "\<dots> = stamp_put o' (to_hex (Max (set (List.map cr_hlc out)))) (merged_vv log)"
    using assms(2) fold_stamp_put_max [of "merged_vv log" o' "hd out" "tl out"] by simp
  finally show ?thesis unfolding merged_vv_append_log .
qed

definition flushed :: "'a env_scheme \<Rightarrow> change_record list \<Rightarrow> db \<Rightarrow> db \<Rightarrow> bool" where
  "flushed E out d d' \<longleftrightarrow>
     log_ok d' \<and> own_below d' \<and> local_ops d' = []
     \<and> changes d' = append_log (changes d) out
     \<and> last_hlc (clock d) \<le> last_hlc (clock d')
     \<and> sorted_wrt (<) (last_hlc (clock d) # List.map cr_hlc out)
     \<and> (\<forall>r\<in>set out. cr_hlc r \<le> last_hlc (clock d') \<and> cr_origin r = device_id d \<and> signed_here E d r)
     \<and> d' = d\<lparr>local_ops := [], changes := changes d', cells := cells d', tombs := tombs d',
              vv_rows := vv_rows d', clock := clock d'\<rparr>"

lemma flushed_fields:
  assumes "flushed E out d d'"
  shows "log_ok d'" "own_below d'" "local_ops d' = []" "changes d' = append_log (changes d) out"
    "last_hlc (clock d) \<le> last_hlc (clock d')"
    "meta d' = meta d" "guard d' = guard d" "ops_seq d' = ops_seq d" "app d' = app d"
    "synced d' = synced d" "peers d' = peers d" "triggers d' = triggers d" "device_id d' = device_id d"
    "tables d' = tables d" "signer d' = signer d" "require_signatures d' = require_signatures d"
  using assms unfolding flushed_def by (cases d; cases d'; simp)+

lemma flush_local_ok:
  assumes "log_ok d" "own_below d" "clock_room (flush_budget d) (clock d)"
    "flush_local E d = (Inr out, d')"
  shows "flushed E out d d'"
proof (cases "local_ops d = []")
  case True
  then show ?thesis using assms by (simp add: flush_local_def flushed_def)
next
  case False
  obtain order final_op where col: "collapse (local_ops d) = (order, final_op)" by fastforce
  let ?gone = "\<lambda>lo. \<not> lo_id lo \<le> Max (set (List.map lo_id (local_ops d)))"
  obtain d1 where keys: "flush_keys E final_op order d = (Inr out, d1)"
    and d': "d' = (if out = [] then d1\<lparr>local_ops := List.filter ?gone (local_ops d1)\<rparr>
       else bump_vv (device_id d1) (Max (set (List.map cr_hlc out)))
              (d1\<lparr>local_ops := List.filter ?gone (local_ops d1)\<rparr>))"
    using assms(4) False col
    by (auto simp: flush_local_def Let_def split: prod.splits sum.splits if_splits)
  have "data_ok d" using assms(1) by (simp add: log_ok_def)
  moreover have "clock_room (keys_budget d order + 0) (clock d)"
    using assms(3) by (simp add: flush_budget_def col)
  ultimately have au: "authored E 0 d out d1"
    using assms(2) keys by (intro flush_keys_authored)
  then have fr: "loop_frame d d1" by (simp add: authored_def)
  have "List.filter ?gone (local_ops d1) = []"
    by (auto simp: loop_frame_fields [OF fr] filter_empty_conv)
  moreover have vv1: "vv_rows d1 = merged_vv (changes d)"
    using assms(1) by (simp add: loop_frame_fields [OF fr] log_ok_def)
  ultimately have d'': "d' = d1\<lparr>local_ops := [], vv_rows := merged_vv (changes d1)\<rparr>"
    using au authored_vv [of out "device_id d" "changes d"]
    by (simp add: d' authored_def bump_vv_eq loop_frame_fields [OF fr])
  moreover have "guard d1 = 0"
    using assms(1) by (simp add: loop_frame_fields [OF fr] log_ok_def)
  ultimately have ok: "log_ok d'" and below: "own_below d'"
    using au by (auto simp: log_ok_def data_ok_def authored_def own_below_def)
  have "d1 = d\<lparr>changes := changes d1, cells := cells d1, tombs := tombs d1, clock := clock d1\<rparr>"
    using fr unfolding loop_frame_def .
  then have "d' = d\<lparr>local_ops := [], changes := changes d', cells := cells d', tombs := tombs d',
              vv_rows := vv_rows d', clock := clock d'\<rparr>"
    unfolding d'' by (cases d; cases d1) simp
  with ok below au show ?thesis by (simp add: flushed_def authored_def d'')
qed

lemma flush_local_failed:
  assumes "flush_local E d = (Inl e, d')"
  shows "d' = d\<lparr>clock := clock d'\<rparr>" "last_hlc (clock d) \<le> last_hlc (clock d')"
proof -
  have "(d' = d\<lparr>clock := clock d'\<rparr>) \<and> last_hlc (clock d) \<le> last_hlc (clock d')"
  proof (cases "d' = d")
    case False
    obtain order final_op where col: "collapse (local_ops d) = (order, final_op)" by fastforce
    obtain d1 where keys: "flush_keys E final_op order d = (Inl e, d1)" and "d' = d\<lparr>clock := clock d1\<rparr>"
      using assms col False
      by (auto simp: flush_local_def Let_def split: prod.splits sum.splits if_splits)
    then show ?thesis using flush_keys_clock_le [of d E final_op order] by simp
  qed simp
  then show "d' = d\<lparr>clock := clock d'\<rparr>" "last_hlc (clock d) \<le> last_hlc (clock d')" by simp_all
qed

end
