(* ===== verification/Reopening.thy ===== *)
theory Reopening
  imports Opening Flushing
begin

text \<open>
  Opening keeps the replicated state: whatever transaction was the last one to commit, the handle
  opened from the file satisfies \<open>log_ok\<close> again, and its clock resumes above every stamp this
  device has handed out.
\<close>

section \<open>Registering a table\<close>

definition register_frame :: "db \<Rightarrow> db \<Rightarrow> bool" where
  "register_frame d d' \<longleftrightarrow>
     d' = d\<lparr>local_ops := local_ops d', ops_seq := ops_seq d', synced := synced d',
           triggers := triggers d', tables := tables d'\<rparr>"

lemma register_frame_fields:
  assumes "register_frame d d'"
  shows "changes d' = changes d" "cells d' = cells d" "tombs d' = tombs d" "vv_rows d' = vv_rows d"
    "meta d' = meta d" "guard d' = guard d" "peers d' = peers d" "app d' = app d" "clock d' = clock d"
    "device_id d' = device_id d" "signer d' = signer d" "require_signatures d' = require_signatures d"
  using assms unfolding register_frame_def by (cases d; cases d'; simp)+

lemma stage_ops_frame:
  "stage_ops t ops d = Inr d' \<Longrightarrow> d' = d\<lparr>local_ops := local_ops d', ops_seq := ops_seq d'\<rparr>"
proof (induction t ops d rule: stage_ops.induct)
  case (3 t pk oper ops d)
  from "3.IH" "3.prems" show ?case by (cases d; cases d') simp
qed simp_all

lemma adopt_rows_frame:
  "adopt_rows E t pk_col d = Inr d' \<Longrightarrow> d' = d\<lparr>local_ops := local_ops d', ops_seq := ops_seq d'\<rparr>"
  by (auto simp: adopt_rows_def split: option.splits dest: stage_ops_frame)

text \<open>The one way to succeed, and the state kept by every way to fail but the last.\<close>

lemma register_table_frame: "register_frame d (snd (register_table E t pk_col d))"
proof -
  have "register_frame d
      (snd (case adopt_rows E t pk_col (install_triggers E t pk_col (d\<lparr>synced := s\<rparr>)) of
         Inl e \<Rightarrow> (Inl e, install_triggers E t pk_col (d\<lparr>synced := s\<rparr>))
       | Inr d1 \<Rightarrow> (Inr spec, d1\<lparr>tables := tbl_put t spec (tables d1)\<rparr>)))" for s spec
  proof (cases "adopt_rows E t pk_col (install_triggers E t pk_col (d\<lparr>synced := s\<rparr>))")
    case (Inl e)
    then show ?thesis by (simp add: register_frame_def install_triggers_def)
  next
    case (Inr d1)
    then show ?thesis
      using adopt_rows_frame [OF Inr]
      by (cases d; cases d1) (simp add: register_frame_def install_triggers_def)
  qed
  then show ?thesis
    by (simp add: register_table_def Let_def register_frame_def split: option.split)
qed

lemma log_ok_register: "register_frame d d' \<Longrightarrow> log_ok d' = log_ok d"
  by (simp add: log_ok_def data_ok_def register_frame_fields)

lemma own_below_register: "register_frame d d' \<Longrightarrow> own_below d' = own_below d"
  by (simp add: own_below_def register_frame_fields)

section \<open>Opening\<close>

lemma migrate_fields [simp]:
  "changes (migrate d) = changes d" "cells (migrate d) = cells d" "tombs (migrate d) = tombs d"
  "vv_rows (migrate d) = vv_rows d" "guard (migrate d) = guard d" "meta (migrate d) = meta d"
  "local_ops (migrate d) = local_ops d" "peers (migrate d) = peers d"
  by (simp_all add: migrate_def create_table_def split: option.split)

lemma max_own_stamp_le:
  "c \<in> set (changes d) \<Longrightarrow> sc_origin c = dev \<Longrightarrow>
     \<exists>h. max_own_stamp d dev = Some h \<and> sc_hlc c \<le> h"
  by (auto simp: max_own_stamp_def Let_def filter_empty_conv)

lemma max_own_stamp_in:
  "max_own_stamp d dev = Some h \<Longrightarrow> \<exists>c\<in>set (changes d). sc_origin c = dev \<and> sc_hlc c = h"
proof -
  assume a: "max_own_stamp d dev = Some h"
  let ?own = "List.map sc_hlc (List.filter (\<lambda>c. sc_origin c = dev) (changes d))"
  have "?own \<noteq> []" "h = Max (set ?own)"
    using a by (auto simp: max_own_stamp_def Let_def split: if_splits)
  then have "h \<in> set ?own" by (metis Max_in List.finite_set set_empty)
  then show ?thesis by auto
qed

lemma data_ok_stamp: "data_ok d \<Longrightarrow> c \<in> set (changes d) \<Longrightarrow> \<exists>h. sc_hlc c = to_hex h"
  unfolding data_ok_def rows_ok_def decodable_def by (metis sc_hlc_stored_of)

text \<open>Registering and opening read four fields of the environment.\<close>

definition same_names :: "'a env_scheme \<Rightarrow> 'b env_scheme \<Rightarrow> bool" where
  "same_names E F \<longleftrightarrow> json_of_cols E = json_of_cols F \<and> cols_of_json E = cols_of_json F
     \<and> alnum_char E = alnum_char F \<and> real_text E = real_text F"

lemma register_agrees:
  assumes "same_names E F"
  shows "register_table E t pk d = register_table F t pk d"
proof -
  note f = assms [unfolded same_names_def, THEN conjunct1] assms [unfolded same_names_def, THEN conjunct2, THEN conjunct2]
  have "cast_text E v = cast_text F v" for v using f(2) by (cases v) simp_all
  then have key: "row_key E = row_key F" by (simp add: fun_eq_iff row_key_def)
  have adopt: "adopt_rows E t p d = adopt_rows F t p d" for t p and d :: db
    unfolding adopt_rows_def key by (rule refl)
  have alnum: "is_alphanumeric E = is_alphanumeric F"
    unfolding fun_eq_iff is_alphanumeric_def f(2) [THEN conjunct1] by simp
  have triggers: "install_triggers E t p d = install_triggers F t p d" for t p and d :: db
    unfolding install_triggers_def trigger_prefix_def alnum by (rule refl)
  show ?thesis unfolding register_table_def f(1) adopt triggers by (rule refl)
qed

lemma from_connection_agrees:
  assumes "same_names E F"
  shows "from_connection E file dev = from_connection F file dev"
proof -
  have cols: "cols_of_json E = cols_of_json F" using assms by (simp add: same_names_def)
  have reload: "reload_table_specs E d = reload_table_specs F d" for d
    unfolding reload_table_specs_def cols by (rule refl)
  show ?thesis
    unfolding from_connection_def attach_def register_agrees [OF assms] reload by (rule refl)
qed

text \<open>What \<open>from_connection\<close> makes of a file; only registering the two standard tables can fail.\<close>

definition opened :: "replica_file \<Rightarrow> string \<Rightarrow> db \<Rightarrow> bool" where
  "opened file dev d \<longleftrightarrow>
     changes d = changes file \<and> cells d = cells file \<and> tombs d = tombs file \<and> vv_rows d = vv_rows file
     \<and> meta d = meta file \<and> guard d = guard file \<and> peers d = peers file \<and> device_id d = dev
     \<and> (case max_own_stamp file dev of None \<Rightarrow> last_hlc (clock d) = hlc_zero
        | Some h \<Rightarrow> from_hex h = Inr (Some (last_hlc (clock d)))
            \<or> from_hex h = Inr None \<and> last_hlc (clock d) = hlc_zero)"

lemma max_own_stamp_migrate [simp]: "max_own_stamp (migrate d) dev = max_own_stamp d dev"
  by (simp add: max_own_stamp_def)

lemma from_connection_opened:
  assumes "from_connection E file dev = Inr d"
  shows "opened file dev d"
proof -
  obtain resume where resume: "(case max_own_stamp file dev of None \<Rightarrow> Inr None | Some h \<Rightarrow> from_hex h)
      = Inr resume"
    using assms by (auto simp: from_connection_def Let_def split: sum.splits)
  define clk where "clk = (case resume of Some h \<Rightarrow> resuming_from h | None \<Rightarrow> new_clock)"
  define d0 where "d0 = reload_table_specs E (replica_file.extend (migrate file)
      \<lparr>clock = clk, device_id = dev, tables = [], signer = None, require_signatures = False\<rparr>)"
  obtain x d1 where r1: "register_table E ''messages'' ''id'' d0 = (Inr x, d1)"
    and r2: "snd (register_table E ''records'' ''id'' d1) = d"
    using assms resume
    by (auto simp: from_connection_def attach_def Let_def clk_def d0_def split: prod.splits sum.splits)
  have f: "register_frame d0 d1" "register_frame d1 d"
    using register_table_frame [of d0 E "''messages''" "''id''"]
      register_table_frame [of d1 E "''records''" "''id''"] r1 r2 by simp_all
  have "last_hlc clk = (case resume of Some h \<Rightarrow> h | None \<Rightarrow> hlc_zero)"
    by (simp add: clk_def resuming_from_def new_clock_def split: option.split)
  then show ?thesis
    using resume
    by (auto simp: opened_def register_frame_fields [OF f(1)] register_frame_fields [OF f(2)] d0_def
        reload_table_specs_def replica_file.defs split: option.splits)
qed

lemma opened_own_below:
  assumes "data_ok file" "opened file dev d"
  shows "own_below d"
  unfolding own_below_def
proof (intro ballI impI)
  fix c assume c: "c \<in> set (changes d)" "sc_origin c = device_id d"
  then have c': "c \<in> set (changes file)" "sc_origin c = dev"
    using assms(2) by (simp_all add: opened_def)
  obtain h where h: "max_own_stamp file dev = Some h" "sc_hlc c \<le> h"
    using max_own_stamp_le [OF c'] by blast
  then obtain s where "h = to_hex s"
    using max_own_stamp_in [OF h(1)] data_ok_stamp [OF assms(1)] by blast
  then have "last_hlc (clock d) = s" using assms(2) h(1) by (simp add: opened_def)
  with h(2) \<open>h = to_hex s\<close> show "sc_hlc c \<le> to_hex (last_hlc (clock d))" by simp
qed

lemma opened_log_ok: "log_ok file \<Longrightarrow> opened file dev d \<Longrightarrow> log_ok d"
  by (simp add: opened_def log_ok_def data_ok_def)

lemma log_ok_truncate [simp]: "log_ok (replica_file.truncate d) = log_ok d"
  by (simp add: log_ok_def data_ok_def replica_file.defs)

lemma changes_truncate [simp]: "changes (replica_file.truncate d) = changes d"
  by (simp add: replica_file.defs)

end
