(* ===== verification/Network.thy ===== *)
theory Network
  imports Reopening
begin

text \<open>
  An organisation of replicas on a network that belongs to whoever likes: anything may be delivered to a
  replica, in any order and number, made up or not, and by outsiders who sign with keys of their own.
  Replicas crash and restart.  Each is a handle of the model; a step is one call of its interface.

  What is assumed of a delivery is \<open>unforged\<close>: nobody signs for a device of \<open>D\<close> but that device.  \<open>net_ok\<close>
  holds in every reachable state, and from it convergence follows: two replicas that hold the same stamps
  hold the same cells, tombstones and version vector, unless an outsider signed two records with one stamp.
\<close>

section \<open>Steps\<close>

record network =
  nodes :: "(string \<times> db) list"
  sent :: "change_record list"      \<comment> \<open>every record any replica ever returned from a flush\<close>

definition set_node :: "string \<Rightarrow> db \<Rightarrow> network \<Rightarrow> network" where
  "set_node dev d N = N\<lparr>nodes := tbl_put dev d (nodes N)\<rparr>"

definition send :: "change_record list \<Rightarrow> network \<Rightarrow> network" where
  "send rs N = N\<lparr>sent := sent N @ rs\<rparr>"

definition start :: network where
  "start = \<lparr>nodes = [], sent = []\<rparr>"

text \<open>
  Records that reach a replica \<open>d\<close> while \<open>S\<close> is what the devices of \<open>D\<close> have published: of the records that
  name such a device as their author, those that \<open>d\<close> would take for genuine are published ones.  For a
  replica that requires signatures this is the unforgeability of the devices' signatures, and it says
  nothing of records without a valid signature or of other authors; a replica opened without a key believes
  what it is told, and there it is trust in the transport.
\<close>

definition unforged ::
  "'x env_scheme \<Rightarrow> string set \<Rightarrow> change_record set \<Rightarrow> db \<Rightarrow> change_record list \<Rightarrow> bool" where
  "unforged E D S d rs \<longleftrightarrow>
     (\<forall>r\<in>set rs. cr_origin r \<in> D \<and> (require_signatures d \<longrightarrow> verify_author E r = Inr ()) \<longrightarrow> r \<in> S)"

lemma unforged_sub: "unforged E D S d rs \<Longrightarrow> set qs \<subseteq> set rs \<Longrightarrow> unforged E D S d qs"
  unfolding unforged_def by blast

lemma unforged_mono: "unforged E D S d rs \<Longrightarrow> S \<subseteq> T \<Longrightarrow> unforged E D T d rs"
  unfolding unforged_def by blast

lemma unforged_admitted:
  assumes "unforged E D S d rs" "r \<in> set (fst (admit E (require_signatures d) rs))" "cr_origin r \<in> D"
  shows "r \<in> S"
proof -
  have "r \<in> set rs \<and> (require_signatures d \<longrightarrow> verify_author E r = Inr ())"
    using assms(2) by (induction rs) (auto simp: split_beta Let_def split: if_splits)
  with assms(1,3) show ?thesis unfolding unforged_def by blast
qed

text \<open>
  Each step may see another environment of the set \<open>Es\<close>: system clocks differ and jump, and constraints
  of a table change with the application's version.  \<open>Bookkeep\<close> stands for the calls that write metadata, the peer
  table or the registration of a table.
\<close>

definition open_file :: "'x env_scheme \<Rightarrow> replica_file \<Rightarrow> string \<Rightarrow> bytes option \<Rightarrow> db result" where
  "open_file E file dev key =
     (case key of None \<Rightarrow> from_connection E file dev | Some sk \<Rightarrow> open_authenticated E file sk)"

text \<open>A file before its first use: the application may have created its tables, nothing is replicated.\<close>

definition unused :: "replica_file \<Rightarrow> bool" where
  "unused file \<longleftrightarrow> changes file = [] \<and> cells file = [] \<and> tombs file = [] \<and> vv_rows file = []
     \<and> guard file = 0"

inductive bookkeep :: "'x env_scheme \<Rightarrow> db \<Rightarrow> db \<Rightarrow> bool" for E where
  Register: "bookkeep E d (snd (register_table E t pk d))"
| Meta: "bookkeep E d (set_meta k v d)"
| Mark: "bookkeep E d (mark_broadcast seq d)"
| Peer: "bookkeep E d (record_peer p u n rl ser cert now d)"
| Touch: "bookkeep E d (touch_peer p now d)"
| Read: "bookkeep E d (d\<lparr>clock := (clock d)\<lparr>reads := n\<rparr>\<rparr>)"

inductive net_step :: "'x env_scheme set \<Rightarrow> string set \<Rightarrow> network \<Rightarrow> network \<Rightarrow> bool" for Es D where
  Create: "\<lbrakk>dev \<in> D; tbl_get (nodes N) dev = None; unused file; E \<in> Es; open_file E file dev key = Inr d; device_id d = dev\<rbrakk>
     \<Longrightarrow> net_step Es D N (set_node dev d N)"
| Restart: "\<lbrakk>tbl_get (nodes N) dev = Some d0; E \<in> Es; open_file E (replica_file.truncate d0) dev key = Inr d;
     device_id d = dev\<rbrakk> \<Longrightarrow> net_step Es D N (set_node dev d N)"
| Write: "\<lbrakk>tbl_get (nodes N) dev = Some d0; E \<in> Es; apply_writes E ws d0 = Inr d\<rbrakk>
     \<Longrightarrow> net_step Es D N (set_node dev d N)"
| Flush: "\<lbrakk>tbl_get (nodes N) dev = Some d0; E \<in> Es; clock_room (flush_budget d0) (clock d0);
     flush_local E d0 = (Inr out, d)\<rbrakk> \<Longrightarrow> net_step Es D N (send out (set_node dev d N))"
| Flush_failed: "\<lbrakk>tbl_get (nodes N) dev = Some d0; E \<in> Es; flush_local E d0 = (Inl e, d)\<rbrakk>
     \<Longrightarrow> net_step Es D N (set_node dev d N)"
| Deliver: "\<lbrakk>tbl_get (nodes N) dev = Some d0; E \<in> Es; unforged E D (set (sent N)) d0 rs; apply_remote E rs d0 = (out, d)\<rbrakk>
     \<Longrightarrow> net_step Es D N (set_node dev d N)"
| Pull: "\<lbrakk>tbl_get (nodes N) dev = Some d0; tbl_get (nodes N) peer = Some p; E \<in> Es;
     changes_since p vv limit = Inr rs; apply_remote E rs d0 = (out, d)\<rbrakk>
     \<Longrightarrow> net_step Es D N (set_node dev d N)"
| Bookkeep: "\<lbrakk>tbl_get (nodes N) dev = Some d0; E \<in> Es; bookkeep E d0 d\<rbrakk>
     \<Longrightarrow> net_step Es D N (set_node dev d N)"

inductive reachable :: "'x env_scheme set \<Rightarrow> string set \<Rightarrow> network \<Rightarrow> bool" for Es D where
  Start: "reachable Es D start"
| Step: "reachable Es D N \<Longrightarrow> net_step Es D N M \<Longrightarrow> reachable Es D M"

inductive_cases net_stepE: "net_step Es D N M"

section \<open>The invariant\<close>

definition node_ok :: "db \<Rightarrow> bool" where
  "node_ok d \<longleftrightarrow> log_ok d \<and> own_below d"

text \<open>The rows of a log that name a device of \<open>D\<close> as their author.\<close>

definition own_rows :: "string set \<Rightarrow> 'a replica_file_scheme \<Rightarrow> stored_change set" where
  "own_rows D d = content ` {c \<in> set (changes d). sc_origin c \<in> D}"

lemma own_rows_iff: "x \<in> own_rows D d \<longleftrightarrow> x \<in> content ` set (changes d) \<and> sc_origin x \<in> D"
  by (force simp: own_rows_def)

definition net_ok :: "string set \<Rightarrow> network \<Rightarrow> bool" where
  "net_ok D N \<longleftrightarrow>
     (\<forall>dev d. tbl_get (nodes N) dev = Some d \<longrightarrow> dev \<in> D \<and> node_ok d \<and> device_id d = dev
        \<and> own_rows D d \<subseteq> stored_of 0 ` set (sent N))
     \<and> (\<forall>r\<in>set (sent N). \<exists>d. tbl_get (nodes N) (cr_origin r) = Some d
        \<and> stored_of 0 r \<in> content ` set (changes d))"

lemma net_okD:
  assumes "net_ok D N" "tbl_get (nodes N) dev = Some d"
  shows "node_ok d" "device_id d = dev" "own_rows D d \<subseteq> stored_of 0 ` set (sent N)" "dev \<in> D"
  using assms by (auto simp: net_ok_def)

lemma sent_held:
  assumes "net_ok D N" "r \<in> set (sent N)" "tbl_get (nodes N) (cr_origin r) = Some d"
  shows "stored_of 0 r \<in> content ` set (changes d)"
  using assms by (auto simp: net_ok_def)

text \<open>A replica replaced by one whose log has grown, of the devices' records only by published ones.\<close>

lemma net_ok_set_node:
  assumes "net_ok D N" "dev \<in> D" "node_ok d" "device_id d = dev"
    and "own_rows D d \<subseteq> stored_of 0 ` (set (sent N) \<union> set rs)"
    and "\<forall>d0. tbl_get (nodes N) dev = Some d0 \<longrightarrow> content ` set (changes d0) \<subseteq> content ` set (changes d)"
    and "\<forall>r\<in>set rs. cr_origin r = dev \<and> stored_of 0 r \<in> content ` set (changes d)"
  shows "net_ok D (send rs (set_node dev d N))"
proof -
  have "tbl_get (nodes N) e = Some f \<Longrightarrow> own_rows D f \<subseteq> stored_of 0 ` (set (sent N) \<union> set rs)" for e f
    using assms(1) unfolding net_ok_def by blast
  then have a: "\<forall>e f. tbl_get (nodes (set_node dev d N)) e = Some f \<longrightarrow> e \<in> D \<and> node_ok f \<and> device_id f = e
      \<and> own_rows D f \<subseteq> stored_of 0 ` (set (sent N) \<union> set rs)"
    using assms(1-5) by (auto simp: set_node_def tbl_get_put net_ok_def split: if_splits)
  have b: "\<exists>f. tbl_get (nodes (set_node dev d N)) (cr_origin r) = Some f
      \<and> stored_of 0 r \<in> content ` set (changes f)" if "r \<in> set (sent N) \<union> set rs" for r
    using that assms(1,6,7) by (fastforce simp: set_node_def tbl_get_put net_ok_def)
  from a b show ?thesis
    unfolding net_ok_def send_def by (simp add: set_node_def)
qed

lemma send_Nil [simp]: "send [] N = N"
  by (simp add: send_def)

lemmas net_ok_set_node_same = net_ok_set_node [where rs = "[]", simplified]

text \<open>A step that keeps the log of the replica.\<close>

lemma net_ok_same_log:
  assumes "net_ok D N" "tbl_get (nodes N) dev = Some d0" "node_ok d" "device_id d = dev"
    "changes d = changes d0"
  shows "net_ok D (set_node dev d N)"
  using assms net_okD(3,4) [OF assms(1,2)]
  by (intro net_ok_set_node_same) (auto simp: own_rows_def)

lemma bookkeep_keeps:
  assumes "bookkeep E d d'"
  shows "changes d' = changes d" "device_id d' = device_id d" "node_ok d' = node_ok d"
proof -
  have "changes d' = changes d \<and> device_id d' = device_id d \<and> node_ok d' = node_ok d"
    using assms
  proof cases
    case (Register t pk)
    then show ?thesis
      using register_table_frame [of d E t pk]
      by (simp add: register_frame_fields node_ok_def log_ok_register own_below_register)
  qed (auto simp: node_ok_def log_ok_def data_ok_def own_below_def set_meta_def mark_broadcast_def
      record_peer_def touch_peer_def split: option.split)
  then show "changes d' = changes d" "device_id d' = device_id d" "node_ok d' = node_ok d" by simp_all
qed

lemma open_file_ok:
  assumes "open_file E file dev key = Inr d" "log_ok file"
  shows "node_ok d" "changes d = changes file"
proof -
  have ok: "node_ok d0 \<and> changes d0 = changes file" if "from_connection E file v = Inr d0" for v d0
    using opened_log_ok [OF assms(2) from_connection_opened [OF that]]
      opened_own_below [OF _ from_connection_opened [OF that]] from_connection_opened [OF that] assms(2)
    by (simp add: node_ok_def log_ok_def) (simp add: opened_def)
  have "node_ok d \<and> changes d = changes file"
  proof (cases key)
    case None
    then show ?thesis using ok assms(1) by (simp add: open_file_def)
  next
    case (Some sk)
    then obtain v d0 where "from_connection E file v = Inr d0"
      "d = d0\<lparr>signer := Some sk, require_signatures := True\<rparr>"
      using assms(1) by (auto simp: open_file_def open_authenticated_def split: sum.splits)
    moreover have "node_ok (d0\<lparr>signer := k, require_signatures := q\<rparr>) = node_ok d0" for k q
      by (simp add: node_ok_def log_ok_def data_ok_def own_below_def)
    ultimately show ?thesis using ok [of v d0] by simp
  qed
  then show "node_ok d" "changes d = changes file" by simp_all
qed

text \<open>
  A delivery.  The device's own records among those it takes for genuine were published, so they are all
  held already: nothing can be added in the device's name.
\<close>

lemma apply_unforged_ok:
  assumes "net_ok D N" "tbl_get (nodes N) dev = Some d0" "unforged E D (set (sent N)) d0 rs"
    "apply_remote E rs d0 = (out, d)"
  shows "net_ok D (set_node dev d N)"
proof -
  let ?new = "new_records E rs d0"
  note ok = net_okD [OF assms(1,2)]
  have st: "applied_state E ?new d0 d"
    using apply_remote_state [of d0 E rs] ok(1) assms(4) by (simp add: node_ok_def)
  note f = applied_state_fields [OF st]
  have sub: "r \<in> set (sent N)" if "r \<in> set ?new" "cr_origin r \<in> D" for r
    using unforged_admitted [OF assms(3) _ that(2)] that(1) new_records_sub [of E rs d0]
    by (auto simp: admit_split)
  have cont: "content ` set (changes d) = content ` set (changes d0) \<union> stored_of 0 ` set ?new"
    unfolding f(2) using append_log_content [of "changes d0" ?new] by (metis list.set_map set_append)
  then have own: "own_rows D d \<subseteq> own_rows D d0 \<union> stored_of 0 ` set (sent N)"
    using sub by (auto simp: own_rows_iff)
  have foreign: "cr_origin r \<noteq> dev" if "r \<in> set ?new" for r
  proof
    assume "cr_origin r = dev"
    with that sub ok(4) have "stored_of 0 r \<in> content ` set (changes d0)"
      using sent_held [OF assms(1)] assms(2) by blast
    then have "record_key r \<in> change_key ` set (changes d0)"
      by (metis change_key_stored_of content_fields(11) image_iff)
    moreover have "record_key ` set ?new \<inter> change_key ` set (changes d0) = {}"
      using fresh_records_iff(1) [of "List.map change_key (changes d0)" "admitted E rs d0"]
      by (auto simp: new_records_def fresh_in_def)
    ultimately show False using that by blast
  qed
  have clk: "last_hlc (clock d0) \<le> last_hlc (clock d)"
  proof -
    have "last_hlc c \<le> last_hlc (fold (\<lambda>r c. snd (observe (wall E) (cr_hlc r) c)) qs c)" for qs c
    proof (induction qs arbitrary: c)
      case (Cons q qs)
      show ?case
        using Cons.IH [of "snd (observe (wall E) (cr_hlc q) c)"] observe_ge [of c "wall E" "cr_hlc q"]
        by (simp add: observe_snd)
    qed simp
    then show ?thesis by (simp add: f(3))
  qed
  have below: "own_below d"
    unfolding own_below_def
  proof (intro ballI impI)
    fix c assume c: "c \<in> set (changes d)" "sc_origin c = device_id d"
    then have "content c \<in> content ` set (changes d0) \<union> stored_of 0 ` set ?new" using cont by blast
    then have "content c \<in> content ` set (changes d0)"
      using foreign c(2) f(11) ok(2) by (metis UnE content_fields(7) image_iff sc_origin_stored_of)
    then obtain c0 where "c0 \<in> set (changes d0)" "content c = content c0" by blast
    then have "sc_hlc c \<le> to_hex (last_hlc (clock d0))"
      using ok(1,2) c(2) f(11) unfolding node_ok_def own_below_def by (metis content_fields(6,7))
    with clk show "sc_hlc c \<le> to_hex (last_hlc (clock d))" by (meson order_trans to_hex_le)
  qed
  show ?thesis
    using assms(1,2) f(1,11) below cont own ok
    by (intro net_ok_set_node_same) (auto simp: node_ok_def)
qed

text \<open>What a replica serves: of the devices' records, published ones.\<close>

lemma served_sent:
  assumes "net_ok D N" "tbl_get (nodes N) peer = Some p" "changes_since p vv limit = Inr rs"
    "r \<in> set rs" "cr_origin r \<in> D"
  shows "r \<in> set (sent N)"
proof -
  note ok = net_okD [OF assms(1,2)]
  have "stored_of 0 r \<in> content ` set (changes p)"
    using ok(1) assms(3,4) by (intro changes_since_rows) (simp_all add: node_ok_def log_ok_def)
  with assms(5) have "stored_of 0 r \<in> own_rows D p" by (simp add: own_rows_iff)
  with ok(3) obtain s where "s \<in> set (sent N)" "stored_of 0 r = stored_of 0 s" by blast
  then show ?thesis by (simp add: stored_of_inject)
qed

lemma served_unforged:
  assumes "net_ok D N" "tbl_get (nodes N) peer = Some p" "changes_since p vv limit = Inr rs"
  shows "unforged E D (set (sent N)) d rs"
  using served_sent [OF assms] unfolding unforged_def by blast

lemma flush_ok:
  assumes "net_ok D N" "tbl_get (nodes N) dev = Some d0" "flushed E out d0 d"
  shows "net_ok D (send out (set_node dev d N))"
proof -
  note ok = net_okD [OF assms(1,2)] and f = flushed_fields [OF assms(3)]
  have cont: "content ` set (changes d) = content ` set (changes d0) \<union> stored_of 0 ` set out"
    unfolding f(4) using append_log_content [of "changes d0" out] by (metis list.set_map set_append)
  then have "own_rows D d \<subseteq> own_rows D d0 \<union> stored_of 0 ` set out" by (auto simp: own_rows_iff)
  with ok(3) have "own_rows D d \<subseteq> stored_of 0 ` (set (sent N) \<union> set out)" by blast
  moreover have "\<forall>r\<in>set out. cr_origin r = dev" using assms(3) ok(2) by (simp add: flushed_def)
  ultimately show ?thesis
    using assms(1,2) f(1,2,13) ok cont
    by (intro net_ok_set_node) (auto simp: node_ok_def)
qed

lemma net_step_ok: "net_step Es D N M \<Longrightarrow> net_ok D N \<Longrightarrow> net_ok D M"
proof (induction rule: net_step.induct)
  case (Create dev N fl E key d)
  have "log_ok fl"
    using Create(3)
    by (simp add: unused_def log_ok_def data_ok_def rows_ok_def seqs_ok_def merged_defs entry_defs)
  note o = open_file_ok [OF Create(5) this]
  have "changes d = []" using Create(3) by (simp add: o(2) unused_def)
  with Create o show ?case by (intro net_ok_set_node_same) (simp_all add: own_rows_def)
next
  case (Restart N dev d0 E key d)
  have "log_ok (replica_file.truncate d0)"
    using net_okD(1) [OF Restart(5,1)] by (simp add: node_ok_def)
  note o = open_file_ok [OF Restart(3) this]
  show ?case
    using Restart o by (intro net_ok_same_log [of D N dev d0]) simp_all
next
  case (Write N dev d0 E ws d)
  have a: "app_only d0 d" using Write(3) by (rule apply_writes_app_only)
  show ?case
    using net_okD [OF Write(4,1)]
    by (intro net_ok_same_log [OF Write(4,1)])
       (simp_all add: node_ok_def log_ok_app_only [OF a] own_below_def app_only_fields [OF a] app_only_db [OF a])
next
  case (Flush N dev d0 E out d)
  have "flushed E out d0 d"
    using net_okD(1) [OF Flush(5,1)] Flush by (intro flush_local_ok) (simp_all add: node_ok_def)
  with Flush show ?case by (intro flush_ok)
next
  case (Flush_failed N dev d0 E e d)
  note f = flush_local_failed [OF Flush_failed(3)]
  have "changes d = changes d0" "device_id d = device_id d0" "log_ok d = log_ok d0"
    by (subst f(1), simp add: log_ok_def data_ok_def)+
  then show ?case
    using net_okD [OF Flush_failed(4,1)] f(2)
    by (intro net_ok_same_log [OF Flush_failed(4,1)])
       (auto simp: node_ok_def own_below_def intro: order_trans)
next
  case (Deliver N dev d0 rs E out d)
  then show ?case by (intro apply_unforged_ok)
next
  case (Pull N dev d0 peer p vv limit rs E out d)
  then show ?case by (intro apply_unforged_ok served_unforged) 
next
  case (Bookkeep N dev d0 E d)
  then show ?case
    using net_okD [OF Bookkeep(4,1)] bookkeep_keeps [OF Bookkeep(3)]
    by (intro net_ok_same_log [OF Bookkeep(4,1)]) simp_all
qed

lemma reachable_ok: "reachable Es D N \<Longrightarrow> net_ok D N"
proof (induction rule: reachable.induct)
  case Start
  show ?case by (simp add: start_def net_ok_def)
qed (rule net_step_ok)

section \<open>Convergence\<close>

text \<open>A stamp and its author name one record, wherever it is held.\<close>

lemma sent_unique:
  assumes "net_ok D N" "r \<in> set (sent N)" "s \<in> set (sent N)" "record_key r = record_key s"
  shows "r = s"
proof -
  have "cr_origin r = cr_origin s" using assms(4) by (simp add: record_key_def)
  then obtain d where d: "tbl_get (nodes N) (cr_origin r) = Some d"
    and held: "stored_of 0 r \<in> content ` set (changes d)" "stored_of 0 s \<in> content ` set (changes d)"
    using assms(1-3) unfolding net_ok_def by (metis option.inject)
  then obtain c e where c: "c \<in> set (changes d)" "content c = stored_of 0 r"
    and e: "e \<in> set (changes d)" "content e = stored_of 0 s" by force
  then have "change_key c = change_key e"
    using assms(4) by (metis change_key_stored_of content_fields(11))
  moreover have "distinct (List.map change_key (changes d))"
    using net_okD(1) [OF assms(1) d] by (simp add: node_ok_def log_ok_def data_ok_def rows_ok_def)
  ultimately have "c = e" using c(1) e(1) by (simp add: distinct_map inj_on_def)
  with c(2) e(2) show "r = s" by (metis stored_of_inject)
qed

text \<open>
  Two logs agree on outsiders if no outsider's stamp stands for one record in the first and another in the
  second.  It is all that has to be known of authors whose keys are not those of the devices.
\<close>

definition outsiders_agree :: "string set \<Rightarrow> 'a replica_file_scheme \<Rightarrow> 'b replica_file_scheme \<Rightarrow> bool" where
  "outsiders_agree D d e \<longleftrightarrow> (\<forall>c\<in>set (changes d). \<forall>f\<in>set (changes e).
     sc_origin c \<notin> D \<longrightarrow> change_key c = change_key f \<longrightarrow> content c = content f)"

lemma outsiders_agree_sym: "outsiders_agree D d e \<Longrightarrow> outsiders_agree D e d"
  unfolding outsiders_agree_def by (metis change_key_def prod.inject)

lemma same_keys_same_content:
  assumes "net_ok D N" "tbl_get (nodes N) a = Some d" "tbl_get (nodes N) b = Some e" "outsiders_agree D d e"
    "change_key ` set (changes d) \<subseteq> change_key ` set (changes e)"
  shows "content ` set (changes d) \<subseteq> content ` set (changes e)"
proof
  fix x assume "x \<in> content ` set (changes d)"
  then obtain c where c: "c \<in> set (changes d)" "x = content c" by blast
  with assms(5) obtain f where f: "f \<in> set (changes e)" "change_key f = change_key c" by force
  have "content c = content f"
  proof (cases "sc_origin c \<in> D")
    case True
    then have "sc_origin f \<in> D" using f(2) by (simp add: change_key_def)
    with True c(1) f(1) have "content c \<in> own_rows D d" "content f \<in> own_rows D e"
      by (auto simp: own_rows_iff)
    with net_okD(3) [OF assms(1,2)] net_okD(3) [OF assms(1,3)]
    obtain r s where r: "r \<in> set (sent N)" "content c = stored_of 0 r"
      and s: "s \<in> set (sent N)" "content f = stored_of 0 s"
      by (metis (no_types, lifting) image_iff subset_iff)
    then have "record_key r = record_key s"
      using f(2) by (metis change_key_stored_of content_fields(11))
    with sent_unique [OF assms(1) r(1) s(1)] r(2) s(2) show ?thesis by simp
  next
    case False
    then show ?thesis using assms(4) c(1) f by (simp add: outsiders_agree_def)
  qed
  with f(1) c(2) show "x \<in> content ` set (changes e)" by blast
qed

lemma log_ok_merge:
  assumes "log_ok d" "log_ok e" "content ` set (changes d) = content ` set (changes e)"
  shows "cells d = cells e" "tombs d = tombs e" "vv_rows d = vv_rows e"
proof -
  let ?l = "List.map content (changes d)" and ?m = "List.map content (changes e)"
  have "distinct (List.map change_key (changes d))"
    using assms(1) by (simp add: log_ok_def data_ok_def rows_ok_def)
  then have "unique_stamps (set ?l)"
    by (auto simp: unique_stamps_def inj_on_def distinct_map)
  moreover have "set ?l = set ?m" using assms(3) by simp
  ultimately have "merged_cells ?l = merged_cells ?m" "merged_tombs ?l = merged_tombs ?m"
    "merged_vv ?l = merged_vv ?m"
    by (simp_all only: merged_set_eq [of ?l ?m])
  with assms(1,2) show "cells d = cells e" "tombs d = tombs e" "vv_rows d = vv_rows e"
    by (simp_all only: merged_content log_ok_def data_ok_def)
qed

lemma converge:
  assumes "net_ok D N" "tbl_get (nodes N) a = Some d" "tbl_get (nodes N) b = Some e" "outsiders_agree D d e"
    "change_key ` set (changes d) = change_key ` set (changes e)"
  shows "cells d = cells e \<and> tombs d = tombs e \<and> vv_rows d = vv_rows e"
proof -
  have "content ` set (changes d) = content ` set (changes e)"
    using same_keys_same_content [OF assms(1-4)]
      same_keys_same_content [OF assms(1,3,2) outsiders_agree_sym [OF assms(4)]] assms(5) by blast
  then show ?thesis
    using net_okD(1) [OF assms(1,2)] net_okD(1) [OF assms(1,3)] log_ok_merge [of d e]
    by (simp add: node_ok_def)
qed

end
