(* ===== verification/Samples.thy ===== *)
theory Samples
  imports Network
begin

text \<open>
  Concrete replicas, on which the properties are instantiated: an environment without constraints
  whose clock gains a millisecond per reading, one application table \<open>n\<close> with the key \<open>k\<close> and the
  column \<open>v\<close>, and a run in which replica \<open>a\<close> writes a row and replica \<open>b\<close> receives it.
\<close>

fun split_names :: "string \<Rightarrow> string \<Rightarrow> string list" where
  "split_names acc [] = []"
| "split_names acc (c # cs) =
     (if c = CHR '','' then acc # split_names [] cs else split_names (acc @ [c]) cs)"

definition toy_env :: env where
  "toy_env = crypto.extend toy_crypto
     \<lparr>wall = (\<lambda>n. 1000 + word_of_nat n),
      json_of_cols = (\<lambda>cs. concat (List.map (\<lambda>c. c @ '','') cs)),
      cols_of_json = (\<lambda>s. Some (split_names [] s)),
      affinity = (\<lambda>t c v. v), col_default = (\<lambda>t c. VNull), row_ok = (\<lambda>t r. True),
      unique_ok = (\<lambda>t rs r. True), real_text = (\<lambda>f. []), alnum_char = (\<lambda>b. False)\<rparr>"

definition notes_file :: replica_file where
  "notes_file = empty_file\<lparr>app := [(''n'', \<lparr>at_info = [(''k'', 1), (''v'', 0)], at_rows = []\<rparr>)]\<rparr>"

definition notes_spec :: table_spec where
  "notes_spec = \<lparr>ts_name = ''n'', ts_pk_col = ''k'', ts_cols = [''v'']\<rparr>"

definition the_db :: "db result \<Rightarrow> db" where
  "the_db r = (case r of Inr d \<Rightarrow> d
     | Inl e \<Rightarrow> replica_file.extend empty_file
         \<lparr>clock = new_clock, device_id = [], tables = [], signer = None, require_signatures = False\<rparr>)"

definition new_node :: "string \<Rightarrow> db" where
  "new_node dev = snd (register_table toy_env ''n'' ''k'' (the_db (from_connection toy_env notes_file dev)))"

definition a_note :: row where
  "a_note = [(''k'', VText ''1''), (''v'', VInt 5)]"

definition opened_node :: "string \<Rightarrow> db" where
  "opened_node dev = the_db (from_connection toy_env notes_file dev)"

definition ok_result :: "'x result \<Rightarrow> bool" where
  "ok_result r \<longleftrightarrow> (case r of Inl e \<Rightarrow> False | Inr x \<Rightarrow> True)"

lemma the_db_ok: "ok_result r \<Longrightarrow> r = Inr (the_db r)"
  by (simp add: ok_result_def the_db_def split: sum.splits)

definition a_written :: db where
  "a_written = the_db (apply_writes toy_env [WInsert ''n'' a_note] (new_node ''a''))"

definition a_records :: "change_record list" where
  "a_records = (case fst (flush_local toy_env a_written) of Inr out \<Rightarrow> out | Inl e \<Rightarrow> [])"

definition a_flushed :: db where
  "a_flushed = snd (flush_local toy_env a_written)"

definition b_received :: db where
  "b_received = snd (apply_remote toy_env a_records (new_node ''b''))"

definition a_record :: change_record where
  "a_record = \<lparr>cr_tbl = ''n'', cr_pk = ''1'', cr_col = ''v'', cr_value = VInt 5, cr_hlc = Hlc 1000 0,
     cr_origin = ''a'', cr_kind = Cell, cr_sig = []\<rparr>"

text \<open>The states of the run, each computed from the one before.\<close>

definition started :: "string \<Rightarrow> db" where
  "started dev =
     \<lparr>meta = [], guard = 0, local_ops = [], ops_seq = 0, cells = [], tombs = [], changes = [], vv_rows = [],
      synced = [(''messages'', ''id'', ''room,author,author_name,body,sent_at_ms,''), (''n'', ''k'', ''v,''),
        (''records'', ''id'', ''collection,title,body,status,updated_by,updated_at_ms,'')],
      peers = [],
      triggers = [(''_p2p_cap_messages'', ''messages'', ''id''), (''_p2p_cap_n'', ''n'', ''k''),
        (''_p2p_cap_records'', ''records'', ''id'')],
      app = [(''messages'', messages_table), (''n'', \<lparr>at_info = [(''k'', 1), (''v'', 0)], at_rows = []\<rparr>),
        (''records'', records_table)],
      clock = new_clock, device_id = dev,
      tables = [(''messages'', \<lparr>ts_name = ''messages'', ts_pk_col = ''id'',
           ts_cols = [''room'', ''author'', ''author_name'', ''body'', ''sent_at_ms'']\<rparr>), (''n'', notes_spec),
        (''records'', \<lparr>ts_name = ''records'', ts_pk_col = ''id'',
           ts_cols = [''collection'', ''title'', ''body'', ''status'', ''updated_by'', ''updated_at_ms'']\<rparr>)],
      signer = None, require_signatures = False\<rparr>"

definition with_note :: "db \<Rightarrow> db" where
  "with_note d = d\<lparr>app := [(''messages'', messages_table),
     (''n'', \<lparr>at_info = [(''k'', 1), (''v'', 0)], at_rows = [a_note]\<rparr>), (''records'', records_table)]\<rparr>"

definition note_logged :: "u32 \<Rightarrow> db \<Rightarrow> db" where
  "note_logged n d = (with_note d)\<lparr>
     cells := [((''n'', ''1'', ''v''), \<lparr>cl_val = Some [5, 0, 0, 0, 0, 0, 0, 0], cl_vtype = 1,
       cl_hlc = ''00000000000003e800000000'', cl_origin = ''a''\<rparr>)],
     changes := [stored_of 1 a_record], vv_rows := [(''a'', ''00000000000003e800000000'')],
     clock := \<lparr>last_hlc = Hlc 1000 n, reads = 1\<rparr>\<rparr>"

lemma new_node_eq: "new_node ''a'' = started ''a''" "new_node ''b'' = started ''b''"
  by code_simp+

lemma a_written_eq:
  "a_written = (with_note (started ''a''))\<lparr>ops_seq := 1,
     local_ops := [\<lparr>lo_id = 1, lo_tbl = ''n'', lo_pk = ''1'', lo_op = ''upsert''\<rparr>]\<rparr>"
  unfolding a_written_def new_node_eq by code_simp

lemma sample_flushed: "flush_local toy_env a_written = (Inr [a_record], (note_logged 0 (started ''a''))\<lparr>ops_seq := 1\<rparr>)"
  unfolding a_written_eq by code_simp

lemma sample_records: "a_records = [a_record]"
  by (simp add: a_records_def sample_flushed)

lemma a_flushed_eq: "a_flushed = (note_logged 0 (started ''a''))\<lparr>ops_seq := 1\<rparr>"
  by (simp add: a_flushed_def sample_flushed)

lemma sample_flush: "flush_local toy_env a_written = (Inr a_records, a_flushed)"
  by (simp add: sample_flushed sample_records a_flushed_eq)

lemma b_received_eq: "b_received = note_logged 1 (started ''b'')"
  unfolding b_received_def sample_records new_node_eq by code_simp

lemmas sample_states = new_node_eq a_written_eq a_flushed_eq b_received_eq started_def with_note_def note_logged_def new_clock_def

definition sample_net :: network where
  "sample_net =
     set_node ''b'' b_received (send a_records (set_node ''a'' a_flushed (set_node ''a'' a_written
       (set_node ''b'' (new_node ''b'') (set_node ''b'' (opened_node ''b'')
         (set_node ''a'' (new_node ''a'') (set_node ''a'' (opened_node ''a'') start)))))))"

lemma open_a: "ok_result (from_connection toy_env notes_file ''a'')"
  by code_simp

lemma open_b: "ok_result (from_connection toy_env notes_file ''b'')"
  by code_simp

lemma open_id: "device_id (opened_node ''a'') = ''a''" "device_id (opened_node ''b'') = ''b''"
  by code_simp+

lemma write_a: "ok_result (apply_writes toy_env [WInsert ''n'' a_note] (new_node ''a''))"
  unfolding new_node_eq by code_simp

lemma flush_a: "ok_result (fst (flush_local toy_env a_written))"
  by (simp add: sample_flushed ok_result_def)

lemma written_budget: "flush_budget a_written = 2" "counter (last_hlc (clock a_written)) = 0"
  unfolding a_written_eq by code_simp+

lemma flush_room: "clock_room (flush_budget a_written) (clock a_written)"
  by (simp add: clock_room_def written_budget)

lemma create_node:
  assumes "reachable {toy_env} {''a'', ''b''} N" "tbl_get (nodes N) dev = None" "ok_result (from_connection toy_env notes_file dev)"
    "device_id (opened_node dev) = dev" "dev \<in> {''a'', ''b''}"
  shows "reachable {toy_env} {''a'', ''b''} (set_node dev (new_node dev) (set_node dev (opened_node dev) N))"
proof -
  have "open_file toy_env notes_file dev None = Inr (opened_node dev)"
    using the_db_ok [OF assms(3)] by (simp add: open_file_def opened_node_def)
  moreover have "unused notes_file" by (simp add: unused_def notes_file_def empty_file_def)
  ultimately have r: "reachable {toy_env} {''a'', ''b''} (set_node dev (opened_node dev) N)"
    using assms by (blast intro: reachable.Step net_step.Create)
  have "bookkeep toy_env (opened_node dev) (new_node dev)"
    unfolding new_node_def opened_node_def by (rule bookkeep.Register)
  moreover have "tbl_get (nodes (set_node dev (opened_node dev) N)) dev = Some (opened_node dev)"
    by (simp add: set_node_def tbl_get_put)
  ultimately show ?thesis
    using r by (blast intro: reachable.Step net_step.Bookkeep)
qed

lemma sample_get:
  "tbl_get (nodes sample_net) ''a'' = Some a_flushed"
  "tbl_get (nodes sample_net) ''b'' = Some b_received"
  by (simp_all add: sample_net_def send_def set_node_def tbl_get_put)

lemma sample_reachable: "reachable {toy_env} {''a'', ''b''} sample_net"
proof -
  let ?n1 = "set_node ''a'' (new_node ''a'') (set_node ''a'' (opened_node ''a'') start)"
  let ?n2 = "set_node ''b'' (new_node ''b'') (set_node ''b'' (opened_node ''b'') ?n1)"
  let ?n3 = "set_node ''a'' a_written ?n2"
  let ?n4 = "send a_records (set_node ''a'' a_flushed ?n3)"
  have n1: "reachable {toy_env} {''a'', ''b''} ?n1"
    by (rule create_node [OF reachable.Start _ open_a open_id(1)]) (simp_all add: start_def)
  have n2: "reachable {toy_env} {''a'', ''b''} ?n2"
    by (rule create_node [OF n1 _ open_b open_id(2)]) (simp_all add: start_def set_node_def tbl_get_put)
  have "net_step {toy_env} {''a'', ''b''} ?n2 ?n3"
  proof (rule net_step.Write)
    show "tbl_get (nodes ?n2) ''a'' = Some (new_node ''a'')" by (simp add: set_node_def tbl_get_put)
    show "apply_writes toy_env [WInsert ''n'' a_note] (new_node ''a'') = Inr a_written"
      unfolding a_written_def by (rule the_db_ok [OF write_a])
  qed simp
  with n2 have "reachable {toy_env} {''a'', ''b''} ?n3" by (rule reachable.Step)
  moreover have "net_step {toy_env} {''a'', ''b''} ?n3 ?n4"
  proof (rule net_step.Flush)
    show "tbl_get (nodes ?n3) ''a'' = Some a_written" by (simp add: set_node_def tbl_get_put)
    show "clock_room (flush_budget a_written) (clock a_written)" by (rule flush_room)
    show "flush_local toy_env a_written = (Inr a_records, a_flushed)" by (rule sample_flush)
  qed simp
  ultimately have "reachable {toy_env} {''a'', ''b''} ?n4" by (rule reachable.Step)
  moreover have "net_step {toy_env} {''a'', ''b''} ?n4 (set_node ''b'' b_received ?n4)"
  proof (rule net_step.Deliver)
    show "tbl_get (nodes ?n4) ''b'' = Some (new_node ''b'')"
      by (simp add: set_node_def send_def tbl_get_put)
    show "unforged toy_env {''a'', ''b''} (set (sent ?n4)) (new_node ''b'') a_records"
      by (simp add: send_def unforged_def)
    show "apply_remote toy_env a_records (new_node ''b'') =
        (fst (apply_remote toy_env a_records (new_node ''b'')), b_received)"
      by (simp add: b_received_def)
  qed simp
  ultimately show ?thesis unfolding sample_net_def by (rule reachable.Step)
qed

lemma note_stamp: "to_hex (Hlc 1000 0) = ''00000000000003e800000000''"
  by code_simp

lemma sample_keys:
  "change_key ` set (changes a_flushed) = {(''a'', ''00000000000003e800000000'')}"
  "change_key ` set (changes b_received) = {(''a'', ''00000000000003e800000000'')}"
  by (simp_all add: sample_states change_key_def stored_of_def a_record_def note_stamp)

lemma sample_cells:
  "cells b_received = [((''n'', ''1'', ''v''),
     \<lparr>cl_val = Some [5, 0, 0, 0, 0, 0, 0, 0], cl_vtype = 1,
      cl_hlc = ''00000000000003e800000000'', cl_origin = ''a''\<rparr>)]"
  by (simp add: sample_states)

lemma toy_env_laws: "crypto_laws toy_env"
  using toy_crypto_laws by (simp add: crypto_laws_def toy_env_def crypto.defs toy_crypto_def)

lemma sample_nodes_ok: "node_ok a_flushed" "node_ok b_received"
  using net_okD(1) [OF reachable_ok [OF sample_reachable]] sample_get by blast+

lemma new_node_ok:
  assumes "ok_result (from_connection toy_env notes_file dev)"
  shows "node_ok (new_node dev)" "changes (new_node dev) = []"
proof -
  have "open_file toy_env notes_file dev None = Inr (opened_node dev)"
    using the_db_ok [OF assms] by (simp add: open_file_def opened_node_def)
  moreover have "log_ok notes_file"
    by (simp add: notes_file_def empty_file_def log_ok_def data_ok_def rows_ok_def seqs_ok_def
        merged_defs entry_defs)
  ultimately have "node_ok (opened_node dev)" "changes (opened_node dev) = []"
    using open_file_ok [of toy_env notes_file dev None] by (simp_all add: notes_file_def empty_file_def)
  moreover have "bookkeep toy_env (opened_node dev) (new_node dev)"
    unfolding new_node_def opened_node_def by (rule bookkeep.Register)
  ultimately show "node_ok (new_node dev)" "changes (new_node dev) = []"
    using bookkeep_keeps [of toy_env "opened_node dev" "new_node dev"] by simp_all
qed

lemma a_written_ok: "node_ok a_written"
proof -
  have a: "app_only (new_node ''a'') a_written"
    using the_db_ok [OF write_a] unfolding a_written_def by (rule apply_writes_app_only)
  show ?thesis
    using new_node_ok(1) [OF open_a]
    by (simp add: node_ok_def log_ok_app_only [OF a] own_below_def app_only_fields [OF a] app_only_db [OF a])
qed

text \<open>A handle with the table \<open>n\<close> alone.\<close>

definition small :: "string \<Rightarrow> db" where
  "small dev =
     replica_file.extend (notes_file\<lparr>triggers := [(''_p2p_cap_n'', ''n'', ''k'')]\<rparr>)
       \<lparr>clock = new_clock, device_id = dev, tables = [(''n'', notes_spec)], signer = None,
        require_signatures = False\<rparr>"

lemma small_ok: "node_ok (small dev)" "changes (small dev) = []"
  by (simp_all add: small_def notes_file_def empty_file_def replica_file.defs node_ok_def own_below_def
      log_ok_def data_ok_def rows_ok_def seqs_ok_def merged_defs entry_defs)

end
