(* ===== verification/Syncing.thy ===== *)
theory Syncing
  imports Applying Flushing
begin

text \<open>
  Anti-entropy: what \<open>version_vector\<close> reports, which rows \<open>changes_since\<close> serves, and why pulling
  pages until one comes back empty transfers the whole log (\<open>pull_page\<close>); the high-water mark that
  makes every record of this device be announced once.
\<close>

section \<open>The version vector and the log\<close>

lemma merged_vv_get:
  "tbl_get (merged_vv log) v = None \<longleftrightarrow> v \<notin> sc_origin ` set log"
  "tbl_get (merged_vv log) v = Some h \<Longrightarrow>
     (\<exists>c\<in>set log. sc_origin c = v \<and> sc_hlc c = h) \<and> (\<forall>c\<in>set log. sc_origin c = v \<longrightarrow> sc_hlc c \<le> h)"
proof -
  show "tbl_get (merged_vv log) v = None \<longleftrightarrow> v \<notin> sc_origin ` set log"
    unfolding merged_vv_def by (subst stampt.fold_put_get) (force simp: vv_entries_def)+
  assume "tbl_get (merged_vv log) v = Some h"
  from stampt.fold_put_winner [OF _ this [unfolded merged_vv_def]]
  have "(v, h) \<in> set (vv_entries log)" "\<forall>u. (v, u) \<in> set (vv_entries log) \<longrightarrow> u \<le> h" by auto
  moreover have "(v, u) \<in> set (vv_entries log) \<longleftrightarrow> (\<exists>c\<in>set log. sc_origin c = v \<and> sc_hlc c = u)" for u
    by (auto simp: vv_entries_def)
  ultimately show "(\<exists>c\<in>set log. sc_origin c = v \<and> sc_hlc c = h) \<and> (\<forall>c\<in>set log. sc_origin c = v \<longrightarrow> sc_hlc c \<le> h)" by auto
qed

definition text_above :: "(string \<times> string) list \<Rightarrow> string \<Rightarrow> string" where
  "text_above t v = (case tbl_get t v of None \<Rightarrow> [] | Some h \<Rightarrow> h)"

lemma read_vv_spec:
  assumes "\<forall>e\<in>set rows. \<exists>h. snd e = to_hex h" "distinct (List.map fst rows)" "tbl_wf vv"
    "\<forall>e\<in>set rows. tbl_get vv (fst e) = None"
  shows "\<exists>out. read_vv rows vv = Inr out \<and> tbl_wf out
    \<and> (\<forall>v. asked_above out v = (if v \<in> fst ` set rows then text_above rows v else asked_above vv v))"
  using assms
proof (induction rows arbitrary: vv)
  case (Cons e rows)
  obtain h where e: "e = (fst e, to_hex h)" using Cons.prems(1) by (cases e) auto
  let ?vv = "vv_observe (fst e) h vv"
  have "\<forall>f\<in>set rows. tbl_get ?vv (fst f) = None"
    using Cons.prems(2-4) by (auto simp: vvt.get_put image_iff)
  then obtain out where out: "read_vv rows ?vv = Inr out" "tbl_wf out"
    "\<forall>v. asked_above out v = (if v \<in> fst ` set rows then text_above rows v else asked_above ?vv v)"
    using Cons.IH [of ?vv] Cons.prems(1-3) by (auto simp: vvt.wf_put)
  have "asked_above ?vv v = (if v = fst e then to_hex h else asked_above vv v)" for v
    using Cons.prems(3,4) by (auto simp: asked_above_def vvt.get_put)
  moreover have "read_vv (e # rows) vv = Inr out"
    using out(1) by (subst e) simp
  moreover have "text_above (e # rows) v = (if v = fst e then to_hex h else text_above rows v)" for v
    by (subst e) (simp add: text_above_def)
  moreover have "fst e \<notin> fst ` set rows" using Cons.prems(2) by simp
  ultimately show ?case using out(2,3) by auto
qed simp

lemma version_vector_spec:
  assumes "log_ok d"
  shows "\<exists>vv. version_vector d = Inr vv \<and> tbl_wf vv \<and> (\<forall>v. asked_above vv v = text_above (vv_rows d) v)"
proof -
  have vv: "vv_rows d = merged_vv (changes d)" using assms by (simp add: log_ok_def)
  have wf: "tbl_wf (vv_rows d)" by (simp add: vv)
  have "\<exists>h. snd e = to_hex h" if "e \<in> set (vv_rows d)" for e
  proof -
    have "tbl_get (merged_vv (changes d)) (fst e) = Some (snd e)"
      using that wf by (simp add: vv tbl_get_Some_set)
    then obtain c where "c \<in> set (changes d)" "sc_hlc c = snd e" using merged_vv_get(2) by blast
    then show ?thesis
      using assms by (metis log_ok_def data_ok_def rows_ok_def decodable_def sc_hlc_stored_of)
  qed
  then obtain vv where "version_vector d = Inr vv" "tbl_wf vv"
    "\<forall>v. asked_above vv v = (if v \<in> fst ` set (vv_rows d) then text_above (vv_rows d) v else [])"
    using read_vv_spec [of "vv_rows d" "[]"] wf
    by (auto simp: version_vector_def tbl_wf_def asked_above_def)
  moreover have "v \<notin> fst ` set (vv_rows d) \<Longrightarrow> text_above (vv_rows d) v = []" for v
    by (simp add: text_above_def map_of_eq_None_iff [symmetric])
  ultimately show ?thesis by metis
qed

text \<open>A row above the vector of a log is not in that log.\<close>

lemma above_not_held:
  assumes "text_above (merged_vv log) (sc_origin c) < sc_hlc c"
  shows "change_key c \<notin> change_key ` set log"
proof
  assume "change_key c \<in> change_key ` set log"
  then obtain e where e: "e \<in> set log" "sc_origin e = sc_origin c" "sc_hlc e = sc_hlc c"
    by (auto simp: change_key_def)
  then obtain h where h: "tbl_get (merged_vv log) (sc_origin c) = Some h"
    using merged_vv_get(1) by (metis image_eqI not_None_eq)
  with merged_vv_get(2) [OF h] e assms show False by (auto simp: text_above_def)
qed

section \<open>Pulling one page\<close>

text \<open>
  \<open>no_gap d p\<close>: of the log of \<open>p\<close>, \<open>d\<close> holds every row at or below its own version vector.  It holds
  between replicas that only pull; an announced record that skips an earlier one breaks it.
\<close>

definition no_gap :: "'a replica_file_scheme \<Rightarrow> 'b replica_file_scheme \<Rightarrow> bool" where
  "no_gap d p \<longleftrightarrow>
     (\<forall>c\<in>set (changes p). sc_hlc c \<le> text_above (vv_rows d) (sc_origin c)
        \<longrightarrow> change_key c \<in> change_key ` set (changes d))"

definition unheld :: "'a replica_file_scheme \<Rightarrow> 'b replica_file_scheme \<Rightarrow> stored_change list" where
  "unheld d p =
     sort_key log_order (List.filter (\<lambda>c. change_key c \<notin> change_key ` set (changes d)) (changes p))"

lemma missing_unheld:
  assumes "log_ok d" "no_gap d p" "\<forall>v. asked_above vv v = text_above (vv_rows d) v"
  shows "missing_rows p vv = unheld d p"
proof -
  have "asked_above vv (sc_origin c) < sc_hlc c \<longleftrightarrow> change_key c \<notin> change_key ` set (changes d)"
    if "c \<in> set (changes p)" for c
    using that assms above_not_held [of "changes d" c]
    by (auto simp: no_gap_def log_ok_def not_less)
  then show ?thesis unfolding missing_rows_def unheld_def by (metis (mono_tags, lifting) filter_cong)
qed

lemma sorted_unheld: "sorted (List.map log_order (unheld d p))"
  unfolding unheld_def by simp

lemma set_unheld:
  "set (unheld d p) = {c \<in> set (changes p). change_key c \<notin> change_key ` set (changes d)}"
  by (simp add: unheld_def)

text \<open>After a page, the rows still missing are the rest of the list.\<close>

lemma distinct_keys_drop:
  assumes "distinct (List.map f xs)"
  shows "List.filter (\<lambda>x. f x \<notin> f ` set (take n xs)) xs = drop n xs"
proof -
  have d: "distinct (List.map f (take n xs @ drop n xs))" using assms by simp
  have "List.filter (\<lambda>x. f x \<notin> f ` set (take n xs)) (take n xs @ drop n xs) = drop n xs"
    using d unfolding map_append distinct_append filter_append
    by (subst filter_False, force, subst filter_True) auto
  then show ?thesis by simp
qed

lemma unheld_after:
  assumes "distinct (List.map change_key (changes p))"
    and "change_key ` set (changes d') =
         change_key ` set (changes d) \<union> change_key ` set (take n (unheld d p))"
  shows "unheld d' p = drop n (unheld d p)"
proof -
  have "distinct (List.map change_key (unheld d p))"
    using assms(1) by (auto simp: unheld_def distinct_map intro: inj_on_subset)
  then have "drop n (unheld d p) =
      List.filter (\<lambda>c. change_key c \<notin> change_key ` set (take n (unheld d p))) (unheld d p)"
    by (rule distinct_keys_drop [symmetric])
  also have "\<dots> = sort_key log_order (List.filter (\<lambda>c. change_key c \<notin> change_key ` set (take n (unheld d p)))
      (List.filter (\<lambda>c. change_key c \<notin> change_key ` set (changes d)) (changes p)))"
    by (simp add: unheld_def filter_sort)
  also have "\<dots> = unheld d' p"
    unfolding unheld_def filter_filter by (rule arg_cong, rule filter_cong) (auto simp: assms(2) unheld_def)
  finally show ?thesis by simp
qed

text \<open>Pulling an ordered page opens no gap.\<close>

lemma no_gap_after:
  assumes "no_gap d p" "log_ok d" "log_ok d'"
    and "change_key ` set (changes d') =
         change_key ` set (changes d) \<union> change_key ` set (take n (unheld d p))"
  shows "no_gap d' p"
  unfolding no_gap_def
proof (intro ballI impI)
  fix c assume c: "c \<in> set (changes p)" "sc_hlc c \<le> text_above (vv_rows d') (sc_origin c)"
  show "change_key c \<in> change_key ` set (changes d')"
  proof (rule ccontr)
    assume new: "change_key c \<notin> change_key ` set (changes d')"
    then have un: "c \<in> set (unheld d p)" "c \<notin> set (take n (unheld d p))"
      using c(1) assms(4) by (auto simp: set_unheld)
    then have later: "c \<in> set (drop n (unheld d p))" by (metis append_take_drop_id Un_iff set_append)
    have above: "text_above (vv_rows d) (sc_origin c) < sc_hlc c"
      using assms(1) c(1) un(1) by (auto simp: no_gap_def set_unheld not_le [symmetric])
    have vv': "vv_rows d' = merged_vv (changes d')" and vv: "vv_rows d = merged_vv (changes d)"
      using assms(2,3) by (simp_all add: log_ok_def)
    obtain h where h: "tbl_get (vv_rows d') (sc_origin c) = Some h" "sc_hlc c \<le> h"
      using c(2) above by (cases "tbl_get (vv_rows d') (sc_origin c)") (auto simp: text_above_def)
    then obtain e where e: "e \<in> set (changes d')" "sc_origin e = sc_origin c" "sc_hlc c \<le> sc_hlc e"
      using merged_vv_get(2) [of "changes d'" "sc_origin c" h] vv' by auto
    have "change_key e \<notin> change_key ` set (changes d)"
    proof
      assume "change_key e \<in> change_key ` set (changes d)"
      then obtain f where f: "f \<in> set (changes d)" "sc_origin f = sc_origin c" "sc_hlc f = sc_hlc e"
        using e(2) by (auto simp: change_key_def)
      then obtain k where "tbl_get (vv_rows d) (sc_origin c) = Some k"
        using merged_vv_get(1) [of "changes d" "sc_origin c"] vv by (metis image_eqI not_None_eq)
      with merged_vv_get(2) [of "changes d" "sc_origin c" k] vv f e(3) above show False
        by (auto simp: text_above_def)
    qed
    with e(1) assms(4) obtain g where g: "g \<in> set (take n (unheld d p))" "change_key g = change_key e"
      by auto
    then have "log_order g \<le> log_order c"
      using sorted_unheld [of d p] later
      by (subst (asm) append_take_drop_id [of n "unheld d p", symmetric])
         (simp only: map_append sorted_append set_map image_eqI)
    moreover have "log_order c \<le> log_order g"
      using g(2) e(2,3) by (auto simp: log_order_def change_key_def less_eq_prod_def le_less)
    ultimately have "log_order g = log_order c" by simp
    then have "change_key g = change_key c" by (auto simp: log_order_def change_key_def)
    with g(1) new assms(4) show False by (metis UnI2 image_eqI)
  qed
qed

text \<open>Records that a replica with or without the signature check admits.\<close>

definition admissible :: "'a env_scheme \<Rightarrow> bool \<Rightarrow> change_record \<Rightarrow> bool" where
  "admissible E req r \<longleftrightarrow>
     cr_origin r \<noteq> [] \<and> cr_tbl r \<noteq> [] \<and> (req \<longrightarrow> verify_author E r = Inr ())"

lemma admit_all: "\<forall>r\<in>set rs. admissible E req r \<Longrightarrow> admit E req rs = (rs, 0)"
  by (induction rs) (auto simp: admissible_def)

lemma admit_admissible: "r \<in> set (fst (admit E req rs)) \<longleftrightarrow> r \<in> set rs \<and> admissible E req r"
  by (induction rs) (auto simp: admissible_def split_beta Let_def)

definition servable :: "'a env_scheme \<Rightarrow> bool \<Rightarrow> 'b replica_file_scheme \<Rightarrow> bool" where
  "servable E req p \<longleftrightarrow>
     (\<forall>c\<in>set (changes p). \<exists>r. decode_change c = Inr r \<and> admissible E req r)"

lemma decode_changes_all:
  "\<forall>c\<in>set cs. \<exists>r. decode_change c = Inr r \<and> P r \<Longrightarrow> \<exists>rs. decode_changes cs = Inr rs \<and> (\<forall>r\<in>set rs. P r)"
proof (induction cs)
  case (Cons c cs)
  then obtain r rs where "decode_change c = Inr r" "P r" "decode_changes cs = Inr rs" "\<forall>r\<in>set rs. P r"
    by auto
  then show ?case by auto
qed simp

lemma changes_since_served:
  assumes "servable E req p"
  shows "\<exists>rs. changes_since p vv limit = Inr rs \<and> (\<forall>r\<in>set rs. admissible E req r)"
proof -
  have "set (take limit (missing_rows p vv)) \<subseteq> set (changes p)"
    unfolding missing_rows_def by (auto dest!: in_set_takeD)
  then show ?thesis
    using assms unfolding changes_since_def servable_def by (intro decode_changes_all) blast
qed

lemma pull_page:
  assumes "log_ok d" "log_ok p" "no_gap d p" "version_vector d = Inr vv"
    "changes_since p vv limit = Inr rs" "\<forall>r\<in>set rs. admissible E (require_signatures d) r"
    "d' = snd (apply_remote E rs d)"
  shows "log_ok d'" "no_gap d' p" "unheld d' p = drop limit (unheld d p)"
    "require_signatures d' = require_signatures d" "record_key ` set rs = change_key ` set (take limit (unheld d p))"
proof -
  have st: "applied_state E (new_records E rs d) d d'"
    using apply_remote_state [OF assms(1), of E rs] assms(7) by simp
  have "set (admitted E rs d) = set rs" by (simp add: admit_all [OF assms(6)])
  then have keys: "change_key ` set (changes d') = change_key ` set (changes d) \<union> record_key ` set rs"
    using applied_keys [OF st] by simp
  have miss: "missing_rows p vv = unheld d p"
    using missing_unheld [OF assms(1,3)] version_vector_spec [OF assms(1)] assms(4) by auto
  have dec: "decode_changes (take limit (unheld d p)) = Inr rs"
    using assms(5) by (simp add: changes_since_def miss)
  have "\<forall>c\<in>set (take limit (unheld d p)). decodable c"
    using assms(2) by (auto dest!: in_set_takeD simp: set_unheld log_ok_def data_ok_def rows_ok_def)
  from decode_changes_rows [OF dec this]
  have "change_key ` content ` set (take limit (unheld d p)) = change_key ` stored_of 0 ` set rs"
    by (metis list.set_map)
  then show page: "record_key ` set rs = change_key ` set (take limit (unheld d p))"
    by (simp add: image_image)
  then have keys': "change_key ` set (changes d') =
      change_key ` set (changes d) \<union> change_key ` set (take limit (unheld d p))"
    using keys by simp
  show ok: "log_ok d'" "require_signatures d' = require_signatures d"
    using applied_state_fields [OF st] by simp_all
  show "no_gap d' p" using assms(3,1) ok(1) keys' by (rule no_gap_after)
  show "unheld d' p = drop limit (unheld d p)"
    using assms(2) keys' by (intro unheld_after) (simp_all add: log_ok_def data_ok_def rows_ok_def)
qed

text \<open>Pulling pages of \<open>limit\<close> records, \<open>n\<close> times.\<close>

fun pull_rounds :: "'a env_scheme \<Rightarrow> nat \<Rightarrow> nat \<Rightarrow> 'b replica_file_scheme \<Rightarrow> db \<Rightarrow> db" where
  "pull_rounds E 0 limit p d = d"
| "pull_rounds E (Suc n) limit p d =
     (case version_vector d of
        Inl e \<Rightarrow> d
      | Inr vv \<Rightarrow>
          (case changes_since p vv limit of
             Inl e \<Rightarrow> d
           | Inr rs \<Rightarrow> pull_rounds E n limit p (snd (apply_remote E rs d))))"

lemma pull_rounds_unheld:
  assumes "log_ok d" "log_ok p" "no_gap d p" "servable E (require_signatures d) p"
  shows "log_ok (pull_rounds E n limit p d) \<and> unheld (pull_rounds E n limit p d) p = drop (n * limit) (unheld d p)"
  using assms
proof (induction n arbitrary: d)
  case (Suc n)
  obtain vv where vv: "version_vector d = Inr vv" using version_vector_spec [OF Suc.prems(1)] by blast
  obtain rs where rs: "changes_since p vv limit = Inr rs" "\<forall>r\<in>set rs. admissible E (require_signatures d) r"
    using changes_since_served [OF Suc.prems(4)] by blast
  note page = pull_page [OF Suc.prems(1-3) vv rs refl]
  show ?case
    using Suc.IH [OF page(1) Suc.prems(2) page(2)] Suc.prems(4) page(3,4)
    by (simp add: vv rs drop_drop add.commute)
qed simp

lemma unheld_Nil_iff:
  "unheld d p = [] \<longleftrightarrow> change_key ` set (changes p) \<subseteq> change_key ` set (changes d)"
proof -
  have "unheld d p = [] \<longleftrightarrow> set (unheld d p) = {}" by simp
  also have "\<dots> \<longleftrightarrow> change_key ` set (changes p) \<subseteq> change_key ` set (changes d)"
    unfolding set_unheld by blast
  finally show ?thesis .
qed

section \<open>The broadcast mark\<close>

definition pending :: "db \<Rightarrow> stored_change list" where
  "pending d = List.filter (\<lambda>c. sc_origin c = device_id d \<and> watermark d < sc_seq c) (changes d)"

lemma unbroadcast_rows_pending: "unbroadcast_rows d limit = take limit (pending d)"
  by (simp add: unbroadcast_rows_def pending_def)

text \<open>Sequence numbers stay in SQLite's 64-bit range.\<close>

definition seq_fits :: "db \<Rightarrow> bool" where
  "seq_fits d \<longleftrightarrow> (\<forall>c\<in>set (changes d). sc_seq c < 2 ^ 63)"

lemma fold_max_sorted:
  assumes "sorted_wrt (<) (List.map sc_seq rows)" "\<forall>c\<in>set rows. w < sc_seq c"
  shows "fold (\<lambda>c high. max high (sc_seq c)) rows w = (if rows = [] then w else sc_seq (last rows))"
  using assms
proof (induction rows rule: rev_induct)
  case (snoc c rows)
  then have "\<forall>e\<in>set rows. sc_seq e < sc_seq c" "sorted_wrt (<) (List.map sc_seq rows)"
    by (auto simp: sorted_wrt_append)
  with snoc show ?case by (auto simp: max_def last_in_set dest: less_imp_le split: if_splits)
qed simp

lemma filter_above_last:
  assumes "sorted_wrt (<) (List.map f xs)" "take n xs \<noteq> []"
  shows "List.filter (\<lambda>x. (f (last (take n xs)) :: int) < f x) xs = drop n xs"
proof -
  let ?t = "take n xs" and ?d = "drop n xs"
  have s: "sorted_wrt (<) (List.map f ?t @ List.map f ?d)" using assms(1) by (simp flip: map_append)
  have "f x \<le> f (last ?t)" if "x \<in> set ?t" for x
  proof -
    have e: "butlast ?t @ [last ?t] = ?t" by (rule append_butlast_last_id [OF assms(2)])
    have "sorted_wrt (<) (List.map f (butlast ?t @ [last ?t]))"
      unfolding e using s by (simp add: sorted_wrt_append)
    moreover have "x \<in> set (butlast ?t @ [last ?t])" unfolding e by (rule that)
    ultimately show ?thesis by (auto simp: sorted_wrt_append dest: less_imp_le)
  qed
  then have "List.filter (\<lambda>x. f (last ?t) < f x) ?t = []" by (auto simp: filter_empty_conv not_less)
  moreover have "\<forall>x\<in>set ?d. f (last ?t) < f x"
    using s last_in_set [OF assms(2)] by (auto simp: sorted_wrt_append)
  then have "List.filter (\<lambda>x. f (last ?t) < f x) ?d = ?d" by simp
  ultimately have "List.filter (\<lambda>x. f (last ?t) < f x) (?t @ ?d) = ?d" unfolding filter_append by simp
  then show ?thesis by simp
qed

lemma watermark_range: "- (2 ^ 63) \<le> watermark d" "watermark d < 2 ^ 63"
  by (auto simp: watermark_def parse_i64_def Let_def split: option.splits if_splits)

lemma watermark_mark:
  assumes "- (2 ^ 63) \<le> n" "n < 2 ^ 63"
  shows "watermark (mark_broadcast n d) = n"
  using parse_i64_show_int [OF assms]
  by (simp add: watermark_def mark_broadcast_def get_meta_def set_meta_def tbl_get_put)

lemma pending_mark:
  assumes "log_ok d" "seq_fits d" "unbroadcast_local d limit = Inr (rs, high)"
  shows "pending (mark_broadcast high d) = drop limit (pending d)"
    "List.map content (take limit (pending d)) = List.map (stored_of 0) rs"
proof -
  let ?rows = "take limit (pending d)"
  have seqs: "sorted_wrt (<) (List.map sc_seq (pending d))"
    using assms(1) unfolding pending_def
    by (auto simp: log_ok_def data_ok_def rows_ok_def seqs_ok_def sorted_wrt_map intro: sorted_wrt_filter)
  have above: "\<forall>c\<in>set ?rows. watermark d < sc_seq c"
    by (auto dest!: in_set_takeD simp: pending_def)
  have high: "high = (if ?rows = [] then watermark d else sc_seq (last ?rows))"
    and dec: "decode_changes ?rows = Inr rs"
    using assms(3) fold_max_sorted [of ?rows "watermark d"] above seqs
    by (auto simp: unbroadcast_local_def unbroadcast_rows_pending Let_def take_map [symmetric]
        sorted_wrt_take split: sum.splits)
  have "\<forall>c\<in>set ?rows. decodable c"
    using assms(1) by (auto dest!: in_set_takeD simp: pending_def log_ok_def data_ok_def rows_ok_def)
  with dec show "List.map content ?rows = List.map (stored_of 0) rs" by (rule decode_changes_rows)
  have "- (2 ^ 63) \<le> high \<and> high < 2 ^ 63"
  proof (cases "?rows = []")
    case False
    then have "last ?rows \<in> set ?rows" by (rule last_in_set)
    moreover from this have "last ?rows \<in> set (changes d)" by (auto dest!: in_set_takeD simp: pending_def)
    ultimately show ?thesis
      using above high False watermark_range(1) [of d] assms(2) unfolding seq_fits_def by fastforce
  qed (use high watermark_range [of d] in simp)
  then have mark: "watermark (mark_broadcast high d) = high" by (simp add: watermark_mark)
  have base: "changes (mark_broadcast high d) = changes d" "device_id (mark_broadcast high d) = device_id d"
    by (simp_all add: mark_broadcast_def set_meta_def)
  have le: "watermark d \<le> high"
    using high above last_in_set [of ?rows] by (auto intro: less_imp_le)
  have "pending (mark_broadcast high d) = List.filter (\<lambda>c. high < sc_seq c) (pending d)"
    unfolding pending_def mark base using le by (auto intro: filter_cong)
  also have "\<dots> = drop limit (pending d)"
  proof (cases "?rows = []")
    case True
    then have "drop limit (pending d) = pending d" by auto
    with True show ?thesis by (auto simp: high pending_def intro: filter_cong)
  next
    case False
    then show ?thesis using filter_above_last [OF seqs False] by (simp add: high)
  qed
  finally show "pending (mark_broadcast high d) = drop limit (pending d)" .
qed

end
