(* ===== verification/Rows.thy ===== *)
theory Rows
  imports Applying Flushing
begin

text \<open>
  The application's rows against the replicated state: what \<open>materialize\<close> leaves in the table, how
  staged operations collapse, and when a flush has nothing to say.
\<close>

section \<open>Materialising\<close>

lemma stage_ops_app: "stage_ops t ops d = Inr d' \<Longrightarrow> app d' = app d"
  by (induction t ops d rule: stage_ops.induct) auto

lemma fire_triggers_app: "fire_triggers E t ev trs d = Inr d' \<Longrightarrow> app d' = app d"
  by (induction E t ev trs d rule: fire_triggers.induct)
     (auto split: if_splits sum.splits dest: stage_ops_app)

lemma fire_all_app: "fire_all E t evs d = Inr d' \<Longrightarrow> app d' = app d"
  by (induction E t evs d rule: fire_all.induct) (auto split: sum.splits dest: fire_triggers_app)

definition rows_of :: "'a replica_file_scheme \<Rightarrow> string \<Rightarrow> row list" where
  "rows_of d t = (case tbl_get (app d) t of None \<Rightarrow> [] | Some at \<Rightarrow> at_rows at)"

lemma write_rows_rows:
  assumes "write_rows E t rows evs d = Inr d'" "tbl_get (app d) t = Some at"
  shows "rows_of d' t = rows" "t' \<noteq> t \<Longrightarrow> rows_of d' t' = rows_of d t'"
  using fire_all_app [OF assms(1) [unfolded write_rows_def]] assms(2)
  by (simp_all add: rows_of_def set_rows_def tbl_get_put)

text \<open>The other tables are not touched by rebuilding a row.\<close>

lemma materialize_other_tables:
  "materialize E spec pk d = Inr d' \<Longrightarrow> t' \<noteq> ts_name spec \<Longrightarrow> rows_of d' t' = rows_of d t'"
  unfolding materialize_def
  by (auto simp: Let_def split: if_splits option.splits sum.splits dest: write_rows_rows(2))

lemma materialize_deleted:
  assumes "materialize E spec pk d = Inr d'"
    "row_deleted (tbl_get (tombs d) (ts_name spec, pk)) (row_cells d (ts_name spec) pk)"
  shows "rows_of d' (ts_name spec) =
    List.filter (\<lambda>r. row_key E (ts_pk_col spec) r \<noteq> Some pk) (rows_of d (ts_name spec))"
proof -
  have "\<not> (row_cells d (ts_name spec) pk = [] \<and> tbl_get (tombs d) (ts_name spec, pk) = None)"
    using assms(2) by (auto simp: row_deleted_def split: option.splits)
  then obtain at where at: "tbl_get (app d) (ts_name spec) = Some at"
    and w: "write_rows E (ts_name spec)
        (List.filter (\<lambda>r. \<not> row_key E (ts_pk_col spec) r = Some pk) (at_rows at))
        (List.map Deleted (List.filter (\<lambda>r. row_key E (ts_pk_col spec) r = Some pk) (at_rows at))) d = Inr d'"
    using assms by (auto simp: materialize_def Let_def split: option.splits if_splits)
  from write_rows_rows(1) [OF w at] at show ?thesis by (simp add: rows_of_def)
qed

lemma decode_cells_get:
  "decode_cells known cs = Inr vals \<Longrightarrow> map_of vals col =
     (if col \<in> set known then
        (case map_of cs col of None \<Rightarrow> None
         | Some c \<Rightarrow> (case from_storage (cl_vtype c) (cl_val c) of Inl e \<Rightarrow> None | Inr v \<Rightarrow> Some v))
      else None)"
  by (induction known cs arbitrary: vals rule: decode_cells.induct) (auto split: if_splits sum.splits)

lemma map_of_Some_key: "map_of xs k = Some v \<Longrightarrow> k \<in> fst ` set xs"
  by (metis domI dom_map_of_conv_image_fst)

lemma map_of_columns:
  "col \<in> fst ` set info \<Longrightarrow> map_of (List.map (\<lambda>(c, x). (c, f c)) info) col = Some (f col)"
  by (induction info) auto

lemma candidate_value:
  assumes "col \<in> fst ` set (at_info at)" "map_of given col = Some v"
  shows "row_value (candidate_row E t at given) col = affinity E t col v"
  using map_of_columns [OF assms(1), of "\<lambda>c. case map_of given c of
    Some v \<Rightarrow> affinity E t c v | None \<Rightarrow> col_default E t c"] assms(2)
  unfolding row_value_def candidate_row_def by simp

lemma update_row_get:
  "map_of (update_row cols ex old) col =
     (if col \<in> set cols then map_option (\<lambda>_. row_value ex col) (map_of old col) else map_of old col)"
  by (induction old) (auto simp: update_row_def)

text \<open>Every row of a table has all its columns, as SQLite keeps them.\<close>

definition full_rows :: "app_table \<Rightarrow> bool" where
  "full_rows at \<longleftrightarrow> (\<forall>r\<in>set (at_rows at). List.map fst r = List.map fst (at_info at))"

lemma upsert_row_value:
  assumes "upsert_row E t pk_col given at = Inr (rows, evs)" "full_rows at"
    "map_of given pk_col = Some key"
  shows "\<exists>r\<in>set rows. row_value r pk_col = affinity E t pk_col key \<and>
    (\<forall>col v. map_of given col = Some v \<longrightarrow> row_value r col = affinity E t col v)"
proof -
  let ?cand = "candidate_row E t at given"
  let ?same = "\<lambda>r. row_value r pk_col = row_value ?cand pk_col"
  have cols: "set (List.map fst given) \<subseteq> fst ` set (at_info at)"
    using assms(1) by (auto simp: upsert_row_def Let_def split: if_splits)
  have val: "row_value ?cand col = affinity E t col v" if "map_of given col = Some v" for col v
    using that cols map_of_Some_key [OF that] by (intro candidate_value) auto
  show ?thesis
  proof (cases "List.find ?same (at_rows at)")
    case None
    then have "rows = at_rows at @ [?cand]"
      using assms(1) by (auto simp: upsert_row_def Let_def split: if_splits)
    with val assms(3) show ?thesis by auto
  next
    case (Some old)
    let ?new = "update_row (List.map fst given) ?cand old"
    have rows: "rows = List.map (\<lambda>r. if ?same r then ?new else r) (at_rows at)"
      using assms(1) Some by (auto simp: upsert_row_def Let_def split: if_splits)
    have old: "old \<in> set (at_rows at)" "?same old" using Some by (auto simp: find_Some_iff)
    then have "fst ` set old = fst ` set (at_info at)"
      using assms(2) unfolding full_rows_def by (metis list.set_map)
    then have "row_value ?new col = affinity E t col v" if "map_of given col = Some v" for col v
    proof -
      have "col \<in> fst ` set old"
        using map_of_Some_key [OF that] cols \<open>fst ` set old = fst ` set (at_info at)\<close> by auto
      then obtain x where "map_of old col = Some x" by (metis map_of_eq_None_iff not_None_eq)
      moreover have "col \<in> set (List.map fst given)" using map_of_Some_key [OF that] by simp
      ultimately show ?thesis using val [OF that] by (simp add: row_value_def [of ?new] update_row_get)
    qed
    moreover have "?new \<in> set rows" using old unfolding rows by auto
    ultimately show ?thesis using assms(3) by blast
  qed
qed

lemma materialize_written:
  assumes "materialize E spec pk d = Inr d'" "tbl_get (app d) (ts_name spec) = Some at" "full_rows at"
    and "row_cells d (ts_name spec) pk \<noteq> []"
    and "\<not> row_deleted (tbl_get (tombs d) (ts_name spec, pk)) (row_cells d (ts_name spec) pk)"
    and "ts_pk_col spec \<notin> set (ts_cols spec)"
  shows "\<exists>r\<in>set (rows_of d' (ts_name spec)).
    row_value r (ts_pk_col spec) = affinity E (ts_name spec) (ts_pk_col spec) (VText pk) \<and>
    (\<forall>col\<in>set (ts_cols spec). \<forall>c. map_of (row_cells d (ts_name spec) pk) col = Some c \<longrightarrow>
       (\<exists>v. from_storage (cl_vtype c) (cl_val c) = Inr v
          \<and> row_value r col = affinity E (ts_name spec) col v))"
proof -
  let ?cs = "row_cells d (ts_name spec) pk" and ?t = "ts_name spec"
  obtain vals rows evs where vals: "decode_cells (ts_cols spec) ?cs = Inr vals"
    and up: "upsert_row E ?t (ts_pk_col spec) ((ts_pk_col spec, VText pk) # vals) at = Inr (rows, evs)"
    and w: "write_rows E ?t rows evs d = Inr d'"
    using assms(1,2,4,5)
    by (auto simp: materialize_def Let_def split: option.splits if_splits sum.splits)
  have rows: "rows_of d' ?t = rows" using write_rows_rows(1) [OF w assms(2)] .
  obtain r where r: "r \<in> set rows" "row_value r (ts_pk_col spec) = affinity E ?t (ts_pk_col spec) (VText pk)"
    "\<And>col v. map_of ((ts_pk_col spec, VText pk) # vals) col = Some v \<Longrightarrow> row_value r col = affinity E ?t col v"
    using upsert_row_value [OF up assms(3)] by fastforce
  have dec: "decode_cells known cs = Inr vs \<Longrightarrow> col \<in> set known \<Longrightarrow> map_of cs col = Some c \<Longrightarrow>
      \<exists>v. from_storage (cl_vtype c) (cl_val c) = Inr v" for known cs vs col c
    by (induction known cs arbitrary: vs rule: decode_cells.induct) (auto split: if_splits sum.splits)
  show ?thesis
  proof (rule bexI [OF _ r(1) [folded rows]], intro conjI ballI allI impI r(2))
    fix col c assume c: "col \<in> set (ts_cols spec)" "map_of ?cs col = Some c"
    from dec [OF vals c] obtain v where v: "from_storage (cl_vtype c) (cl_val c) = Inr v" by blast
    then have "map_of vals col = Some v" using decode_cells_get [OF vals, of col] c by simp
    moreover have "col \<noteq> ts_pk_col spec" using c(1) assms(6) by blast
    ultimately have "row_value r col = affinity E ?t col v" by (intro r(3)) simp
    with v show "\<exists>v. from_storage (cl_vtype c) (cl_val c) = Inr v \<and> row_value r col = affinity E ?t col v"
      by blast
  qed
qed

section \<open>Local statements\<close>

text \<open>A flush writes the replicated state, not the tables it reads.\<close>

lemma author_app [simp]: "app (snd (author E r d)) = app d"
  by (simp add: author_def db_tick_def Let_def split_beta split: option.split)

lemma record_writes_app [simp]:
  "app (snd (store_change r d)) = app d" "app (snd (upsert_cell r d)) = app d"
  "app (snd (upsert_tombstone r d)) = app d" "app (bump_vv v h d) = app d"
  by (simp_all add: store_change_def upsert_cell_def upsert_tombstone_def bump_vv_def Let_def split: option.split prod.split)

lemma flush_cols_app: "app (snd (flush_cols E t pk vals cols d)) = app d"
proof (induction cols arbitrary: d)
  case (Cons col cols)
  have au: "author E r d = (x, d') \<Longrightarrow> app d' = app d" for r x d'
    using author_app [of E r d] by simp
  have fc: "flush_cols E t pk vals cols d1 = (x, d') \<Longrightarrow> app d' = app d1" for d1 x d'
    using Cons.IH [of d1] by simp
  show ?case by (auto simp: Cons.IH split: option.split sum.split prod.split dest!: au fc)
qed simp

lemma flush_key_app: "app (snd (flush_key E final_op key d)) = app d"
proof -
  have au: "author E r d = (x, d') \<Longrightarrow> app d' = app d" for r x d'
    using author_app [of E r d] by simp
  show ?thesis
    by (auto simp: flush_key_def Let_def flush_cols_app split: option.split sum.split prod.split dest!: au)
qed

lemma flush_keys_app: "app (snd (flush_keys E final_op keys d)) = app d"
proof (induction keys arbitrary: d)
  case (Cons key keys)
  have fk: "flush_key E final_op key d = (x, d') \<Longrightarrow> app d' = app d" for x d'
    using flush_key_app [of E final_op key d] by simp
  have fs: "flush_keys E final_op keys d1 = (x, d') \<Longrightarrow> app d' = app d1" for d1 x d'
    using Cons.IH [of d1] by simp
  show ?case by (auto split: sum.split prod.split dest!: fk fs)
qed simp

lemma flush_local_app: "app (snd (flush_local E d)) = app d"
proof -
  have fs: "flush_keys E final_op keys d = (x, d') \<Longrightarrow> app d' = app d" for final_op keys x d'
    using flush_keys_app [of E final_op keys d] by simp
  show ?thesis
    by (auto simp: flush_local_def Let_def split: sum.split prod.split dest: fs)
qed

text \<open>A statement that inserts one row.\<close>

lemma execute_insert:
  assumes "execute E [WInsert t r] d = (Inr x, d')"
  shows "rows_of d' t = rows_of d t @ [r]" "t' \<noteq> t \<Longrightarrow> rows_of d' t' = rows_of d t'"
proof -
  obtain d1 at where at: "tbl_get (app d) t = Some at"
    and w: "write_rows E t (at_rows at @ [r]) [Inserted r] d = Inr d1"
    and fl: "d' = snd (flush_local E d1)"
    using assms by (auto simp: execute_def split: option.splits sum.splits prod.splits)
  have "rows_of d' u = rows_of d1 u" for u
    using flush_local_app [of E d1] by (simp add: rows_of_def fl)
  with write_rows_rows [OF w at] at show "rows_of d' t = rows_of d t @ [r]"
    "t' \<noteq> t \<Longrightarrow> rows_of d' t' = rows_of d t'"
    by (auto simp: rows_of_def)
qed

section \<open>Collapsing staged operations\<close>

definition op_key :: "local_op \<Rightarrow> string \<times> string" where
  "op_key lo = (lo_tbl lo, lo_pk lo)"

lemma collapse_spec:
  "fst (collapse ops) = rev (remdups (rev (List.map op_key ops)))
     \<and> (\<forall>key. tbl_get (snd (collapse ops)) key =
           map_option lo_op (List.find (\<lambda>lo. op_key lo = key) (rev ops)))"
proof (induction ops rule: rev_induct)
  case Nil
  show ?case by (simp add: collapse_def)
next
  case (snoc lo ops)
  have step: "collapse (ops @ [lo]) = collapse_step lo (collapse ops)" by (simp add: collapse_def)
  have "tbl_get (snd (collapse ops)) (op_key lo) =
      map_option lo_op (List.find (\<lambda>l. op_key l = op_key lo) (rev ops))" using snoc by blast
  then have "tbl_get (snd (collapse ops)) (op_key lo) = None \<longleftrightarrow> op_key lo \<notin> op_key ` set ops"
    by (simp add: find_None_iff image_iff) metis
  with snoc show ?case
    unfolding step collapse_step_def
    by (auto simp: Let_def split_beta op_key_def tbl_get_put)
qed

section \<open>Flushes with nothing to say\<close>

definition row_replicated :: "'a replica_file_scheme \<Rightarrow> string \<Rightarrow> string \<Rightarrow> row \<Rightarrow> string list \<Rightarrow> bool" where
  "row_replicated d t pk vals cols \<longleftrightarrow>
     (\<forall>col\<in>set cols. \<forall>v. map_of vals col = Some v \<longrightarrow>
        cell_matches d t pk col (fst (to_storage v)) (snd (to_storage v)))"

lemma flush_cols_silent:
  "row_replicated d t pk vals cols \<Longrightarrow> flush_cols E t pk vals cols d = (Inr [], d)"
  by (induction cols) (auto simp: row_replicated_def split: option.split)

lemma flush_key_silent:
  assumes "tbl_get (tables d) (fst key) = Some spec" "read_row E spec (snd key) d = Inr (Some vals)"
    "row_replicated d (fst key) (snd key) vals (ts_cols spec)"
  shows "flush_key E final_op key d = (Inr [], d)"
  using assms by (simp add: flush_key_def flush_cols_silent Let_def)

end
