(* ===== verification/Additions.thy ===== *)
theory Additions
  imports Flushing
begin

text \<open>
  What a call on the replica can add to its log, from any state at all, in order or not: records that were
  delivered to it and passed the admission, and records of its own device, signed if the replica signs.
\<close>

section \<open>Logs that grow\<close>

definition adds :: "(change_record \<Rightarrow> bool) \<Rightarrow> db \<Rightarrow> db \<Rightarrow> bool" where
  "adds P d d' \<longleftrightarrow> device_id d' = device_id d \<and> signer d' = signer d
     \<and> require_signatures d' = require_signatures d
     \<and> (\<forall>c\<in>set (changes d'). c \<in> set (changes d) \<or> (\<exists>r. P r \<and> c = stored_of (sc_seq c) r))"

lemma adds_refl [simp]: "adds P d d"
  by (simp add: adds_def)

lemma adds_trans: "adds P a b \<Longrightarrow> adds P b c \<Longrightarrow> adds P a c"
  by (auto simp: adds_def)

lemma addsD:
  "adds P d d' \<Longrightarrow> c \<in> set (changes d') \<Longrightarrow> c \<in> set (changes d) \<or> (\<exists>r. P r \<and> c = stored_of (sc_seq c) r)"
  by (simp add: adds_def)

lemma adds_handle:
  "adds P d d' \<Longrightarrow> device_id d' = device_id d \<and> signer d' = signer d \<and> require_signatures d' = require_signatures d"
  by (simp add: adds_def)

lemma adds_mono: "adds P d d' \<Longrightarrow> (\<And>r. P r \<Longrightarrow> Q r) \<Longrightarrow> adds Q d d'"
  unfolding adds_def by blast

lemma adds_same:
  "device_id d' = device_id d \<Longrightarrow> signer d' = signer d \<Longrightarrow> require_signatures d' = require_signatures d
     \<Longrightarrow> changes d' = changes d \<Longrightarrow> adds P d d'"
  by (simp add: adds_def)

lemma adds_app_only: "app_only d d' \<Longrightarrow> adds P d d'"
  by (intro adds_same) (simp_all add: app_only_fields app_only_db)

lemma adds_store: "P r \<Longrightarrow> adds P d (snd (store_change r d))"
  by (auto simp: adds_def store_change_def stored_of_def)

lemma adds_fold: "(\<And>x d. x \<in> set xs \<Longrightarrow> adds P d (f x d)) \<Longrightarrow> adds P d (fold f xs d)"
  by (induction xs arbitrary: d) (simp, metis adds_trans fold_simps(2) list.set_intros)

section \<open>A delivery\<close>

lemma adds_merge:
  "adds P d (snd (upsert_cell r d))" "adds P d (snd (upsert_tombstone r d))" "adds P d (bump_vv v h d)"
  by (intro adds_same; simp add: upsert_cell_eq upsert_tombstone_eq bump_vv_def Let_def split: option.split)+

lemma adds_apply_one:
  assumes "P r"
  shows "adds P d (snd (apply_one E r (a, d)))"
proof -
  obtain n d1 where st: "store_change r d = (n, d1)" by fastforce
  have one: "adds P d d1" using adds_store [of P r d] assms st by simp
  let ?d = "d1\<lparr>clock := snd (observe (wall E) (cr_hlc r) (clock d1))\<rparr>"
  have "adds P d1 ?d" by (rule adds_same) simp_all
  moreover have "adds P ?d (case cr_kind r of Delete \<Rightarrow> snd (upsert_tombstone r ?d) | Cell \<Rightarrow> snd (upsert_cell r ?d))"
    using adds_merge by (simp split: change_kind.split)
  ultimately have "adds P d (case cr_kind r of Delete \<Rightarrow> snd (upsert_tombstone r ?d) | Cell \<Rightarrow> snd (upsert_cell r ?d))"
    using one by (blast intro: adds_trans)
  with one show ?thesis by (simp add: apply_one_def st Let_def)
qed

lemma adds_apply_all:
  assumes "\<forall>r\<in>set rs. P r"
  shows "adds P d (snd (fold (apply_one E) rs (a, d)))"
  using assms
proof (induction rs arbitrary: a d)
  case (Cons r rs)
  obtain b d1 where step: "apply_one E r (a, d) = (b, d1)" by fastforce
  then have "adds P d d1" using adds_apply_one [of P r d E a] Cons.prems by simp
  moreover have "adds P d1 (snd (fold (apply_one E) rs (b, d1)))" using Cons by simp
  ultimately show ?case using step by (auto intro: adds_trans)
qed simp

lemma adds_apply_remote:
  "adds (\<lambda>r. r \<in> set (fst (admit E (require_signatures d) chs))) d (snd (apply_remote E chs d))"
proof -
  obtain kept bad where ad: "admit E (require_signatures d) chs = (kept, bad)" by fastforce
  let ?P = "\<lambda>r. r \<in> set kept"
  show ?thesis
  proof (cases "kept = []")
    case False
    let ?d = "d\<lparr>guard := 1\<rparr>"
    let ?a = "\<lparr>acc_out = no_outcome\<lparr>rejected := bad\<rparr>, acc_dirty = [], acc_vv = []\<rparr>"
    obtain b d1 where f: "fold (apply_one E) (sort_key order_key kept) (?a, ?d) = (b, d1)" by fastforce
    have on: "adds ?P d ?d" by (rule adds_same) simp_all
    have all: "adds ?P ?d d1" using adds_apply_all [of "sort_key order_key kept" ?P ?d E ?a] f by simp
    have rows: "adds ?P d1 (fold (materialize_key E) (acc_dirty b) d1)"
      by (rule adds_app_only) (rule fold_materialize_app_only)
    have vv: "adds ?P e (fold (\<lambda>e d. bump_vv (fst e) (snd e) d) vv e)" for vv e
      by (rule adds_fold) (rule adds_merge(3))
    have off: "adds ?P e (e\<lparr>guard := 0\<rparr>)" for e by (rule adds_same) simp_all
    have "adds ?P d ((fold (\<lambda>e d. bump_vv (fst e) (snd e) d) (acc_vv b)
        (fold (materialize_key E) (acc_dirty b) d1))\<lparr>guard := 0\<rparr>)"
      by (rule adds_trans [OF on adds_trans [OF all adds_trans [OF rows adds_trans [OF vv off]]]])
    then show ?thesis using False by (simp add: apply_remote_def ad f Let_def)
  qed (simp add: apply_remote_def ad)
qed

section \<open>A flush\<close>

definition written_by :: "'a env_scheme \<Rightarrow> bytes option \<Rightarrow> string \<Rightarrow> change_record \<Rightarrow> bool" where
  "written_by E sk dev r \<longleftrightarrow> cr_origin r = dev \<and>
     (case sk of None \<Rightarrow> cr_sig r = [] | Some k \<Rightarrow> keypair_sign E k (signing_bytes r) = Inr (cr_sig r))"

lemma author_written:
  assumes "author E r0 d = (x, d')"
  shows "adds P d d'" "x = Inr r \<Longrightarrow> written_by E (signer d) (device_id d) r"
proof -
  have "d' = d\<lparr>clock := snd (tick (wall E) (clock d))\<rparr>" using author_state [of E r0 d] assms by simp
  then show "adds P d d'" by (intro adds_same) simp_all
  show "x = Inr r \<Longrightarrow> written_by E (signer d) (device_id d) r"
    using author_ok(2,3) [of E r0 d r d'] assms by (simp add: written_by_def signed_here_def)
qed

lemma adds_flush_cols:
  "adds (written_by E (signer d) (device_id d)) d (snd (flush_cols E t pk vals cols d))"
proof (induction cols arbitrary: d)
  case (Cons col cols)
  let ?P = "written_by E (signer d) (device_id d)"
  show ?case
  proof (cases "map_of vals col")
    case None
    then show ?thesis using Cons.IH by simp
  next
    case (Some v)
    obtain x d1 where au: "author E (cell_record t pk col v) d = (x, d1)" by fastforce
    have a: "adds ?P d d1" by (rule author_written(1) [OF au])
    show ?thesis
    proof (cases x)
      case (Inl e)
      then show ?thesis using Some au a Cons.IH by simp
    next
      case (Inr r)
      let ?d2 = "snd (upsert_cell r (snd (store_change r d1)))"
      have "?P r" using author_written(2) [OF au Inr] .
      then have b: "adds ?P d ?d2" using a adds_store adds_merge(1) adds_trans by metis
      from adds_handle [OF b] Cons.IH [of ?d2] have "adds ?P ?d2 (snd (flush_cols E t pk vals cols ?d2))" by simp
      with b have "adds ?P d (snd (flush_cols E t pk vals cols ?d2))" by (rule adds_trans)
      then show ?thesis using Some au Inr Cons.IH by (auto split: prod.split sum.split)
    qed
  qed
qed simp

lemma adds_flush_key: "adds (written_by E (signer d) (device_id d)) d (snd (flush_key E final_op key d))"
proof -
  have one: "adds (written_by E (signer d) (device_id d)) d (snd (upsert_tombstone r (snd (store_change r d1))))"
    if "author E r0 d = (Inr r, d1)" for r0 r d1
    using author_written [OF that] adds_store adds_merge(2) adds_trans by metis
  have two: "adds (written_by E (signer d) (device_id d)) d d1" if "author E r0 d = (x, d1)" for r0 x d1
    by (rule author_written(1) [OF that])
  show ?thesis
    by (auto simp: flush_key_def Let_def adds_flush_cols intro: one two split: option.split sum.split prod.split)
qed

lemma adds_flush_keys: "adds (written_by E (signer d) (device_id d)) d (snd (flush_keys E final_op keys d))"
proof (induction keys arbitrary: d)
  case (Cons key keys)
  let ?P = "written_by E (signer d) (device_id d)"
  obtain x d1 where k: "flush_key E final_op key d = (x, d1)" by fastforce
  have a: "adds ?P d d1" using adds_flush_key [of E d final_op key] k by simp
  from adds_handle [OF a] Cons.IH [of d1] have "adds ?P d1 (snd (flush_keys E final_op keys d1))" by simp
  with a have "adds ?P d (snd (flush_keys E final_op keys d1))" by (rule adds_trans)
  with a k show ?case by (auto split: sum.split prod.split)
qed simp

lemma adds_flush_local: "adds (written_by E (signer d) (device_id d)) d (snd (flush_local E d))"
proof -
  let ?P = "written_by E (signer d) (device_id d)"
  obtain order final_op where col: "collapse (local_ops d) = (order, final_op)" by fastforce
  obtain x d1 where k: "flush_keys E final_op order d = (x, d1)" by fastforce
  have a: "adds ?P d d1" using adds_flush_keys [of E d final_op order] k by simp
  have ops: "adds ?P d (d1\<lparr>local_ops := ops\<rparr>)" for ops
    using a by (rule adds_trans) (simp add: adds_same)
  then have "adds ?P d (bump_vv v h (d1\<lparr>local_ops := ops\<rparr>))" for ops v h
    using adds_merge(3) by (rule adds_trans)
  moreover have "adds ?P d (d\<lparr>clock := clk\<rparr>)" for clk by (rule adds_same) simp_all
  ultimately show ?thesis using col k ops by (auto simp: flush_local_def Let_def split: sum.split)
qed

end
