(* ===== verification/ReplicaProperties.thy ===== *)
theory ReplicaProperties
  imports Samples Syncing Rows Additions
begin

text \<open>
  The properties of the replica: convergence, delivery, anti-entropy, local writes, the rows of the
  application, and restarts.  Each is followed by an instance on the replicas of \<open>Samples\<close>.
\<close>

section \<open>Convergence\<close>

text \<open>In any run of replicas that write, crash, restart and are handed anything by anybody, as long as
  nobody signs for a device of \<open>D\<close> but that device, two replicas that hold the same stamps hold the same
  cells, tombstones and version vector, unless an outsider signed two records with one stamp and each
  of the two holds another of them.\<close>

theorem reachable_replicas_converge:
  assumes "reachable Es D N" "tbl_get (nodes N) a = Some d" "tbl_get (nodes N) b = Some e" "outsiders_agree D d e"
    "change_key ` set (changes d) = change_key ` set (changes e)"
  shows "cells d = cells e \<and> tombs d = tombs e \<and> vv_rows d = vv_rows e"
  using reachable_ok [OF assms(1)] assms(2-5) by (rule converge)

theorem reachable_replicas_converge_witness:
  "cells a_flushed = cells b_received \<and> tombs a_flushed = tombs b_received
     \<and> vv_rows a_flushed = vv_rows b_received \<and> cells b_received \<noteq> []"
proof -
  have "outsiders_agree {''a'', ''b''} a_flushed b_received"
    by (simp add: outsiders_agree_def sample_states a_record_def)
  from reachable_replicas_converge [OF sample_reachable sample_get this] show ?thesis
    using sample_keys sample_cells by simp
qed

text \<open>No two records that were ever flushed in a run share author and stamp, over all replicas
  and restarts, so a stamp and its author identify a record.\<close>

theorem stamps_identify_records:
  assumes "reachable Es D N" "r \<in> set (sent N)" "s \<in> set (sent N)"
    "cr_origin r = cr_origin s" "cr_hlc r = cr_hlc s"
  shows "r = s"
  using sent_unique [OF reachable_ok [OF assms(1)] assms(2,3)] assms(4,5) by (simp add: record_key_def)

theorem stamps_identify_records_witness:
  "\<exists>s\<in>set (sent sample_net). a_record = s"
proof -
  have s: "sent sample_net = [a_record]"
    by (simp add: sample_net_def send_def set_node_def start_def sample_records)
  then show ?thesis
    using stamps_identify_records [OF sample_reachable, of a_record a_record] by simp
qed




section \<open>Delivery\<close>

text \<open>C5: Applying a batch appends to the log exactly the admitted records that were not held, in
  stamp order and each once; keeps the invariant of the log, its merged tables and the version
  vector; reports how many were new, held, rejected and for unregistered tables; and stages nothing
  for rebroadcast.\<close>

theorem apply_remote_correct:
  assumes "log_ok d" "apply_remote E chs d = (out, d')"
  shows "log_ok d' \<and> changes d' = append_log (changes d) (new_records E chs d)
    \<and> sorted (List.map order_key (new_records E chs d))
    \<and> local_ops d' = local_ops d \<and> outcome_of E chs d out"
proof -
  have "sorted (List.map order_key (fresh_records held rs))"
    if "sorted (List.map order_key rs)" for held rs
    using that
  proof (induction rs arbitrary: held)
    case (Cons r rs)
    then show ?case using fresh_records_iff(2) [of _ rs] by (auto simp: subset_iff)
  qed simp
  then have "sorted (List.map order_key (new_records E chs d))"
    by (simp add: new_records_def fresh_in_def admitted_def)
  with applied_state_fields [OF apply_remote_state [OF assms(1), of E chs]]
    apply_remote_outcome [OF assms(1), of E chs] assms(2)
  show ?thesis by simp
qed

theorem apply_remote_correct_witness:
  "log_ok b_received \<and> changes b_received = [stored_of 1 a_record] \<and> local_ops b_received = []"
proof -
  have b: "log_ok (new_node ''b'')" "changes (new_node ''b'') = []"
    using new_node_ok [OF open_b] by (simp_all add: node_ok_def)
  have l: "local_ops (new_node ''b'') = []" "\<not> require_signatures (new_node ''b'')" by (simp_all add: sample_states)
  have "apply_remote toy_env a_records (new_node ''b'') =
      (fst (apply_remote toy_env a_records (new_node ''b'')), b_received)"
    by (simp add: b_received_def)
  from apply_remote_correct [OF b(1) this] l b show ?thesis
    by (simp add: sample_records new_records_def fresh_in_def admitted_def next_seq_def a_record_def)
qed

text \<open>C28: Applying a batch a second time changes nothing and reports every admitted record as held.\<close>

theorem replay_changes_nothing:
  assumes "log_ok d" "apply_remote E chs d = (out, d')"
  shows "apply_remote E chs d' =
    (no_outcome\<lparr>rejected := rejected out, duplicates := applied out + duplicates out\<rparr>, d')"
  using assms by (rule replay)

theorem replay_changes_nothing_witness:
  "snd (apply_remote toy_env a_records b_received) = b_received"
proof -
  have "apply_remote toy_env a_records (new_node ''b'') =
      (fst (apply_remote toy_env a_records (new_node ''b'')), b_received)"
    by (simp add: b_received_def)
  with replay_changes_nothing [OF _ this] new_node_ok(1) [OF open_b] show ?thesis
    by (simp add: node_ok_def)
qed

text \<open>Delivering the same records in other batches, another order or repeatedly gives the same
  cells, tombstones and version vector.\<close>

theorem delivery_order_irrelevant:
  assumes "log_ok d" "(\<Union>b\<in>set bs. set b) = (\<Union>b\<in>set cs. set b)"
    "unique_stamps (content ` set (changes d) \<union> stored_of 0 ` (\<Union>b\<in>set bs. set b))"
  shows "cells (apply_batches E bs d) = cells (apply_batches E cs d)
    \<and> tombs (apply_batches E bs d) = tombs (apply_batches E cs d)
    \<and> vv_rows (apply_batches E bs d) = vv_rows (apply_batches E cs d)"
proof -
  have adm: "(\<Union>b\<in>set xs. set (admitted E b d)) =
      {r \<in> \<Union>b\<in>set xs. set b. admissible E (require_signatures d) r}" for xs
    by (auto simp: admit_admissible)
  have "content ` set (changes (apply_batches E bs d)) = content ` set (changes (apply_batches E cs d))"
    "log_ok (apply_batches E bs d)" "log_ok (apply_batches E cs d)"
    using apply_batches_content [OF assms(1), of bs E] apply_batches_content [OF assms(1), of cs E]
      assms(2,3) unfolding adm by simp_all
  with log_ok_merge show ?thesis by blast
qed

theorem delivery_order_irrelevant_witness:
  "cells (apply_batches toy_env [[a_record\<lparr>cr_origin := ''c''\<rparr>], [a_record]] (new_node ''b'')) =
   cells (apply_batches toy_env [[a_record, a_record\<lparr>cr_origin := ''c''\<rparr>], [a_record]] (new_node ''b''))"
proof -
  have "unique_stamps (content ` set (changes (new_node ''b'')) \<union>
      stored_of 0 ` (\<Union>b\<in>set [[a_record\<lparr>cr_origin := ''c''\<rparr>], [a_record]]. set b))"
    using new_node_ok [OF open_b]
    by (auto simp: unique_stamps_def inj_on_def record_key_def a_record_def)
  moreover have "log_ok (new_node ''b'')" using new_node_ok [OF open_b] by (simp add: node_ok_def)
  ultimately show ?thesis by (intro conjunct1 [OF delivery_order_irrelevant]) auto
qed

section \<open>Signed logs\<close>

text \<open>A call on the handle of a replica: a write of the application, a flush, whether it succeeds or not, a
  delivery of anything by anybody, a call that writes other tables; or the file is opened again.\<close>

inductive handle_call :: "'x env_scheme \<Rightarrow> db \<Rightarrow> db \<Rightarrow> bool" for E where
  Written: "apply_writes E ws d = Inr d' \<Longrightarrow> handle_call E d d'"
| Flushed: "flush_local E d = (x, d') \<Longrightarrow> handle_call E d d'"
| Delivered: "apply_remote E chs d = (out, d') \<Longrightarrow> handle_call E d d'"
| Kept: "bookkeep E d d' \<Longrightarrow> handle_call E d d'"
| Reopened: "open_authenticated E (replica_file.truncate d) sk = Inr d' \<Longrightarrow> handle_call E d d'"

definition signed_log :: "'x env_scheme \<Rightarrow> db \<Rightarrow> bool" where
  "signed_log E d \<longleftrightarrow> require_signatures d
     \<and> (\<exists>sk. signer d = Some sk \<and> device_id d = peer_text E (device_peer_id E sk))
     \<and> (\<forall>c\<in>set (changes d). \<exists>r. c = stored_of (sc_seq c) r \<and> verify_author E r = Inr ())"

lemma open_signs:
  assumes "open_authenticated E file sk = Inr d"
  shows "require_signatures d" "signer d = Some sk" "device_id d = peer_text E (device_peer_id E sk)"
    "changes d = changes file"
proof -
  obtain d0 where d0: "from_connection E file (peer_text E (device_peer_id E sk)) = Inr d0"
    "d = d0\<lparr>signer := Some sk, require_signatures := True\<rparr>"
    using assms by (auto simp: open_authenticated_def split: sum.splits)
  then show "require_signatures d" "signer d = Some sk" by simp_all
  have "opened file (peer_text E (device_peer_id E sk)) d0" by (rule from_connection_opened [OF d0(1)])
  then show "device_id d = peer_text E (device_peer_id E sk)" "changes d = changes file"
    using d0(2) by (simp_all add: opened_def)
qed

lemma signed_adds:
  assumes "signed_log E d" "adds P d d'" "\<And>r. P r \<Longrightarrow> verify_author E r = Inr ()"
  shows "signed_log E d'"
proof -
  have "\<exists>r. c = stored_of (sc_seq c) r \<and> verify_author E r = Inr ()" if "c \<in> set (changes d')" for c
    using addsD [OF assms(2) that] assms(1,3) unfolding signed_log_def by blast
  then show ?thesis using adds_handle [OF assms(2)] assms(1) by (simp add: signed_log_def)
qed

lemma written_verifies:
  assumes "crypto_laws E" "written_by E (Some sk) (peer_text E (device_peer_id E sk)) r"
  shows "verify_author E r = Inr ()"
proof -
  have r: "cr_origin r = peer_text E (device_peer_id E sk)" "cr_sig r = ed_sign E sk (signing_bytes r)"
    using assms by (simp_all add: written_by_def crypto_lawsD)
  then show ?thesis
    using assms(1) by (simp add: verify_author_def crypto_lawsD peer_public_key_device)
qed

lemma signed_call:
  assumes "crypto_laws E" "handle_call E d d'" "signed_log E d"
  shows "signed_log E d'"
  using assms(2)
proof cases
  case (Written ws)
  from signed_adds [OF assms(3) adds_app_only [OF apply_writes_app_only [OF this], of "\<lambda>r. False"]]
  show ?thesis by blast
next
  case (Flushed x)
  obtain sk where sk: "signer d = Some sk" "device_id d = peer_text E (device_peer_id E sk)"
    using assms(3) by (auto simp: signed_log_def)
  have "adds (written_by E (Some sk) (peer_text E (device_peer_id E sk))) d d'"
    using adds_flush_local [of E d] sk Flushed by simp
  with assms(1,3) show ?thesis by (blast intro: signed_adds written_verifies)
next
  case (Delivered chs out)
  have strict: "require_signatures d" using assms(3) by (simp add: signed_log_def)
  have "adds (\<lambda>r. r \<in> set (fst (admit E (require_signatures d) chs))) d d'"
    using adds_apply_remote [of E d chs] Delivered by simp
  with assms(3) show ?thesis
    by (rule signed_adds) (simp add: admit_admissible admissible_def strict)
next
  case Kept
  have "signer d' = signer d \<and> require_signatures d' = require_signatures d"
    using Kept
  proof cases
    case (Register t pk)
    then show ?thesis using register_table_frame [of d E t pk] by (simp add: register_frame_fields)
  qed (auto simp: set_meta_def mark_broadcast_def record_peer_def touch_peer_def split: option.split)
  with bookkeep_keeps(1,2) [OF Kept] assms(3) show ?thesis by (simp add: signed_log_def)
next
  case (Reopened sk)
  from open_signs [OF this] assms(3) show ?thesis by (simp add: signed_log_def replica_file.defs)
qed

text \<open>C27: A replica opened with a key on an unused file, whatever calls are made on it after that (writes,
  flushes, deliveries of anything by anybody, registrations, openings of the file with this or another
  key), holds only records that verify as signed by the device they name as their author: what it flushes
  it has signed, and what it was handed without such a signature it did not store.\<close>

theorem stored_records_verify:
  assumes "crypto_laws E" "unused file" "open_authenticated E file sk = Inr d0" "(handle_call E)\<^sup>*\<^sup>* d0 d"
    "c \<in> set (changes d)"
  shows "\<exists>r. c = stored_of (sc_seq c) r \<and> verify_author E r = Inr ()"
proof -
  have "signed_log E d0"
    using open_signs [OF assms(3)] assms(2) by (simp add: signed_log_def unused_def)
  with assms(4) have "signed_log E d"
    by (induction rule: rtranclp_induct) (blast intro: signed_call [OF assms(1)])+
  with assms(5) show ?thesis by (simp add: signed_log_def)
qed

definition signing_node :: db where
  "signing_node = snd (register_table toy_env ''n'' ''k'' (the_db (open_authenticated toy_env notes_file [2])))"

definition signing_written :: db where
  "signing_written = the_db (apply_writes toy_env [WInsert ''n'' a_note] signing_node)"

definition signing_flushed :: db where
  "signing_flushed = snd (flush_local toy_env signing_written)"

lemma signing_opens: "ok_result (open_authenticated toy_env notes_file [2])"
  by code_simp

lemma signing_writes: "ok_result (apply_writes toy_env [WInsert ''n'' a_note] signing_node)"
  unfolding signing_node_def by code_simp

lemma signing_stores: "List.map sc_tbl (changes signing_flushed) = [''n'']"
  "length (changes (snd (apply_remote toy_env [a_record] signing_flushed))) = 1"
  unfolding signing_flushed_def signing_written_def signing_node_def by code_simp+

theorem stored_records_verify_witness:
  "\<exists>c r. changes (snd (apply_remote toy_env [a_record] signing_flushed)) = [c]
     \<and> c = stored_of (sc_seq c) r \<and> verify_author toy_env r = Inr ()"
proof -
  let ?d0 = "the_db (open_authenticated toy_env notes_file [2])"
  have f: "unused notes_file" by (simp add: unused_def notes_file_def empty_file_def)
  have c1: "handle_call toy_env ?d0 signing_node"
    unfolding signing_node_def by (intro handle_call.Kept bookkeep.Register)
  have c2: "handle_call toy_env signing_node signing_written"
    unfolding signing_written_def by (rule handle_call.Written [OF the_db_ok [OF signing_writes]])
  have c3: "handle_call toy_env signing_written signing_flushed"
    by (rule handle_call.Flushed [of toy_env _ "fst (flush_local toy_env signing_written)"])
      (simp add: signing_flushed_def)
  have c4: "handle_call toy_env signing_flushed (snd (apply_remote toy_env [a_record] signing_flushed))"
    by (rule handle_call.Delivered [of toy_env "[a_record]" _ "fst (apply_remote toy_env [a_record] signing_flushed)"])
      simp
  note into = rtranclp.rtrancl_into_rtrancl [of "handle_call toy_env"]
  have run: "(handle_call toy_env)\<^sup>*\<^sup>* ?d0 (snd (apply_remote toy_env [a_record] signing_flushed))"
    by (rule into [OF into [OF into [OF into [OF rtranclp.rtrancl_refl c1] c2] c3] c4])
  obtain c where c: "changes (snd (apply_remote toy_env [a_record] signing_flushed)) = [c]"
    using signing_stores(2) by (auto simp: length_Suc_conv)
  then have "c \<in> set (changes (snd (apply_remote toy_env [a_record] signing_flushed)))" by simp
  from stored_records_verify [OF toy_env_laws f the_db_ok [OF signing_opens] run this] c
  show ?thesis by blast
qed

end
