(* ===== verification/Visible.thy ===== *)
theory Visible
  imports Rows
begin

text \<open>
  What the application sees after a merge: the rows of a table against the records of the log.
\<close>

section \<open>The log's verdict\<close>

text \<open>The record that decides a column of a row, and whether the row is deleted, read off the log alone.\<close>

definition writes_to :: "string \<Rightarrow> string \<Rightarrow> string \<Rightarrow> stored_change \<Rightarrow> bool" where
  "writes_to t pk col c \<longleftrightarrow> \<not> is_delete c \<and> sc_tbl c = t \<and> sc_pk c = pk \<and> sc_col c = col"

definition last_write :: "stored_change list \<Rightarrow> string \<Rightarrow> string \<Rightarrow> string \<Rightarrow> stored_change \<Rightarrow> bool" where
  "last_write log t pk col c \<longleftrightarrow> c \<in> set log \<and> writes_to t pk col c
     \<and> (\<forall>c'\<in>set log. writes_to t pk col c' \<longrightarrow> log_order c' \<le> log_order c)"

definition deleted_in :: "stored_change list \<Rightarrow> string \<Rightarrow> string \<Rightarrow> bool" where
  "deleted_in log t pk \<longleftrightarrow> (\<exists>c\<in>set log. is_delete c \<and> sc_tbl c = t \<and> sc_pk c = pk
     \<and> (\<forall>c'\<in>set log. \<not> is_delete c' \<longrightarrow> sc_tbl c' = t \<longrightarrow> sc_pk c' = pk \<longrightarrow> log_order c' < log_order c))"

definition cell_in :: "stored_change \<Rightarrow> cell" where
  "cell_in c = \<lparr>cl_val = sc_val c, cl_vtype = sc_vtype c, cl_hlc = sc_hlc c, cl_origin = sc_origin c\<rparr>"

lemma cell_in_simps [simp]:
  "cell_stamp (cell_in c) = log_order c" "cl_val (cell_in c) = sc_val c" "cl_vtype (cell_in c) = sc_vtype c"
  by (simp_all add: cell_in_def cell_stamp_def log_order_def)

lemma cell_entry_iff: "((t, pk, col), v) \<in> set (cell_entries log) \<longleftrightarrow>
    (\<exists>c\<in>set log. writes_to t pk col c \<and> v = cell_in c)"
  by (auto simp: cell_entries_def writes_to_def cell_in_def)

lemma same_stamp:
  "rows_ok log \<Longrightarrow> c \<in> set log \<Longrightarrow> c' \<in> set log \<Longrightarrow> log_order c = log_order c' \<Longrightarrow> c = c'"
  by (auto simp: rows_ok_def log_order_def change_key_def distinct_map inj_on_def)

lemma cells_winner:
  assumes "data_ok d" "tbl_get (cells d) (t, pk, col) = Some v"
  shows "\<exists>c. last_write (changes d) t pk col c \<and> v = cell_in c"
proof -
  have "tbl_get (fold (\<lambda>e. cell_put (fst e) (snd e)) (cell_entries (changes d)) []) (t, pk, col) = Some v"
    using assms by (simp add: data_ok_def merged_cells_def)
  from cellt.fold_put_winner [OF _ this]
  have mem: "((t, pk, col), v) \<in> set (cell_entries (changes d))"
    and max: "\<And>u. ((t, pk, col), u) \<in> set (cell_entries (changes d)) \<Longrightarrow> cell_stamp u \<le> cell_stamp v" by auto
  from mem obtain c where c: "c \<in> set (changes d)" "writes_to t pk col c" "v = cell_in c"
    unfolding cell_entry_iff by blast
  moreover have "log_order c' \<le> log_order c" if "c' \<in> set (changes d)" "writes_to t pk col c'" for c'
    using max [of "cell_in c'"] that c(3) unfolding cell_entry_iff by auto
  ultimately show ?thesis unfolding last_write_def by blast
qed

lemma cells_written:
  assumes "data_ok d" "c \<in> set (changes d)" "writes_to t pk col c"
  shows "\<exists>c'. tbl_get (cells d) (t, pk, col) = Some (cell_in c') \<and> log_order c \<le> log_order c'"
proof -
  have "((t, pk, col), cell_in c) \<in> set (cell_entries (changes d))" using assms unfolding cell_entry_iff by blast
  then have "tbl_get (cells d) (t, pk, col) \<noteq> None"
    using assms(1) cellt.fold_put_get [of "[]" "cell_entries (changes d)" "(t, pk, col)"]
    by (force simp: data_ok_def merged_cells_def)
  then obtain v where v: "tbl_get (cells d) (t, pk, col) = Some v" by blast
  from cells_winner [OF assms(1) v] obtain c' where "last_write (changes d) t pk col c'" "v = cell_in c'" by blast
  with v assms(2,3) show ?thesis by (auto simp: last_write_def)
qed

lemma last_write_cell:
  assumes "data_ok d" "last_write (changes d) t pk col c"
  shows "tbl_get (cells d) (t, pk, col) = Some (cell_in c)"
proof -
  have c: "c \<in> set (changes d)" "writes_to t pk col c" using assms(2) by (simp_all add: last_write_def)
  from cells_written [OF assms(1) this] obtain v where v: "tbl_get (cells d) (t, pk, col) = Some v" by blast
  from cells_winner [OF assms(1) v] obtain c' where c': "last_write (changes d) t pk col c'" "v = cell_in c'" by blast
  then have "log_order c = log_order c'" using assms(2) by (simp add: last_write_def order.antisym)
  then have "c = c'" using same_stamp [of "changes d" c c'] assms(1) c(1) c'(1) by (simp add: data_ok_def last_write_def)
  with v c' show ?thesis by simp
qed

lemma last_write_exists:
  "data_ok d \<Longrightarrow> c \<in> set (changes d) \<Longrightarrow> writes_to t pk col c \<Longrightarrow> \<exists>c'. last_write (changes d) t pk col c'"
  using cells_written cells_winner by blast

lemma row_cells_iff:
  "tbl_wf (cells d) \<Longrightarrow> (col, v) \<in> set (row_cells d t pk) \<longleftrightarrow> tbl_get (cells d) (t, pk, col) = Some v"
  by (force simp: row_cells_def tbl_get_Some_set)

lemma tomb_winner:
  assumes "data_ok d"
  shows "tbl_get (tombs d) (t, pk) = None \<longleftrightarrow>
      (\<forall>c\<in>set (changes d). is_delete c \<longrightarrow> (sc_tbl c, sc_pk c) \<noteq> (t, pk))"
    "tbl_get (tombs d) (t, pk) = Some th \<Longrightarrow>
      (\<exists>c\<in>set (changes d). is_delete c \<and> (sc_tbl c, sc_pk c) = (t, pk) \<and> log_order c = th)
      \<and> (\<forall>c\<in>set (changes d). is_delete c \<longrightarrow> (sc_tbl c, sc_pk c) = (t, pk) \<longrightarrow> log_order c \<le> th)"
proof -
  have tombs: "tombs d = fold (\<lambda>e. stamp_put (fst e) (snd e)) (tomb_entries (changes d)) []"
    using assms by (simp add: data_ok_def merged_tombs_def)
  have mem: "(k, s) \<in> set (tomb_entries (changes d)) \<longleftrightarrow>
      (\<exists>c\<in>set (changes d). is_delete c \<and> (sc_tbl c, sc_pk c) = k \<and> log_order c = s)" for k s
    by (auto simp: tomb_entries_def log_order_def)
  show "tbl_get (tombs d) (t, pk) = None \<longleftrightarrow>
      (\<forall>c\<in>set (changes d). is_delete c \<longrightarrow> (sc_tbl c, sc_pk c) \<noteq> (t, pk))"
    using stampt.fold_put_get [of "[]" "tomb_entries (changes d)" "(t, pk)"]
    by (force simp: tombs tomb_entries_def)
  assume "tbl_get (tombs d) (t, pk) = Some th"
  then have "tbl_get (fold (\<lambda>e. stamp_put (fst e) (snd e)) (tomb_entries (changes d)) []) (t, pk) = Some th"
    by (simp add: tombs)
  from stampt.fold_put_winner [OF _ this] show "(\<exists>c\<in>set (changes d). is_delete c \<and> (sc_tbl c, sc_pk c) = (t, pk) \<and> log_order c = th)
      \<and> (\<forall>c\<in>set (changes d). is_delete c \<longrightarrow> (sc_tbl c, sc_pk c) = (t, pk) \<longrightarrow> log_order c \<le> th)"
    by (simp add: mem) (metis surj_pair)
qed

text \<open>What \<open>materialize\<close> decides from tombstone and cells is what the log says.\<close>

lemma row_deleted_log:
  assumes "data_ok d"
  shows "row_deleted (tbl_get (tombs d) (t, pk)) (row_cells d t pk) \<longleftrightarrow> deleted_in (changes d) t pk"
proof -
  let ?cs = "row_cells d t pk"
  have wf: "tbl_wf (cells d)" using assms by (simp add: data_ok_def)
  have below: "(\<forall>x\<in>cell_stamp ` snd ` set ?cs. x < th) \<longleftrightarrow>
      (\<forall>c\<in>set (changes d). \<not> is_delete c \<longrightarrow> sc_tbl c = t \<longrightarrow> sc_pk c = pk \<longrightarrow> log_order c < th)" for th
  proof (intro iffI ballI impI)
    fix c assume all: "\<forall>x\<in>cell_stamp ` snd ` set ?cs. x < th"
      and c: "c \<in> set (changes d)" "\<not> is_delete c" "sc_tbl c = t" "sc_pk c = pk"
    then have "writes_to t pk (sc_col c) c" by (simp add: writes_to_def)
    from cells_written [OF assms c(1) this] obtain c' where
      "(sc_col c, cell_in c') \<in> set ?cs" "log_order c \<le> log_order c'"
      unfolding row_cells_iff [OF wf] by blast
    with all have "log_order c' < th" by force
    with \<open>log_order c \<le> log_order c'\<close> show "log_order c < th" by simp
  next
    fix x assume all: "\<forall>c\<in>set (changes d). \<not> is_delete c \<longrightarrow> sc_tbl c = t \<longrightarrow> sc_pk c = pk \<longrightarrow> log_order c < th"
      and "x \<in> cell_stamp ` snd ` set ?cs"
    then obtain col v where v: "x = cell_stamp v" "tbl_get (cells d) (t, pk, col) = Some v"
      using row_cells_iff [OF wf] by force
    from cells_winner [OF assms v(2)] obtain c where "last_write (changes d) t pk col c" "v = cell_in c" by blast
    with all v(1) show "x < th" by (auto simp: last_write_def writes_to_def)
  qed
  have max: "(if ?cs = [] then True else th > Max (cell_stamp ` snd ` set ?cs)) \<longleftrightarrow>
      (\<forall>x\<in>cell_stamp ` snd ` set ?cs. x < th)" for th
    by (simp add: Max_less_iff)
  show ?thesis
  proof (cases "tbl_get (tombs d) (t, pk)")
    case None
    then show ?thesis using tomb_winner(1) [OF assms, of t pk] by (auto simp: row_deleted_def deleted_in_def)
  next
    case (Some th)
    note w = tomb_winner(2) [OF assms Some]
    have "row_deleted (Some th) ?cs \<longleftrightarrow>
        (\<forall>c\<in>set (changes d). \<not> is_delete c \<longrightarrow> sc_tbl c = t \<longrightarrow> sc_pk c = pk \<longrightarrow> log_order c < th)"
      unfolding row_deleted_def option.case max below ..
    also have "\<dots> \<longleftrightarrow> deleted_in (changes d) t pk"
      using w unfolding deleted_in_def by (auto intro: less_le_trans)
    finally show ?thesis using Some by simp
  qed
qed

section \<open>Tables the merge can always write\<close>

text \<open>
  The tables this library makes a promise for: a text key, and no constraint but one per column (\<open>NOT NULL\<close>
  or \<open>CHECK\<close> of the column), which the defaults meet.  \<open>ok col v\<close> says that the column takes the value.
\<close>

definition good_rows :: "(string \<Rightarrow> sql_value \<Rightarrow> bool) \<Rightarrow> (string \<times> int) list \<Rightarrow> row list \<Rightarrow> bool" where
  "good_rows ok info rows \<longleftrightarrow>
     (\<forall>r\<in>set rows. List.map fst r = List.map fst info \<and> (\<forall>(c, v)\<in>set r. ok c v))"

definition column_checks ::
  "'a env_scheme \<Rightarrow> (string \<Rightarrow> sql_value \<Rightarrow> bool) \<Rightarrow> table_spec \<Rightarrow> (string \<times> int) list \<Rightarrow> bool" where
  "column_checks E ok spec info \<longleftrightarrow>
     (let t = ts_name spec; pk_col = ts_pk_col spec; cols = fst ` set info
      in distinct (List.map fst info) \<and> pk_col \<notin> set (ts_cols spec) \<and> insert pk_col (set (ts_cols spec)) \<subseteq> cols
       \<and> (\<forall>s. affinity E t pk_col (VText s) = VText s \<and> ok pk_col (VText s))
       \<and> (\<forall>(c, _)\<in>set info. ok c (col_default E t c))
       \<and> (\<forall>r. good_rows ok info [r] \<longrightarrow> row_ok E t r)
       \<and> (\<forall>rs r. row_value r pk_col \<notin> (\<lambda>r. row_value r pk_col) ` set rs \<longrightarrow> unique_ok E t rs r))"

definition cells_fit ::
  "'a env_scheme \<Rightarrow> (string \<Rightarrow> sql_value \<Rightarrow> bool) \<Rightarrow> table_spec \<Rightarrow> 'b replica_file_scheme \<Rightarrow> bool" where
  "cells_fit E ok spec d \<longleftrightarrow> (\<forall>pk. \<forall>col\<in>set (ts_cols spec). \<forall>c.
     tbl_get (cells d) (ts_name spec, pk, col) = Some c \<longrightarrow>
       (\<exists>v. from_storage (cl_vtype c) (cl_val c) = Inr v \<and> ok col (affinity E (ts_name spec) col v)))"

lemma column_checksD:
  assumes "column_checks E ok spec info"
  shows "distinct (List.map fst info)" "ts_pk_col spec \<notin> set (ts_cols spec)" "ts_pk_col spec \<in> fst ` set info"
    "set (ts_cols spec) \<subseteq> fst ` set info" "affinity E (ts_name spec) (ts_pk_col spec) (VText s) = VText s"
    "ok (ts_pk_col spec) (VText s)" "(c, i) \<in> set info \<Longrightarrow> ok c (col_default E (ts_name spec) c)"
    "good_rows ok info [r] \<Longrightarrow> row_ok E (ts_name spec) r"
    "row_value r (ts_pk_col spec) \<notin> (\<lambda>r. row_value r (ts_pk_col spec)) ` set rs \<Longrightarrow> unique_ok E (ts_name spec) rs r"
  using assms by (auto simp: column_checks_def Let_def)

text \<open>Values for known columns that the columns take.\<close>

definition fit_values :: "'a env_scheme \<Rightarrow> (string \<Rightarrow> sql_value \<Rightarrow> bool) \<Rightarrow> table_spec \<Rightarrow> row \<Rightarrow> bool" where
  "fit_values E ok spec vals \<longleftrightarrow>
     (\<forall>(c, v)\<in>set vals. c \<in> set (ts_cols spec) \<and> ok c (affinity E (ts_name spec) c v))"

lemma decode_fits:
  assumes "\<forall>(col, c)\<in>set cs. col \<in> set (ts_cols spec) \<longrightarrow>
      (\<exists>v. from_storage (cl_vtype c) (cl_val c) = Inr v \<and> ok col (affinity E (ts_name spec) col v))"
  shows "\<exists>vals. decode_cells (ts_cols spec) cs = Inr vals \<and> fit_values E ok spec vals"
  using assms
  by (induction "ts_cols spec" cs rule: decode_cells.induct) (auto simp: fit_values_def)

lemma good_candidate:
  assumes "column_checks E ok spec info" "fit_values E ok spec vals"
  shows "good_rows ok info [candidate_row E (ts_name spec) \<lparr>at_info = info, at_rows = rows\<rparr> ((ts_pk_col spec, VText pk) # vals)]"
    "row_value (candidate_row E (ts_name spec) \<lparr>at_info = info, at_rows = rows\<rparr> ((ts_pk_col spec, VText pk) # vals))
       (ts_pk_col spec) = VText pk"
proof -
  note D = column_checksD [OF assms(1)]
  have vals: "map_of vals c = Some v \<Longrightarrow> ok c (affinity E (ts_name spec) c v)" for c v
    using assms(2) map_of_SomeD [of vals c v] by (auto simp: fit_values_def)
  show "good_rows ok info [candidate_row E (ts_name spec) \<lparr>at_info = info, at_rows = rows\<rparr> ((ts_pk_col spec, VText pk) # vals)]"
    using D(5,6) D(7) vals by (auto simp: good_rows_def candidate_row_def o_def split: option.split)
  show "row_value (candidate_row E (ts_name spec) \<lparr>at_info = info, at_rows = rows\<rparr> ((ts_pk_col spec, VText pk) # vals))
       (ts_pk_col spec) = VText pk"
    using candidate_value [of "ts_pk_col spec" "\<lparr>at_info = info, at_rows = rows\<rparr>" "(ts_pk_col spec, VText pk) # vals" "VText pk" E] D(3,5)
    by simp
qed

lemma good_row_fields:
  assumes "column_checks E ok spec info" "good_rows ok info [r]"
  shows "row_value (update_row cols ex r) c =
      (if c \<in> set cols \<and> c \<in> fst ` set info then row_value ex c else row_value r c)"
    "good_rows ok info [ex] \<Longrightarrow> good_rows ok info [update_row cols ex r]"
proof -
  have cols: "List.map fst r = List.map fst info" using assms(2) by (simp add: good_rows_def)
  then have dom: "map_of r c = None \<longleftrightarrow> c \<notin> fst ` set info" for c
    by (metis map_of_eq_None_iff list.set_map)
  show "row_value (update_row cols ex r) c =
      (if c \<in> set cols \<and> c \<in> fst ` set info then row_value ex c else row_value r c)"
    using dom [of c] by (auto simp: row_value_def update_row_get split: option.split)
  assume ex: "good_rows ok info [ex]"
  then have "List.map fst ex = List.map fst info" by (simp add: good_rows_def)
  then have "ok c (row_value ex c)" if "(c, v) \<in> set r" for c v
  proof -
    have "c \<in> set (List.map fst ex)" using that cols \<open>List.map fst ex = List.map fst info\<close> by (metis fst_conv image_eqI list.set_map)
    then obtain w where "map_of ex c = Some w" by (metis list.set_map map_of_eq_None_iff not_None_eq)
    then show ?thesis using ex map_of_SomeD [of ex c w] by (auto simp: row_value_def good_rows_def)
  qed
  then show "good_rows ok info [update_row cols ex r]"
    using assms(2) cols by (auto simp: good_rows_def update_row_def o_def split_beta)
qed

definition other_rows :: "'a env_scheme \<Rightarrow> string \<Rightarrow> string \<Rightarrow> row list \<Rightarrow> row set" where
  "other_rows E pk_col pk rows = {r \<in> set rows. row_key E pk_col r \<noteq> Some pk}"

text \<open>The upsert of a row goes through and leaves the rows with other keys alone.\<close>

lemma upsert_good:
  fixes E :: "'a env_scheme"
  assumes "column_checks E ok spec info" "fit_values E ok spec vals" "good_rows ok info rows"
  shows "\<exists>rows' evs. upsert_row E (ts_name spec) (ts_pk_col spec) ((ts_pk_col spec, VText pk) # vals)
      \<lparr>at_info = info, at_rows = rows\<rparr> = Inr (rows', evs)
    \<and> good_rows ok info rows' \<and> other_rows E (ts_pk_col spec) pk rows' = other_rows E (ts_pk_col spec) pk rows"
proof -
  let ?pk = "ts_pk_col spec" and ?t = "ts_name spec"
  let ?given = "(?pk, VText pk) # vals"
  let ?cand = "candidate_row E ?t \<lparr>at_info = info, at_rows = rows\<rparr> ?given"
  let ?same = "\<lambda>r. row_value r ?pk = row_value ?cand ?pk"
  note D = column_checksD [OF assms(1)]
  have cand: "good_rows ok info [?cand]" "row_value ?cand ?pk = VText pk"
    using good_candidate [OF assms(1,2), of rows pk] by simp_all
  have "fst ` set vals \<subseteq> set (ts_cols spec)" using assms(2) by (auto simp: fit_values_def)
  with D(3,4) have cols: "set (List.map fst ?given) \<subseteq> fst ` set info" by auto
  show ?thesis
  proof (cases "List.find ?same rows")
    case None
    then have "row_value ?cand ?pk \<notin> (\<lambda>r. row_value r ?pk) ` set rows" by (auto simp: find_None_iff)
    then have "upsert_row E ?t ?pk ?given \<lparr>at_info = info, at_rows = rows\<rparr> = Inr (rows @ [?cand], [Inserted ?cand])"
      using None cols D(8) [OF cand(1)] D(9) [of ?cand rows] by (simp add: upsert_row_def Let_def)
    then show ?thesis using assms(3) cand by (auto simp: good_rows_def other_rows_def row_key_def)
  next
    case (Some old)
    let ?new = "update_row (List.map fst ?given) ?cand old"
    have old: "old \<in> set rows" "?same old" using Some by (auto simp: find_Some_iff)
    have good_old: "good_rows ok info [old]" using assms(3) old(1) by (simp add: good_rows_def)
    note new = good_row_fields(2) [OF assms(1) good_old cand(1), of "List.map fst ?given"]
    have key: "row_value ?new ?pk = VText pk"
      using good_row_fields(1) [OF assms(1) good_old, of "List.map fst ?given" ?cand ?pk] D(3) cand(2) by simp
    then have "row_value ?new ?pk \<notin> (\<lambda>r. row_value r ?pk) ` set (List.filter (\<lambda>r. \<not> ?same r) rows)"
      using cand(2) by auto
    then have "upsert_row E ?t ?pk ?given \<lparr>at_info = info, at_rows = rows\<rparr> =
        Inr (List.map (\<lambda>r. if ?same r then ?new else r) rows, [Updated old ?new])"
      using Some cols D(8) [OF cand(1)] D(8) [OF new] D(9) by (simp add: upsert_row_def Let_def)
    moreover have "good_rows ok info (List.map (\<lambda>r. if ?same r then ?new else r) rows)"
      using assms(3) new by (auto simp: good_rows_def)
    moreover have "other_rows E ?pk pk (List.map (\<lambda>r. if ?same r then ?new else r) rows) = other_rows E ?pk pk rows"
      using key cand(2) by (force simp: other_rows_def row_key_def)
    ultimately show ?thesis by blast
  qed
qed

section \<open>Rebuilding one row, and all that a batch touched\<close>

lemma materialize_other_app:
  "materialize E spec pk d = Inr d' \<Longrightarrow> t \<noteq> ts_name spec \<Longrightarrow> tbl_get (app d') t = tbl_get (app d) t"
  unfolding materialize_def write_rows_def
  by (auto simp: Let_def set_rows_def tbl_get_put split: if_splits option.splits sum.splits dest!: fire_all_app)

definition table_in :: "'a replica_file_scheme \<Rightarrow> (string \<Rightarrow> sql_value \<Rightarrow> bool) \<Rightarrow> string \<Rightarrow> (string \<times> int) list \<Rightarrow> bool" where
  "table_in d ok t info \<longleftrightarrow> tbl_get (app d) t = Some \<lparr>at_info = info, at_rows = rows_of d t\<rparr>
     \<and> good_rows ok info (rows_of d t)"

lemma row_cells_fit:
  assumes "cells_fit E ok spec d" "tbl_wf (cells d)"
  shows "\<exists>vals. decode_cells (ts_cols spec) (row_cells d (ts_name spec) pk) = Inr vals \<and> fit_values E ok spec vals"
proof (rule decode_fits)
  show "\<forall>(col, c)\<in>set (row_cells d (ts_name spec) pk). col \<in> set (ts_cols spec) \<longrightarrow>
      (\<exists>v. from_storage (cl_vtype c) (cl_val c) = Inr v \<and> ok col (affinity E (ts_name spec) col v))"
    using assms(1) unfolding cells_fit_def by (auto simp: row_cells_iff [OF assms(2)])
qed

lemma set_rows_table:
  assumes "tbl_get (app d) t = Some \<lparr>at_info = info, at_rows = rows\<rparr>"
  shows "rows_of (set_rows t rows' d) t = rows'"
    "tbl_get (app (set_rows t rows' d)) t = Some \<lparr>at_info = info, at_rows = rows'\<rparr>"
  using assms by (simp_all add: set_rows_def rows_of_def tbl_get_put)

lemma materialize_good:
  fixes E :: "'a env_scheme"
  assumes "column_checks E ok spec info" "cells_fit E ok spec d" "tbl_wf (cells d)" "guard d \<noteq> 0"
    "table_in d ok (ts_name spec) info"
  shows "\<exists>d'. materialize E spec pk d = Inr d' \<and> table_in d' ok (ts_name spec) info
    \<and> other_rows E (ts_pk_col spec) pk (rows_of d' (ts_name spec)) =
        other_rows E (ts_pk_col spec) pk (rows_of d (ts_name spec))"
proof -
  let ?t = "ts_name spec" and ?cs = "row_cells d (ts_name spec) pk" and ?tomb = "tbl_get (tombs d) (ts_name spec, pk)"
  let ?live = "List.filter (\<lambda>r. row_key E (ts_pk_col spec) r \<noteq> Some pk) (rows_of d ?t)"
  have at: "tbl_get (app d) ?t = Some \<lparr>at_info = info, at_rows = rows_of d ?t\<rparr>" and good: "good_rows ok info (rows_of d ?t)"
    using assms(5) by (simp_all add: table_in_def)
  obtain vals where vals: "decode_cells (ts_cols spec) ?cs = Inr vals" "fit_values E ok spec vals"
    using row_cells_fit [OF assms(2,3)] by blast
  obtain rows' evs where up: "upsert_row E ?t (ts_pk_col spec) ((ts_pk_col spec, VText pk) # vals)
      \<lparr>at_info = info, at_rows = rows_of d ?t\<rparr> = Inr (rows', evs)" "good_rows ok info rows'"
    "other_rows E (ts_pk_col spec) pk rows' = other_rows E (ts_pk_col spec) pk (rows_of d ?t)"
    using upsert_good [OF assms(1) vals(2) good] by blast
  have "materialize E spec pk d = (if ?cs = [] \<and> ?tomb = None then Inr d
      else if row_deleted ?tomb ?cs then Inr (set_rows ?t ?live d) else Inr (set_rows ?t rows' d))"
    by (simp add: materialize_def Let_def at vals(1) up(1) write_rows_guarded [OF assms(4)] cong: if_cong)
  then consider "materialize E spec pk d = Inr d" | "materialize E spec pk d = Inr (set_rows ?t ?live d)"
    | "materialize E spec pk d = Inr (set_rows ?t rows' d)"
    by (auto split: if_splits)
  then show ?thesis
  proof cases
    case 1
    then show ?thesis using assms(5) by blast
  next
    case 2
    then show ?thesis
      using good by (simp add: table_in_def set_rows_table [OF at]) (auto simp: good_rows_def other_rows_def)
  next
    case 3
    then show ?thesis using up(2,3) by (simp add: table_in_def set_rows_table [OF at])
  qed
qed

text \<open>The rows with one key, against the tombstone and the cells for it.\<close>

definition shown :: "'a env_scheme \<Rightarrow> table_spec \<Rightarrow> string \<Rightarrow> 'b replica_file_scheme \<Rightarrow> bool" where
  "shown E spec pk d \<longleftrightarrow>
     (let t = ts_name spec; pk_col = ts_pk_col spec; cs = row_cells d t pk
      in if row_deleted (tbl_get (tombs d) (t, pk)) cs
         then \<forall>r\<in>set (rows_of d t). row_key E pk_col r \<noteq> Some pk
         else cs \<noteq> [] \<longrightarrow> (\<exists>r\<in>set (rows_of d t). row_value r pk_col = VText pk
           \<and> (\<forall>col\<in>set (ts_cols spec). \<forall>c. map_of cs col = Some c \<longrightarrow>
                (\<exists>v. from_storage (cl_vtype c) (cl_val c) = Inr v \<and> row_value r col = affinity E t col v))))"

lemma shown_same:
  assumes "cells d' = cells d" "tombs d' = tombs d" "rows_of d' (ts_name spec) = rows_of d (ts_name spec)"
  shows "shown E spec pk d' = shown E spec pk d"
proof -
  have cs: "row_cells d' t k = row_cells d t k" for t k by (simp add: row_cells_def assms(1))
  show ?thesis unfolding shown_def Let_def cs assms(2,3) ..
qed

lemma shown_other:
  assumes "shown E spec pk d" "pk \<noteq> pk'" "cells d' = cells d" "tombs d' = tombs d"
    "other_rows E (ts_pk_col spec) pk' (rows_of d' (ts_name spec)) =
       other_rows E (ts_pk_col spec) pk' (rows_of d (ts_name spec))"
  shows "shown E spec pk d'"
proof -
  let ?R = "rows_of d (ts_name spec)" and ?R' = "rows_of d' (ts_name spec)"
  have mem: "r \<in> set ?R' \<longleftrightarrow> r \<in> set ?R" if "row_key E (ts_pk_col spec) r = Some pk" for r
  proof -
    have "r \<in> other_rows E (ts_pk_col spec) pk' ?R' \<longleftrightarrow> r \<in> other_rows E (ts_pk_col spec) pk' ?R" using assms(5) by simp
    with that assms(2) show ?thesis by (simp add: other_rows_def)
  qed
  have all: "(\<forall>r\<in>set ?R'. row_key E (ts_pk_col spec) r \<noteq> Some pk) \<longleftrightarrow>
      (\<forall>r\<in>set ?R. row_key E (ts_pk_col spec) r \<noteq> Some pk)"
    using mem by blast
  have ex: "(\<exists>r\<in>set ?R'. row_value r (ts_pk_col spec) = VText pk \<and> Q r) \<longleftrightarrow>
      (\<exists>r\<in>set ?R. row_value r (ts_pk_col spec) = VText pk \<and> Q r)" for Q
  proof -
    have "row_value r (ts_pk_col spec) = VText pk \<Longrightarrow> row_key E (ts_pk_col spec) r = Some pk" for r
      by (simp add: row_key_def)
    with mem show ?thesis by blast
  qed
  have cs: "row_cells d' t k = row_cells d t k" for t k by (simp add: row_cells_def assms(3))
  show ?thesis using assms(1) unfolding shown_def Let_def cs assms(4) all ex .
qed

lemma materialize_shown:
  assumes "column_checks E ok spec info" "table_in d ok (ts_name spec) info" "materialize E spec pk d = Inr d'"
    "cells d' = cells d" "tombs d' = tombs d"
  shows "shown E spec pk d'"
proof -
  let ?t = "ts_name spec"
  have at: "tbl_get (app d) ?t = Some \<lparr>at_info = info, at_rows = rows_of d ?t\<rparr>"
    and full: "full_rows \<lparr>at_info = info, at_rows = rows_of d ?t\<rparr>"
    using assms(2) by (auto simp: table_in_def good_rows_def full_rows_def)
  note D = column_checksD [OF assms(1)]
  have cs: "row_cells d' ?t pk = row_cells d ?t pk" by (simp add: row_cells_def assms(4))
  show ?thesis
  proof (cases "row_deleted (tbl_get (tombs d) (?t, pk)) (row_cells d ?t pk)")
    case True
    then show ?thesis using materialize_deleted [OF assms(3) True] by (simp add: shown_def Let_def cs assms(5))
  next
    case False
    have "row_cells d ?t pk \<noteq> [] \<Longrightarrow> (\<exists>r\<in>set (rows_of d' ?t). row_value r (ts_pk_col spec) = VText pk
           \<and> (\<forall>col\<in>set (ts_cols spec). \<forall>c. map_of (row_cells d ?t pk) col = Some c \<longrightarrow>
                (\<exists>v. from_storage (cl_vtype c) (cl_val c) = Inr v \<and> row_value r col = affinity E ?t col v)))"
      using materialize_written [OF assms(3) at full _ False D(2)] by (simp add: D(5))
    with False show ?thesis by (simp add: shown_def Let_def cs assms(5))
  qed
qed

text \<open>The whole second loop of \<open>apply_remote\<close>.\<close>

definition specs_named :: "db \<Rightarrow> bool" where
  "specs_named d \<longleftrightarrow> (\<forall>t spec. tbl_get (tables d) t = Some spec \<longrightarrow> ts_name spec = t)"

lemma specs_named_same: "tables d' = tables d \<Longrightarrow> specs_named d' = specs_named d"
  by (simp only: specs_named_def)

definition rebuilding :: "'a env_scheme \<Rightarrow> (string \<Rightarrow> sql_value \<Rightarrow> bool) \<Rightarrow> table_spec \<Rightarrow> (string \<times> int) list \<Rightarrow> db \<Rightarrow> bool" where
  "rebuilding E ok spec info d \<longleftrightarrow> column_checks E ok spec info \<and> cells_fit E ok spec d \<and> tbl_wf (cells d)
     \<and> guard d \<noteq> 0 \<and> table_in d ok (ts_name spec) info \<and> specs_named d
     \<and> tbl_get (tables d) (ts_name spec) = Some spec"

lemma rebuild_one:
  assumes "rebuilding E ok spec info d"
  shows "rebuilding E ok spec info (materialize_key E key d)"
    "key = (ts_name spec, pk) \<or> shown E spec pk d \<Longrightarrow> shown E spec pk (materialize_key E key d)"
proof -
  let ?d = "materialize_key E key d" and ?t = "ts_name spec"
  have c: "column_checks E ok spec info" "cells_fit E ok spec d" "tbl_wf (cells d)" "guard d \<noteq> 0"
    "table_in d ok ?t info" "specs_named d" "tbl_get (tables d) ?t = Some spec"
    using assms by (simp_all add: rebuilding_def)
  have "rows_only d ?d"
    by (auto simp: materialize_key_def split: option.splits sum.splits dest: materialize_rows_only [OF c(4)])
  note f = app_only_fields [OF rows_only_fields(1) [OF this]] rows_only_fields(4) [OF this]
    app_only_db [OF rows_only_fields(1) [OF this]]
  have "table_in ?d ok ?t info \<and> (key = (?t, pk) \<or> shown E spec pk d \<longrightarrow> shown E spec pk ?d)"
  proof (cases "fst key = ?t")
    case True
    obtain d' where d': "materialize E spec (snd key) d = Inr d'" "table_in d' ok ?t info"
      "other_rows E (ts_pk_col spec) (snd key) (rows_of d' ?t) = other_rows E (ts_pk_col spec) (snd key) (rows_of d ?t)"
      using materialize_good [OF c(1-5)] by blast
    then have eq: "?d = d'" using True c(7) by (simp add: materialize_key_def)
    show ?thesis
    proof (cases "snd key = pk")
      case True
      with d' eq f show ?thesis using materialize_shown [OF c(1,5), of pk d'] by simp
    next
      case False
      with d' eq f show ?thesis using shown_other [of E spec pk d "snd key" d'] by auto
    qed
  next
    case False
    then have at: "tbl_get (app ?d) ?t = tbl_get (app d) ?t"
      using c(6) materialize_other_app [of E _ "snd key" d _ ?t]
      by (auto simp: materialize_key_def specs_named_def split: option.splits sum.splits)
    then have rows: "rows_of ?d ?t = rows_of d ?t" by (simp add: rows_of_def)
    then have "shown E spec pk ?d = shown E spec pk d" by (intro shown_same f)
    with False c(5) show ?thesis by (auto simp: table_in_def at rows)
  qed
  moreover have "cells_fit E ok spec ?d" "specs_named ?d"
    using c(2,6) unfolding cells_fit_def specs_named_def f by blast+
  ultimately show "rebuilding E ok spec info ?d"
    "key = (?t, pk) \<or> shown E spec pk d \<Longrightarrow> shown E spec pk ?d"
    using c(1,3,4,7) by (simp_all add: rebuilding_def f)
qed

lemma rebuild_all:
  assumes "rebuilding E ok spec info d" "(ts_name spec, pk) \<in> set keys \<or> shown E spec pk d"
  shows "shown E spec pk (fold (materialize_key E) keys d)"
  using assms
proof (induction keys arbitrary: d)
  case (Cons key keys)
  then show ?case using rebuild_one(1) [OF Cons.prems(1), of key] rebuild_one(2) [OF Cons.prems(1), of key pk] by auto
qed simp

lemma rebuild_keeps: "rebuilding E ok spec info d \<Longrightarrow> rebuilding E ok spec info (fold (materialize_key E) keys d)"
  by (induction keys arbitrary: d) (simp_all add: rebuild_one(1))

section \<open>After a batch\<close>

definition values_fit ::
  "'a env_scheme \<Rightarrow> (string \<Rightarrow> sql_value \<Rightarrow> bool) \<Rightarrow> table_spec \<Rightarrow> stored_change list \<Rightarrow> bool" where
  "values_fit E ok spec log \<longleftrightarrow> (\<forall>c\<in>set log. sc_tbl c = ts_name spec \<and> sc_col c \<in> set (ts_cols spec) \<and> \<not> is_delete c \<longrightarrow>
     (\<exists>v. from_storage (sc_vtype c) (sc_val c) = Inr v \<and> ok (sc_col c) (affinity E (ts_name spec) (sc_col c) v)))"

lemma values_cells_fit: "data_ok d \<Longrightarrow> values_fit E ok spec (changes d) \<Longrightarrow> cells_fit E ok spec d"
  by (fastforce simp: cells_fit_def values_fit_def last_write_def writes_to_def dest: cells_winner)

text \<open>The state after the first loop is the one the rows are rebuilt from; what follows touches no row.\<close>

lemma apply_remote_rebuilds:
  assumes "log_ok d"
  obtains keys d1 where "data_ok d1" "changes d1 = changes (snd (apply_remote E chs d))" "guard d1 = 1"
    "app d1 = app d" "tables d1 = tables d"
    "\<forall>r\<in>set (new_records E chs d). tbl_get (tables d) (cr_tbl r) \<noteq> None \<longrightarrow> (cr_tbl r, cr_pk r) \<in> set keys"
    "app (snd (apply_remote E chs d)) = app (fold (materialize_key E) keys d1)"
    "cells (snd (apply_remote E chs d)) = cells (fold (materialize_key E) keys d1)"
    "tombs (snd (apply_remote E chs d)) = tombs (fold (materialize_key E) keys d1)"
proof (cases "admitted E chs d = []")
  case True
  have "data_ok (d\<lparr>guard := 1\<rparr>)" using assms by (simp add: log_ok_def data_ok_def)
  from that [OF this, of "[]"] show thesis by (simp add: apply_remote_nothing [OF True] new_records_Nil [OF True])
next
  case False
  then obtain a1 d1 where
    loop: "fold (apply_one E) (admitted E chs d)
       (\<lparr>acc_out = no_outcome\<lparr>rejected := snd (admit E (require_signatures d) chs)\<rparr>,
         acc_dirty = [], acc_vv = []\<rparr>, d\<lparr>guard := 1\<rparr>) = (a1, d1)"
    and res: "apply_remote E chs d =
       (acc_out a1,
        (fold (\<lambda>e d. bump_vv (fst e) (snd e) d) (acc_vv a1)
           (fold (materialize_key E) (acc_dirty a1) d1))\<lparr>guard := 0\<rparr>)"
    by (rule apply_remote_stages)
  have "data_ok (d\<lparr>guard := 1\<rparr>)" using assms(1) by (simp add: log_ok_def data_ok_def)
  note post = fold_apply_one [OF this loop]
  have "changes d1 = append_log (changes d) (new_records E chs d)"
    using post(1) by (simp add: loop_state_def new_records_def fresh_in_def)
  then have log: "changes d1 = changes (snd (apply_remote E chs d))"
    by (simp add: applied_state_fields(2) [OF apply_remote_state [OF assms(1)]])
  have fr: "loop_frame (d\<lparr>guard := 1\<rparr>) d1" using post(1) by (simp add: loop_state_def)
  let ?d2 = "fold (materialize_key E) (acc_dirty a1) d1"
  have "rows_only d1 ?d2" by (intro fold_materialize_rows_only) (simp add: loop_frame_fields [OF fr])
  note f2 = app_only_fields [OF rows_only_fields(1) [OF this]]
  have "tbl_wf (vv_rows ?d2)" using assms(1) by (simp add: f2 loop_frame_fields [OF fr] log_ok_def)
  then have state: "snd (apply_remote E chs d) = ?d2\<lparr>vv_rows := bump_all (acc_vv a1) (vv_rows ?d2), guard := 0\<rparr>"
    by (simp add: res fold_bump_vv)
  show thesis
  proof (rule that [OF _ log])
    show "data_ok d1" using post(1) by (simp add: loop_state_def)
    show "guard d1 = 1" "app d1 = app d" "tables d1 = tables d" by (simp_all add: loop_frame_fields [OF fr])
    show "\<forall>r\<in>set (new_records E chs d). tbl_get (tables d) (cr_tbl r) \<noteq> None \<longrightarrow> (cr_tbl r, cr_pk r) \<in> set (acc_dirty a1)"
      using post(2) by (auto simp: loop_acc_def Let_def new_records_def fresh_in_def registered_def)
  qed (simp_all add: state)
qed

text \<open>A row of the table against the log: gone, or holding the value of the last write of each column.\<close>

definition row_shows :: "'a env_scheme \<Rightarrow> table_spec \<Rightarrow> string \<Rightarrow> 'b replica_file_scheme \<Rightarrow> bool" where
  "row_shows E spec pk d \<longleftrightarrow>
     (let t = ts_name spec; pk_col = ts_pk_col spec
      in if deleted_in (changes d) t pk
         then \<forall>r\<in>set (rows_of d t). row_key E pk_col r \<noteq> Some pk
         else (\<exists>c\<in>set (changes d). sc_tbl c = t \<and> sc_pk c = pk) \<longrightarrow>
           (\<exists>r\<in>set (rows_of d t). row_value r pk_col = VText pk
           \<and> (\<forall>col\<in>set (ts_cols spec). \<forall>c. last_write (changes d) t pk col c \<longrightarrow>
                (\<exists>v. from_storage (sc_vtype c) (sc_val c) = Inr v \<and> row_value r col = affinity E t col v))))"

lemma row_cells_get:
  assumes "tbl_wf (cells d)"
  shows "map_of (row_cells d t pk) col = Some v \<longleftrightarrow> tbl_get (cells d) (t, pk, col) = Some v"
proof -
  have "inj_on (\<lambda>x. snd (snd (fst x))) (set (List.filter (\<lambda>x. fst (fst x) = t \<and> fst (snd (fst x)) = pk) (cells d)))"
    using assms by (auto simp: inj_on_def tbl_get_Some_set [symmetric])
  moreover have "distinct (cells d)" using assms by (simp add: tbl_wf_def distinct_map)
  ultimately have "distinct (List.map fst (row_cells d t pk))"
    by (simp add: row_cells_def distinct_map o_def split_beta)
  then show ?thesis using row_cells_iff [OF assms, of col v t pk] by simp
qed

lemma shown_iff_row_shows:
  assumes "data_ok d"
  shows "shown E spec pk d \<longleftrightarrow> row_shows E spec pk d"
proof -
  let ?t = "ts_name spec" and ?cs = "row_cells d (ts_name spec) pk"
  have wf: "tbl_wf (cells d)" using assms by (simp add: data_ok_def)
  have some: "?cs \<noteq> [] \<longleftrightarrow> (\<exists>c\<in>set (changes d). sc_tbl c = ?t \<and> sc_pk c = pk)"
    if "\<not> deleted_in (changes d) ?t pk"
  proof
    assume "?cs \<noteq> []"
    then obtain col v where "(col, v) \<in> set ?cs" by (cases ?cs) auto
    then have "tbl_get (cells d) (?t, pk, col) = Some v" by (simp add: row_cells_iff [OF wf])
    from cells_winner [OF assms this] show "\<exists>c\<in>set (changes d). sc_tbl c = ?t \<and> sc_pk c = pk"
      by (auto simp: last_write_def writes_to_def)
  next
    assume "\<exists>c\<in>set (changes d). sc_tbl c = ?t \<and> sc_pk c = pk"
    then obtain c where c: "c \<in> set (changes d)" "sc_tbl c = ?t" "sc_pk c = pk" by blast
    show "?cs \<noteq> []"
    proof
      assume "?cs = []"
      with that have "tbl_get (tombs d) (?t, pk) = None"
        using row_deleted_log [OF assms, of ?t pk] by (auto simp: row_deleted_def split: option.splits)
      then have "writes_to ?t pk (sc_col c) c"
        using tomb_winner(1) [OF assms, of ?t pk] c by (auto simp: writes_to_def)
      from cells_written [OF assms c(1) this] obtain v where "(sc_col c, v) \<in> set ?cs"
        unfolding row_cells_iff [OF wf] by blast
      with \<open>?cs = []\<close> show False by simp
    qed
  qed
  have get: "map_of ?cs col = Some v \<longleftrightarrow> (\<exists>c. last_write (changes d) ?t pk col c \<and> v = cell_in c)" for col v
    unfolding row_cells_get [OF wf] using cells_winner [OF assms] last_write_cell [OF assms] by blast
  have vals: "(\<forall>c. map_of ?cs col = Some c \<longrightarrow> Q (cl_vtype c) (cl_val c)) \<longleftrightarrow>
      (\<forall>c. last_write (changes d) ?t pk col c \<longrightarrow> Q (sc_vtype c) (sc_val c))" for col Q
    unfolding get by auto
  have vals': "(\<forall>c. map_of ?cs col = Some c \<longrightarrow>
        (\<exists>v. from_storage (cl_vtype c) (cl_val c) = Inr v \<and> row_value r col = affinity E ?t col v)) \<longleftrightarrow>
      (\<forall>c. last_write (changes d) ?t pk col c \<longrightarrow>
        (\<exists>v. from_storage (sc_vtype c) (sc_val c) = Inr v \<and> row_value r col = affinity E ?t col v))" for r col
    by (rule vals)
  show ?thesis
  proof (cases "deleted_in (changes d) ?t pk")
    case True
    then show ?thesis unfolding shown_def row_shows_def Let_def row_deleted_log [OF assms] by (simp only: if_True)
  next
    case False
    then show ?thesis
      unfolding shown_def row_shows_def Let_def row_deleted_log [OF assms] by (simp only: if_False some [OF False] vals')
  qed
qed

text \<open>Records of other rows do not change the verdict on a row.\<close>

lemma append_log_others:
  assumes "\<forall>r\<in>set rs. (cr_tbl r, cr_pk r) \<noteq> (t, pk)"
  shows "{c \<in> set (append_log log rs). sc_tbl c = t \<and> sc_pk c = pk} = {c \<in> set log. sc_tbl c = t \<and> sc_pk c = pk}"
  using assms
proof (induction rs arbitrary: log)
  case (Cons r rs)
  then have "{c \<in> set (log @ [stored_of (next_seq log) r]). sc_tbl c = t \<and> sc_pk c = pk} =
      {c \<in> set log. sc_tbl c = t \<and> sc_pk c = pk}"
    by (auto simp: stored_of_def)
  then show ?case using Cons.IH [of "log @ [stored_of (next_seq log) r]"] Cons.prems by simp
qed simp

lemma row_shows_same:
  assumes "{c \<in> set (changes d'). sc_tbl c = ts_name spec \<and> sc_pk c = pk} =
      {c \<in> set (changes d). sc_tbl c = ts_name spec \<and> sc_pk c = pk}"
    "rows_of d' (ts_name spec) = rows_of d (ts_name spec)"
  shows "row_shows E spec pk d' = row_shows E spec pk d"
proof -
  have mem: "c \<in> set (changes d') \<longleftrightarrow> c \<in> set (changes d)" if "sc_tbl c = ts_name spec" "sc_pk c = pk" for c
    using assms(1) that by blast
  have "deleted_in (changes d') (ts_name spec) pk = deleted_in (changes d) (ts_name spec) pk"
    unfolding deleted_in_def using mem by blast
  moreover have "last_write (changes d') (ts_name spec) pk = last_write (changes d) (ts_name spec) pk"
    unfolding last_write_def fun_eq_iff using mem by (auto simp: writes_to_def)
  moreover have "(\<exists>c\<in>set (changes d'). sc_tbl c = ts_name spec \<and> sc_pk c = pk) \<longleftrightarrow>
      (\<exists>c\<in>set (changes d). sc_tbl c = ts_name spec \<and> sc_pk c = pk)" using mem by blast
  ultimately show ?thesis unfolding row_shows_def Let_def assms(2) by simp
qed

text \<open>Applying a batch: the rows it touched show the log, and every row that did before still does.\<close>

lemma applied_rebuilt:
  assumes "log_ok d" "apply_remote E chs d = (out, d')" "tbl_get (tables d) (ts_name spec) = Some spec" "specs_named d"
    "column_checks E ok spec info" "table_in d ok (ts_name spec) info" "values_fit E ok spec (changes d')"
  obtains keys d1 where "rebuilding E ok spec info d1" "data_ok d1" "changes d1 = changes d'"
    "rows_of d1 (ts_name spec) = rows_of d (ts_name spec)"
    "\<forall>r\<in>set (new_records E chs d). cr_tbl r = ts_name spec \<longrightarrow> (ts_name spec, cr_pk r) \<in> set keys"
    "app d' = app (fold (materialize_key E) keys d1)" "cells d' = cells (fold (materialize_key E) keys d1)"
    "tombs d' = tombs (fold (materialize_key E) keys d1)"
proof -
  obtain keys d1 where d1: "data_ok d1" "changes d1 = changes d'" "guard d1 = 1" "app d1 = app d" "tables d1 = tables d"
    and keys: "\<forall>r\<in>set (new_records E chs d). tbl_get (tables d) (cr_tbl r) \<noteq> None \<longrightarrow> (cr_tbl r, cr_pk r) \<in> set keys"
    and d': "app d' = app (fold (materialize_key E) keys d1)" "cells d' = cells (fold (materialize_key E) keys d1)"
      "tombs d' = tombs (fold (materialize_key E) keys d1)"
    using apply_remote_rebuilds [OF assms(1), of E chs] assms(2) by (metis snd_conv)
  have rows: "rows_of d1 t = rows_of d t" for t by (simp add: rows_of_def d1(4))
  have "specs_named d1" "table_in d1 ok (ts_name spec) info" "tbl_wf (cells d1)"
    using assms(4,6) d1(1) by (simp_all only: specs_named_def table_in_def d1 rows data_ok_def merged_wf)
  then have "rebuilding E ok spec info d1"
    using assms(3,5,7) d1 values_cells_fit [OF d1(1), of E ok spec] by (simp add: rebuilding_def)
  moreover have "\<forall>r\<in>set (new_records E chs d). cr_tbl r = ts_name spec \<longrightarrow> (ts_name spec, cr_pk r) \<in> set keys"
    using keys assms(3) by force
  ultimately show thesis using that d1(1,2) rows d' by blast
qed

lemma applied_table:
  assumes "log_ok d" "apply_remote E chs d = (out, d')" "tbl_get (tables d) (ts_name spec) = Some spec" "specs_named d"
    "column_checks E ok spec info" "table_in d ok (ts_name spec) info" "values_fit E ok spec (changes d')"
  shows "table_in d' ok (ts_name spec) info"
proof (rule applied_rebuilt [OF assms])
  fix keys d1
  assume "rebuilding E ok spec info d1" and app: "app d' = app (fold (materialize_key E) keys d1)"
  then have "rebuilding E ok spec info (fold (materialize_key E) keys d1)"
    by (intro rebuild_keeps)
  then show ?thesis by (simp add: rebuilding_def table_in_def rows_of_def app)
qed

lemma applied_shows:
  assumes "log_ok d" "apply_remote E chs d = (out, d')" "tbl_get (tables d) (ts_name spec) = Some spec" "specs_named d"
    "column_checks E ok spec info" "table_in d ok (ts_name spec) info" "values_fit E ok spec (changes d')"
    "(\<exists>r\<in>set (new_records E chs d). cr_tbl r = ts_name spec \<and> cr_pk r = pk) \<or> row_shows E spec pk d"
  shows "row_shows E spec pk d'"
proof (rule applied_rebuilt [OF assms(1-7)])
  let ?new = "new_records E chs d"
  fix keys d1
  assume reb: "rebuilding E ok spec info d1" and d1: "data_ok d1" "changes d1 = changes d'"
      "rows_of d1 (ts_name spec) = rows_of d (ts_name spec)"
    and keys: "\<forall>r\<in>set ?new. cr_tbl r = ts_name spec \<longrightarrow> (ts_name spec, cr_pk r) \<in> set keys"
    and d': "app d' = app (fold (materialize_key E) keys d1)" "cells d' = cells (fold (materialize_key E) keys d1)"
      "tombs d' = tombs (fold (materialize_key E) keys d1)"
  have ok: "data_ok d'" and log: "changes d' = append_log (changes d) ?new"
    using applied_state_fields [OF apply_remote_state [OF assms(1), of E chs]] assms(2) by (simp_all add: log_ok_def)
  have "(ts_name spec, pk) \<in> set keys \<or> shown E spec pk d1"
  proof (cases "\<exists>r\<in>set ?new. cr_tbl r = ts_name spec \<and> cr_pk r = pk")
    case True
    then show ?thesis using keys by auto
  next
    case False
    then have "row_shows E spec pk d1"
      using assms(8) row_shows_same [of d1 spec pk d E] append_log_others [of ?new "ts_name spec" pk "changes d"]
      by (auto simp: d1(2,3) log)
    then show ?thesis by (simp add: shown_iff_row_shows [OF d1(1)])
  qed
  with reb have "shown E spec pk (fold (materialize_key E) keys d1)" by (rule rebuild_all)
  then have "shown E spec pk d'" using shown_same [OF d'(2,3), of spec E pk] d'(1) by (simp add: rows_of_def)
  then show ?thesis by (simp add: shown_iff_row_shows [OF ok])
qed

text \<open>The table as a view of the log, which applying any batch keeps.\<close>

definition viewing ::
  "'a env_scheme \<Rightarrow> (string \<Rightarrow> sql_value \<Rightarrow> bool) \<Rightarrow> table_spec \<Rightarrow> (string \<times> int) list \<Rightarrow> db \<Rightarrow> bool" where
  "viewing E ok spec info d \<longleftrightarrow> log_ok d \<and> tbl_get (tables d) (ts_name spec) = Some spec \<and> specs_named d
     \<and> column_checks E ok spec info \<and> table_in d ok (ts_name spec) info \<and> values_fit E ok spec (changes d)
     \<and> (\<forall>pk. row_shows E spec pk d)"

lemma viewing_same:
  assumes "viewing E ok spec info d" "log_ok d'" "changes d' = changes d" "app d' = app d" "tables d' = tables d"
  shows "viewing E ok spec info d'"
proof -
  have "rows_of d' t = rows_of d t" for t by (simp add: rows_of_def assms(4))
  moreover from this have "row_shows E spec pk d' = row_shows E spec pk d" for pk
    by (intro row_shows_same) (simp_all add: assms(3))
  ultimately show ?thesis
    using assms specs_named_same [OF assms(5)] unfolding viewing_def table_in_def by simp
qed

lemma values_fit_content:
  assumes "values_fit E ok spec log" "content ` set log' \<subseteq> content ` set log"
  shows "values_fit E ok spec log'"
  unfolding values_fit_def
proof (intro ballI)
  fix c assume "c \<in> set log'"
  then obtain c' where c': "c' \<in> set log" "content c' = content c" using assms(2) by fastforce
  then have same: "sc_tbl c' = sc_tbl c" "sc_col c' = sc_col c" "is_delete c' = is_delete c" "sc_vtype c' = sc_vtype c"
    "sc_val c' = sc_val c"
    by (metis content_fields)+
  show "sc_tbl c = ts_name spec \<and> sc_col c \<in> set (ts_cols spec) \<and> \<not> is_delete c \<longrightarrow>
     (\<exists>v. from_storage (sc_vtype c) (sc_val c) = Inr v \<and> ok (sc_col c) (affinity E (ts_name spec) (sc_col c) v))"
    using assms(1) c'(1) unfolding values_fit_def same [symmetric] by blast
qed

lemma viewing_apply:
  assumes "viewing E ok spec info d" "apply_remote E chs d = (out, d')" "values_fit E ok spec (changes d')"
  shows "viewing E ok spec info d'"
proof -
  have v: "log_ok d" "tbl_get (tables d) (ts_name spec) = Some spec" "specs_named d" "column_checks E ok spec info"
    "table_in d ok (ts_name spec) info" "\<And>pk. row_shows E spec pk d"
    using assms(1) by (simp_all add: viewing_def)
  note st = applied_state_fields [OF apply_remote_state [OF v(1), of E chs], unfolded assms(2) snd_conv]
  have "row_shows E spec pk d'" for pk using applied_shows [OF v(1) assms(2) v(2-5) assms(3)] v(6) by blast
  moreover have "table_in d' ok (ts_name spec) info"
    using applied_table [OF v(1) assms(2) v(2-5) assms(3)] .
  ultimately show ?thesis using v(2-4) assms(3) st(1,12) specs_named_same [OF st(12)] unfolding viewing_def by simp
qed

section \<open>Announcing a new row\<close>

definition announces :: "string \<Rightarrow> string \<Rightarrow> row \<Rightarrow> string list \<Rightarrow> change_record list \<Rightarrow> bool" where
  "announces t pk vals cols out \<longleftrightarrow>
     (\<forall>r\<in>set out. cr_tbl r = t \<and> cr_pk r = pk \<and> cr_kind r = Cell \<and> map_of vals (cr_col r) = Some (cr_value r))
   \<and> (\<forall>col\<in>set cols. \<forall>v. map_of vals col = Some v \<longrightarrow> (\<exists>r\<in>set out. cr_col r = col \<and> cr_value r = v))"

lemma flush_cols_announces:
  assumes "flush_cols E t pk vals cols d = (Inr out, d')" "tbl_wf (cells d)" "distinct cols"
    "\<forall>col\<in>set cols. tbl_get (cells d) (t, pk, col) = None"
  shows "announces t pk vals cols out"
  using assms
proof (induction cols arbitrary: d out)
  case Nil
  then show ?case by (simp add: announces_def)
next
  case (Cons col cols)
  show ?case
  proof (cases "map_of vals col")
    case None
    with Cons have "announces t pk vals cols out" by simp
    then show ?thesis using None by (simp add: announces_def)
  next
    case (Some v)
    have fresh: "\<not> cell_matches d t pk col ty raw" for ty raw using Cons.prems(4) by (simp add: cell_matches_def)
    obtain r d1 where a: "author E (cell_record t pk col v) d = (Inr r, d1)"
      using Cons.prems(1) Some by (auto simp: fresh split: prod.splits sum.splits)
    let ?d2 = "snd (upsert_cell r (snd (store_change r d1)))"
    obtain out' where rest: "flush_cols E t pk vals cols ?d2 = (Inr out', d')" and out: "out = r # out'"
      using Cons.prems(1) Some a by (auto simp: fresh split: prod.splits sum.splits)
    have r: "cr_tbl r = t" "cr_pk r = pk" "cr_col r = col" "cr_value r = v" "cr_kind r = Cell"
      using author_ok [OF a] by (simp_all add: cell_record_def)
    have "cells d1 = cells d" using author_state [of E "cell_record t pk col v" d] a by simp
    then have cells: "cells ?d2 = cell_put (t, pk, col) (cell_of r) (cells d)"
      by (simp add: upsert_cell_eq store_change_def cell_key_def r)
    have "announces t pk vals cols out'"
      using Cons.prems(2-4) by (intro Cons.IH [OF rest]) (auto simp: cells cellt.wf_put cellt.get_put)
    then show ?thesis using Some r unfolding announces_def out by auto
  qed
qed

text \<open>What the triggers stage for an inserted row.\<close>

lemma stage_upsert:
  assumes "stage_ops t [(Some pk, x)] d = Inr d'"
  shows "local_ops d' = local_ops d @ [\<lparr>lo_id = ops_seq d + 1, lo_tbl = t, lo_pk = pk, lo_op = x\<rparr>]"
  using assms by auto

lemma fire_inserted:
  assumes "fire_triggers E t (Inserted r) trs d = Inr d'" "guard d = 0" "row_key E pk_col r = Some pk"
    "\<forall>(p, t', k)\<in>set trs. t' = t \<longrightarrow> k = pk_col"
  shows "\<exists>ops. local_ops d' = local_ops d @ ops \<and> (\<forall>lo\<in>set ops. op_key lo = (t, pk))
    \<and> (ops = [] \<longleftrightarrow> (\<forall>(p, t', k)\<in>set trs. t' \<noteq> t))"
  using assms
proof (induction trs arbitrary: d)
  case (Cons tr trs)
  obtain p t' k where tr: "tr = (p, t', k)" by (cases tr)
  show ?case
  proof (cases "t' = t")
    case False
    with Cons tr show ?thesis by auto
  next
    case True
    let ?lo = "\<lparr>lo_id = ops_seq d + 1, lo_tbl = t, lo_pk = pk, lo_op = ''upsert''\<rparr>"
    let ?d = "d\<lparr>ops_seq := ops_seq d + 1, local_ops := local_ops d @ [?lo]\<rparr>"
    have "fire_triggers E t (Inserted r) trs ?d = Inr d'"
      using Cons.prems True tr by simp
    from Cons.IH [OF this] Cons.prems obtain ops where
      "local_ops d' = local_ops d @ ?lo # ops" "\<forall>lo\<in>set ops. op_key lo = (t, pk)" by auto
    then show ?thesis using True tr by (intro exI [of _ "?lo # ops"]) (auto simp: op_key_def)
  qed
qed simp

lemma collapse_single:
  assumes "ops \<noteq> []" "\<forall>lo\<in>set ops. op_key lo = key"
  shows "fst (collapse ops) = [key]"
proof -
  have "List.map op_key (rev ops) = replicate (length ops) key"
    using assms(2) by (intro replicate_eqI) auto
  moreover have "n \<noteq> 0 \<Longrightarrow> remdups (replicate n key) = [key]" for n
    by (induction n) auto
  ultimately show ?thesis using assms(1) collapse_spec [of ops] by (simp add: rev_map)
qed

text \<open>A table whose inserts are captured, each by triggers on its registered key.\<close>

definition captured :: "db \<Rightarrow> table_spec \<Rightarrow> bool" where
  "captured d spec \<longleftrightarrow> tbl_get (tables d) (ts_name spec) = Some spec \<and> distinct (ts_cols spec) \<and> guard d = 0
     \<and> (\<exists>p. (p, ts_name spec, ts_pk_col spec) \<in> set (triggers d))
     \<and> (\<forall>(p, t, k)\<in>set (triggers d). t = ts_name spec \<longrightarrow> k = ts_pk_col spec)"

lemma find_last: "\<forall>x\<in>set xs. \<not> P x \<Longrightarrow> P y \<Longrightarrow> List.find P (xs @ [y]) = Some y"
  by (induction xs) auto

text \<open>A statement that inserts one row comes down to a flush of that row's registered columns.\<close>

lemma execute_one_row:
  assumes "execute E [WInsert (ts_name spec) row] d = (Inr (n, out), d')" "captured d spec" "local_ops d = []"
    "row_key E (ts_pk_col spec) row = Some pk"
    "\<forall>r\<in>set (rows_of d (ts_name spec)). row_key E (ts_pk_col spec) r \<noteq> Some pk" "\<forall>(c, v)\<in>set row. value_ok v"
  shows "\<exists>d1 final_op. app_only d d1 \<and> local_ops d1 \<noteq> [] \<and> flush_local E d1 = (Inr out, d')
    \<and> collapse (local_ops d1) = ([(ts_name spec, pk)], final_op)
    \<and> flush_key E final_op (ts_name spec, pk) d1 = flush_cols E (ts_name spec) pk row (ts_cols spec) d1"
proof -
  let ?t = "ts_name spec"
  obtain d1 at where at: "tbl_get (app d) ?t = Some at"
    and w: "write_rows E ?t (at_rows at @ [row]) [Inserted row] d = Inr d1"
    and flush: "flush_local E d1 = (Inr out, d')"
    using assms(1) by (auto simp: execute_def split: option.splits sum.splits prod.splits)
  let ?s = "set_rows ?t (at_rows at @ [row]) d"
  have s: "triggers ?s = triggers d" "guard ?s = guard d" "local_ops ?s = local_ops d"
    by (simp_all add: set_rows_def split: option.split)
  have "fire_triggers E ?t (Inserted row) (triggers d) ?s = Inr d1"
    using w by (auto simp: write_rows_def s split: sum.splits)
  from fire_inserted [OF this _ assms(4)] assms(2,3)
  have ops: "local_ops d1 \<noteq> []" "\<forall>lo\<in>set (local_ops d1). op_key lo = (?t, pk)"
    by (auto simp: captured_def s)
  have only: "app_only d d1" using w by (rule write_rows_app_only)
  have "rows_of d1 ?t = rows_of d ?t @ [row]"
    using write_rows_rows(1) [OF w at] at by (simp add: rows_of_def)
  moreover from this have "tbl_get (app d1) ?t \<noteq> None" by (auto simp: rows_of_def split: option.splits)
  ultimately obtain at1 where at1: "tbl_get (app d1) ?t = Some at1" "at_rows at1 = rows_of d ?t @ [row]"
    by (auto simp: rows_of_def)
  have "List.find (\<lambda>r. row_key E (ts_pk_col spec) r = Some pk) (rows_of d ?t @ [row]) = Some row"
    using assms(4,5) by (intro find_last) auto
  moreover have "List.map (\<lambda>(c, v). (c, read_value v)) row = row"
    using assms(6) by (intro map_idI) auto
  ultimately have read: "read_row E spec pk d1 = Inr (Some row)" by (simp add: read_row_def at1)
  have tabs: "tbl_get (tables d1) ?t = Some spec" using assms(2) by (simp add: captured_def app_only_db [OF only])
  obtain final_op where col: "collapse (local_ops d1) = ([(?t, pk)], final_op)"
    using collapse_single [OF ops] by (cases "collapse (local_ops d1)") simp
  have "flush_key E final_op (?t, pk) d1 = flush_cols E ?t pk row (ts_cols spec) d1"
    by (simp add: flush_key_def tabs read Let_def)
  with only ops(1) flush col show ?thesis by blast
qed

lemma execute_announces:
  assumes "execute E [WInsert (ts_name spec) row] d = (Inr (n, out), d')" "captured d spec" "local_ops d = []"
    "tbl_wf (cells d)" "row_key E (ts_pk_col spec) row = Some pk"
    "\<forall>r\<in>set (rows_of d (ts_name spec)). row_key E (ts_pk_col spec) r \<noteq> Some pk"
    "\<forall>col\<in>set (ts_cols spec). tbl_get (cells d) (ts_name spec, pk, col) = None" "\<forall>(c, v)\<in>set row. value_ok v"
  shows "announces (ts_name spec) pk row (ts_cols spec) out"
proof -
  obtain d1 final_op where d1: "app_only d d1" "local_ops d1 \<noteq> []" "flush_local E d1 = (Inr out, d')"
    "collapse (local_ops d1) = ([(ts_name spec, pk)], final_op)"
    "flush_key E final_op (ts_name spec, pk) d1 = flush_cols E (ts_name spec) pk row (ts_cols spec) d1"
    using execute_one_row [OF assms(1-3,5,6,8)] by blast
  then obtain d2 where "flush_cols E (ts_name spec) pk row (ts_cols spec) d1 = (Inr out, d2)"
    by (auto simp: flush_local_def Let_def split: prod.splits sum.splits if_splits)
  from flush_cols_announces [OF this] assms(2,4,7) show ?thesis
    by (simp add: app_only_fields [OF d1(1)] captured_def)
qed

text \<open>A row whose values are the last ones in the log: the flush has nothing to say about it.\<close>

lemma logged_row_replicated:
  assumes "data_ok d"
    "\<forall>col\<in>set cols. \<forall>v. map_of row col = Some v \<longrightarrow>
       (\<exists>c. last_write (changes d) t pk col c \<and> (sc_vtype c, sc_val c) = to_storage v)"
  shows "row_replicated d t pk row cols"
  unfolding row_replicated_def
proof (intro ballI allI impI)
  fix col v assume "col \<in> set cols" "map_of row col = Some v"
  then obtain c where "last_write (changes d) t pk col c" "(sc_vtype c, sc_val c) = to_storage v"
    using assms(2) by blast
  then show "cell_matches d t pk col (fst (to_storage v)) (snd (to_storage v))"
    by (simp add: cell_matches_def last_write_cell [OF assms(1)] prod_eq_iff)
qed

lemma execute_silent:
  assumes "execute E [WInsert (ts_name spec) row] d = (Inr (n, out), d')" "captured d spec" "local_ops d = []"
    "row_key E (ts_pk_col spec) row = Some pk"
    "\<forall>r\<in>set (rows_of d (ts_name spec)). row_key E (ts_pk_col spec) r \<noteq> Some pk" "\<forall>(c, v)\<in>set row. value_ok v"
    "row_replicated d (ts_name spec) pk row (ts_cols spec)"
  shows "out = []" "changes d' = changes d" "cells d' = cells d" "tombs d' = tombs d" "vv_rows d' = vv_rows d"
    "clock d' = clock d" "local_ops d' = []"
proof -
  obtain d1 final_op where d1: "app_only d d1" "local_ops d1 \<noteq> []" "flush_local E d1 = (Inr out, d')"
    "collapse (local_ops d1) = ([(ts_name spec, pk)], final_op)"
    "flush_key E final_op (ts_name spec, pk) d1 = flush_cols E (ts_name spec) pk row (ts_cols spec) d1"
    using execute_one_row [OF assms(1-6)] by blast
  have "row_replicated d1 (ts_name spec) pk row (ts_cols spec)"
    using assms(7) by (simp add: row_replicated_def cell_matches_def app_only_fields [OF d1(1)])
  then have "flush_key E final_op (ts_name spec, pk) d1 = (Inr [], d1)"
    using d1(5) by (simp add: flush_cols_silent)
  with d1(2-4) have out: "out = []" and d': "d' = d1\<lparr>local_ops := List.filter
      (\<lambda>lo. \<not> lo_id lo \<le> Max (set (List.map lo_id (local_ops d1)))) (local_ops d1)\<rparr>"
    by (auto simp: flush_local_def Let_def split: if_splits)
  have "lo_id lo \<le> Max (set (List.map lo_id (local_ops d1)))" if "lo \<in> set (local_ops d1)" for lo
    using that by (intro Max_ge) auto
  then have "local_ops d' = []" by (simp add: d' filter_empty_conv)
  with out show "out = []" "changes d' = changes d" "cells d' = cells d" "tombs d' = tombs d" "vv_rows d' = vv_rows d"
    "clock d' = clock d" "local_ops d' = []"
    by (simp_all add: d' app_only_fields [OF d1(1)] app_only_db [OF d1(1)])
qed

lemma deleted_in_content:
  assumes "content ` set log = content ` set log'" "deleted_in log t pk"
  shows "deleted_in log' t pk"
proof -
  have iff: "deleted_in xs t pk \<longleftrightarrow> (\<exists>c\<in>content ` set xs. is_delete c \<and> sc_tbl c = t \<and> sc_pk c = pk
     \<and> (\<forall>c'\<in>content ` set xs. \<not> is_delete c' \<longrightarrow> sc_tbl c' = t \<longrightarrow> sc_pk c' = pk \<longrightarrow> log_order c' < log_order c))" for xs
    by (simp add: deleted_in_def log_order_def)
  show ?thesis using assms(2) unfolding iff assms(1) .
qed

text \<open>The row where the records arrive: nothing else having been said about it, it is the row announced.\<close>

lemma fresh_all:
  assumes "inj_on record_key (set rs)" "record_key r \<notin> set held" "r \<in> set rs"
  shows "r \<in> set (fresh_records held rs)"
proof -
  have "record_key r \<in> record_key ` set (fresh_records held rs)"
    using assms(2,3) by (simp add: fresh_records_iff(1))
  then obtain s where s: "s \<in> set (fresh_records held rs)" "record_key s = record_key r" by auto
  then have "s \<in> set rs" using fresh_records_iff(2) by blast
  with assms(1,3) s(2) have "s = r" by (auto dest: inj_onD)
  with s(1) show ?thesis by simp
qed

lemma stored_row:
  assumes "content c = stored_of 0 r"
  shows "sc_tbl c = cr_tbl r" "sc_pk c = cr_pk r" "sc_col c = cr_col r" "sc_vtype c = fst (to_storage (cr_value r))"
    "sc_val c = snd (to_storage (cr_value r))" "is_delete c \<longleftrightarrow> cr_kind r = Delete"
proof -
  show "sc_tbl c = cr_tbl r" using arg_cong [OF assms, of sc_tbl] by (simp add: stored_of_def)
  show "sc_pk c = cr_pk r" using arg_cong [OF assms, of sc_pk] by (simp add: stored_of_def)
  show "sc_col c = cr_col r" using arg_cong [OF assms, of sc_col] by (simp add: stored_of_def)
  show "sc_vtype c = fst (to_storage (cr_value r))" using arg_cong [OF assms, of sc_vtype] by (simp add: stored_of_def)
  show "sc_val c = snd (to_storage (cr_value r))" using arg_cong [OF assms, of sc_val] by (simp add: stored_of_def)
  show "is_delete c \<longleftrightarrow> cr_kind r = Delete" using arg_cong [OF assms, of is_delete] by simp
qed

lemma announced_row_shows:
  assumes "announces (ts_name spec) pk row (ts_cols spec) out" "out \<noteq> []" "\<forall>(c, v)\<in>set row. value_ok v"
    and "log_ok d" "apply_remote E chs d = (o', d')" "tbl_get (tables d) (ts_name spec) = Some spec" "specs_named d"
    "column_checks E ok spec info" "table_in d ok (ts_name spec) info" "values_fit E ok spec (changes d')"
    and "set out \<subseteq> set (admitted E chs d)" "inj_on record_key (set chs)"
    "record_key ` set out \<inter> change_key ` set (changes d) = {}"
    "\<forall>r\<in>set chs. cr_tbl r = ts_name spec \<longrightarrow> cr_pk r = pk \<longrightarrow> r \<in> set out"
    "\<forall>c\<in>set (changes d). sc_tbl c = ts_name spec \<longrightarrow> sc_pk c \<noteq> pk"
  shows "\<exists>r\<in>set (rows_of d' (ts_name spec)). row_value r (ts_pk_col spec) = VText pk
    \<and> (\<forall>col\<in>set (ts_cols spec). \<forall>v. map_of row col = Some v \<longrightarrow>
         row_value r col = affinity E (ts_name spec) col v)"
proof -
  let ?t = "ts_name spec" and ?new = "new_records E chs d"
  have st: "applied_state E ?new d d'" using apply_remote_state [OF assms(4), of E chs] assms(5) by simp
  have ok: "data_ok d'" and log: "changes d' = append_log (changes d) ?new"
    using applied_state_fields [OF st] by (simp_all add: log_ok_def)
  have new: "set out \<subseteq> set ?new"
    unfolding new_records_def fresh_in_def
    using assms(11-13) admitted_sub [of E chs d] by (auto intro!: fresh_all inj_on_subset [OF assms(12)])
  have out: "r \<in> set out \<Longrightarrow> cr_tbl r = ?t \<and> cr_pk r = pk \<and> cr_kind r = Cell" for r
    using assms(1) by (simp add: announces_def)
  have mem: "\<exists>c\<in>set (changes d'). content c = stored_of 0 r" if "r \<in> set ?new" for r
  proof -
    have "stored_of 0 r \<in> set (List.map content (changes d'))" using that by (simp add: log append_log_content)
    then show ?thesis by auto
  qed
  have about: "\<exists>r\<in>set out. content c = stored_of 0 r" if "c \<in> set (changes d')" "sc_tbl c = ?t" "sc_pk c = pk" for c
  proof -
    have "content c \<in> set (List.map content (changes d)) \<union> stored_of 0 ` set ?new"
      using that(1) append_log_content [of "changes d" ?new] by (metis log image_eqI list.set_map set_append)
    moreover have "content c \<noteq> content b" if "b \<in> set (changes d)" for b
      using assms(15) that \<open>sc_tbl c = ?t\<close> \<open>sc_pk c = pk\<close> by (metis content_fields(1,2))
    ultimately obtain r where r: "r \<in> set ?new" "content c = stored_of 0 r" by auto
    then have "cr_tbl r = ?t" "cr_pk r = pk"
      using that(2,3) stored_row(1,2) by metis+
    moreover have "r \<in> set chs" using r(1) new_records_sub admitted_sub by blast
    ultimately show ?thesis using assms(14) r(2) by blast
  qed
  have "\<not> deleted_in (changes d') ?t pk"
    using about out by (auto simp: deleted_in_def) (metis change_kind.distinct(1) stored_row(6))
  moreover obtain r0 where r0: "r0 \<in> set out" using assms(2) by (cases out) auto
  then have "\<exists>r\<in>set ?new. cr_tbl r = ?t \<and> cr_pk r = pk" using new out by blast
  then have "row_shows E spec pk d'"
    using applied_shows [OF assms(4-10), of pk] by blast
  moreover obtain c0 where "c0 \<in> set (changes d')" "content c0 = stored_of 0 r0" using mem new r0 by blast
  then have "\<exists>c\<in>set (changes d'). sc_tbl c = ?t \<and> sc_pk c = pk" using out [OF r0] stored_row by metis
  ultimately obtain r where r: "r \<in> set (rows_of d' ?t)" "row_value r (ts_pk_col spec) = VText pk"
    and vals: "\<And>col c. col \<in> set (ts_cols spec) \<Longrightarrow> last_write (changes d') ?t pk col c \<Longrightarrow>
      \<exists>v. from_storage (sc_vtype c) (sc_val c) = Inr v \<and> row_value r col = affinity E ?t col v"
    unfolding row_shows_def Let_def by (auto split: if_splits)
  have "row_value r col = affinity E ?t col v" if col: "col \<in> set (ts_cols spec)" "map_of row col = Some v" for col v
  proof -
    obtain a where a: "a \<in> set out" "cr_col a = col" using assms(1) col unfolding announces_def by blast
    then obtain c1 where "c1 \<in> set (changes d')" "content c1 = stored_of 0 a" using mem new by blast
    moreover from this(2) have "writes_to ?t pk col c1" using out [OF a(1)] a(2) stored_row by (simp add: writes_to_def)
    ultimately obtain c where c: "last_write (changes d') ?t pk col c" using last_write_exists [OF ok] by blast
    then have w: "c \<in> set (changes d')" "sc_tbl c = ?t" "sc_pk c = pk" "sc_col c = col"
      by (simp_all add: last_write_def writes_to_def)
    from about [OF w(1-3)] obtain b where b: "b \<in> set out" "content c = stored_of 0 b" by blast
    then have "map_of row col = Some (cr_value b)"
      using assms(1) stored_row(3) [OF b(2)] w(4) by (auto simp: announces_def)
    then have "from_storage (sc_vtype c) (sc_val c) = Inr v"
      using col(2) assms(3) map_of_SomeD [OF col(2)] stored_row(4,5) [OF b(2)] by auto
    with vals [OF col(1) c] show ?thesis by simp
  qed
  with r show ?thesis by blast
qed

end
