(* ===== verification/WriteProperties.thy ===== *)
theory WriteProperties
  imports Samples Syncing Visible
begin

text \<open>
  The properties of local writes, of the application's rows, and of registering a table, each with
  an instance on the replicas of \<open>Samples\<close>.
\<close>

definition signing_a :: db where
  "signing_a = a_written\<lparr>signer := Some [], device_id := peer_text toy_env (device_peer_id toy_env [])\<rparr>"

definition returned :: "(nat \<times> change_record list) result \<times> db \<Rightarrow> change_record list" where
  "returned x = (case fst x of Inl e \<Rightarrow> [] | Inr (n, out) \<Rightarrow> out)"

definition run_insert :: "(nat \<times> change_record list) result \<times> db" where
  "run_insert = execute toy_env [WInsert ''n'' a_note] (small ''a'')"

definition run_delete :: "(nat \<times> change_record list) result \<times> db" where
  "run_delete = execute toy_env [WDelete ''n'' 0] (snd run_insert)"

definition peer_deleted :: db where
  "peer_deleted = snd (apply_remote toy_env (returned run_delete @ returned run_insert) (small ''b''))"

text \<open>The states of this run.\<close>

definition d_record :: change_record where
  "d_record = a_record\<lparr>cr_col := [], cr_value := VNull, cr_hlc := Hlc 1001 0, cr_kind := Delete\<rparr>"

definition with_rows :: "row list \<Rightarrow> db \<Rightarrow> db" where
  "with_rows rows d = d\<lparr>app := [(''n'', \<lparr>at_info = [(''k'', 1), (''v'', 0)], at_rows = rows\<rparr>)]\<rparr>"

definition inserted_state :: db where
  "inserted_state = with_rows [a_note] ((small ''a'')\<lparr>ops_seq := 1,
     cells := [((''n'', ''1'', ''v''), cell_of a_record)], changes := [stored_of 1 a_record],
     vv_rows := [(''a'', to_hex (Hlc 1000 0))], clock := \<lparr>last_hlc = Hlc 1000 0, reads = 1\<rparr>\<rparr>)"

definition deleted_state :: "string \<Rightarrow> int \<Rightarrow> hybrid_clock \<Rightarrow> db" where
  "deleted_state dev n c = (small dev)\<lparr>ops_seq := n,
     cells := [((''n'', ''1'', ''v''), cell_of a_record)],
     tombs := [((''n'', ''1''), (to_hex (Hlc 1001 0), ''a''))],
     changes := [stored_of 1 a_record, stored_of 2 d_record],
     vv_rows := [(''a'', to_hex (Hlc 1001 0))], clock := c\<rparr>"

lemma run_insert_eq: "run_insert = (Inr (1, [a_record]), inserted_state)"
  by code_simp

lemma run_delete_eq:
  "run_delete = (Inr (1, [d_record]), deleted_state ''a'' 2 \<lparr>last_hlc = Hlc 1001 0, reads = 2\<rparr>)"
  unfolding run_delete_def run_insert_eq snd_conv by code_simp

lemma peer_deleted_eq: "peer_deleted = deleted_state ''b'' 0 \<lparr>last_hlc = Hlc 1001 1, reads = 2\<rparr>"
  unfolding peer_deleted_def run_insert_eq run_delete_eq returned_def by code_simp

section \<open>Flushing\<close>

text \<open>C14: A flush appends to the log exactly the records it returns, all authored by this device and
  stamped strictly increasing above everything the device has stamped, empties the staged operations,
  and keeps the invariants of log and clock, provided the clock's counter has room for the flush.\<close>

theorem flush_appends_fresh_records:
  assumes "log_ok d" "own_below d" "clock_room (flush_budget d) (clock d)"
    "flush_local E d = (Inr out, d')"
  shows "log_ok d' \<and> own_below d' \<and> local_ops d' = []
    \<and> changes d' = append_log (changes d) out
    \<and> sorted_wrt (<) (last_hlc (clock d) # List.map cr_hlc out)
    \<and> (\<forall>r\<in>set out. cr_origin r = device_id d \<and> record_key r \<notin> change_key ` set (changes d))"
proof -
  have f: "flushed E out d d'" using assms by (rule flush_local_ok)
  then have "record_key r \<notin> change_key ` set (changes d)" if "r \<in> set out" for r
    using that assms(2) own_fresh [of d r] by (auto simp: flushed_def)
  with f show ?thesis by (simp add: flushed_def)
qed

theorem flush_appends_fresh_records_witness:
  "changes a_flushed = [stored_of 1 a_record] \<and> Hlc 0 0 < cr_hlc a_record"
proof -
  have c: "changes a_written = []" "last_hlc (clock a_written) = Hlc 0 0" by (simp_all add: sample_states hlc_zero_def)
  show ?thesis
    using flush_appends_fresh_records [OF _ _ flush_room sample_flush] a_written_ok
    by (simp add: node_ok_def c sample_records next_seq_def)
qed

text \<open>What a signing replica flushes verifies at every peer as authored by it: each returned record
  passes \<open>verify_author\<close>.\<close>

theorem flushed_records_verify:
  assumes "crypto_laws E" "signer d = Some sk" "device_id d = peer_text E (device_peer_id E sk)"
    and "log_ok d" "own_below d" "clock_room (flush_budget d) (clock d)"
    and "flush_local E d = (Inr out, d')" "r \<in> set out"
  shows "verify_author E r = Inr ()"
proof -
  have r: "cr_origin r = device_id d" "signed_here E d r"
    using flush_local_ok [OF assms(4-7)] assms(8) by (auto simp: flushed_def)
  then have sig: "cr_sig r = ed_sign E sk (signing_bytes r)"
    using assms(1,2) by (simp add: signed_here_def crypto_lawsD)
  then show ?thesis
    using assms(1,3) r(1) by (simp add: verify_author_def crypto_lawsD peer_public_key_device)
qed

theorem flushed_records_verify_witness:
  "(case fst (flush_local toy_env signing_a) of Inl e \<Rightarrow> False | Inr out \<Rightarrow>
      length out = 1 \<and> verify_author toy_env (hd out) = Inr ())"
proof -
  have ok: "ok_result (fst (flush_local toy_env signing_a))"
    unfolding signing_a_def a_written_eq by code_simp
  then obtain out where out: "fst (flush_local toy_env signing_a) = Inr out"
    by (auto simp: ok_result_def split: sum.splits)
  have l: "(case fst (flush_local toy_env signing_a) of Inl e \<Rightarrow> False | Inr out \<Rightarrow> length out = 1)"
    unfolding signing_a_def a_written_eq by code_simp
  then have "length out = 1" by (simp add: out)
  then have hd: "hd out \<in> set out" by (cases out) simp_all
  have "changes a_written = []" by (simp add: sample_states)
  then have "log_ok signing_a" "own_below signing_a"
    using a_written_ok by (simp_all add: signing_a_def node_ok_def own_below_def log_ok_def data_ok_def)
  moreover have "clock_room (flush_budget signing_a) (clock signing_a)"
    using flush_room by (simp add: signing_a_def flush_budget_def keys_budget_def key_budget_def [abs_def])
  moreover have "flush_local toy_env signing_a = (Inr out, snd (flush_local toy_env signing_a))"
    by (simp add: out [symmetric])
  ultimately have "verify_author toy_env (hd out) = Inr ()"
    using flushed_records_verify [OF toy_env_laws, of signing_a "[]"] hd by (simp add: signing_a_def)
  with \<open>length out = 1\<close> show ?thesis by (simp add: out)
qed

text \<open>Staged operations collapse to one per row: the rows in the order they were first touched,
  each with the operation that was staged for it last.\<close>

theorem collapse_keeps_last_operation:
  "fst (collapse ops) = rev (remdups (rev (List.map op_key ops)))
     \<and> tbl_get (snd (collapse ops)) key = map_option lo_op (List.find (\<lambda>lo. op_key lo = key) (rev ops))"
  using collapse_spec [of ops] by blast

section \<open>Rows\<close>

text \<open>Rebuilding a row that is not deleted leaves in its table a row with that key which holds,
  for every registered column with a cell, the decoded value of the cell; other tables stay as
  they were.\<close>

theorem materialize_writes_cells:
  assumes "materialize E spec pk d = Inr d'" "tbl_get (app d) (ts_name spec) = Some at" "full_rows at"
    and "row_cells d (ts_name spec) pk \<noteq> []"
    and "\<not> row_deleted (tbl_get (tombs d) (ts_name spec, pk)) (row_cells d (ts_name spec) pk)"
    and "ts_pk_col spec \<notin> set (ts_cols spec)"
  shows "(\<exists>r\<in>set (rows_of d' (ts_name spec)).
      row_value r (ts_pk_col spec) = affinity E (ts_name spec) (ts_pk_col spec) (VText pk) \<and>
      (\<forall>col\<in>set (ts_cols spec). \<forall>c. map_of (row_cells d (ts_name spec) pk) col = Some c \<longrightarrow>
         (\<exists>v. from_storage (cl_vtype c) (cl_val c) = Inr v
            \<and> row_value r col = affinity E (ts_name spec) col v)))
    \<and> (\<forall>t. t \<noteq> ts_name spec \<longrightarrow> rows_of d' t = rows_of d t)"
  using materialize_written [OF assms] materialize_other_tables [OF assms(1)] by blast

definition b_unbuilt :: db where
  "b_unbuilt = set_rows ''n'' [] (b_received\<lparr>guard := 1\<rparr>)"

theorem materialize_writes_cells_witness:
  "(case materialize toy_env notes_spec ''1'' b_unbuilt of Inl e \<Rightarrow> False
    | Inr d \<Rightarrow> \<exists>r\<in>set (rows_of d ''n''). row_value r ''k'' = VText ''1'' \<and> row_value r ''v'' = VInt 5)"
proof -
  have ok: "(case materialize toy_env notes_spec ''1'' b_unbuilt of Inl e \<Rightarrow> False | Inr d \<Rightarrow> True)"
    and cs: "row_cells b_unbuilt ''n'' ''1'' = [(''v'', \<lparr>cl_val = Some [5, 0, 0, 0, 0, 0, 0, 0],
        cl_vtype = 1, cl_hlc = ''00000000000003e800000000'', cl_origin = ''a''\<rparr>)]"
    and tomb: "tbl_get (tombs b_unbuilt) (''n'', ''1'') = None"
    and at: "tbl_get (app b_unbuilt) ''n'' = Some \<lparr>at_info = [(''k'', 1), (''v'', 0)], at_rows = []\<rparr>"
    and v: "from_storage 1 (Some [5, 0, 0, 0, 0, 0, 0, 0]) = Inr (VInt 5)"
    unfolding b_unbuilt_def b_received_eq by code_simp+
  obtain d where d: "materialize toy_env notes_spec ''1'' b_unbuilt = Inr d"
    using ok by (auto split: sum.splits)
  have spec: "ts_name notes_spec = ''n''" "ts_pk_col notes_spec = ''k''" "ts_cols notes_spec = [''v'']"
    by (simp_all add: notes_spec_def)
  have aff: "affinity toy_env t c x = x" for t c x
    by (simp add: toy_env_def crypto.defs)
  have "\<not> row_deleted (tbl_get (tombs b_unbuilt) (''n'', ''1'')) (row_cells b_unbuilt ''n'' ''1'')"
    by (simp add: row_deleted_def tomb)
  with materialize_writes_cells [OF d] at cs
  have "\<exists>r\<in>set (rows_of d ''n''). row_value r ''k'' = VText ''1'' \<and> row_value r ''v'' = VInt 5"
    by (auto simp: spec full_rows_def aff v)
  with d show ?thesis by simp
qed

text \<open>Rebuilding a row whose tombstone is later than all its cells removes exactly the rows with
  that key.\<close>

theorem materialize_removes_deleted:
  assumes "materialize E spec pk d = Inr d'"
    "row_deleted (tbl_get (tombs d) (ts_name spec, pk)) (row_cells d (ts_name spec) pk)"
  shows "rows_of d' (ts_name spec) =
    List.filter (\<lambda>r. row_key E (ts_pk_col spec) r \<noteq> Some pk) (rows_of d (ts_name spec))"
  using assms by (rule materialize_deleted)

definition b_stale :: db where
  "b_stale = set_rows ''n'' [a_note, [(''k'', VText ''2''), (''v'', VNull)]] (peer_deleted\<lparr>guard := 1\<rparr>)"

theorem materialize_removes_deleted_witness:
  "(case materialize toy_env notes_spec ''1'' b_stale of Inl e \<Rightarrow> False
    | Inr d \<Rightarrow> rows_of d ''n'' = [[(''k'', VText ''2''), (''v'', VNull)]])"
proof -
  have ok: "(case materialize toy_env notes_spec ''1'' b_stale of Inl e \<Rightarrow> False | Inr d \<Rightarrow> True)"
    and del: "row_deleted (tbl_get (tombs b_stale) (''n'', ''1'')) (row_cells b_stale ''n'' ''1'')"
    and rows: "rows_of b_stale ''n'' = [a_note, [(''k'', VText ''2''), (''v'', VNull)]]"
    and key: "row_key toy_env ''k'' a_note = Some ''1''"
    unfolding b_stale_def peer_deleted_eq by code_simp+
  obtain d where d: "materialize toy_env notes_spec ''1'' b_stale = Inr d"
    using ok by (auto split: sum.splits)
  have spec: "ts_name notes_spec = ''n''" "ts_pk_col notes_spec = ''k''" by (simp_all add: notes_spec_def)
  have "row_key toy_env ''k'' [(''k'', VText ''2''), (''v'', VNull)] = Some ''2''"
    by (simp add: row_key_def row_value_def)
  with materialize_removes_deleted [OF d] del rows key
  have "rows_of d ''n'' = [[(''k'', VText ''2''), (''v'', VNull)]]" by (simp add: spec)
  with d show ?thesis by simp
qed

text \<open>C39: A row was deleted, and is inserted again with the values its columns had last: the table captures
  inserts, nothing else is staged, no row has the key, and by the log the row is deleted and each
  registered column was last written with the value the new row has.  Then nothing is announced: the flush
  finds the old cells equal and writes no record, the log, the cells and the tombstone stay, and nothing is
  left staged that a later flush could announce.  The writer has the row in its table, though its log says that it
  is deleted; a replica with the same log that shows this row as the log has it does not have it.\<close>

theorem reinserted_row_diverges:
  assumes "execute E [WInsert (ts_name spec) row] d = (Inr (n, out), d')" "captured d spec" "local_ops d = []"
    "data_ok d" "row_key E (ts_pk_col spec) row = Some pk"
    "\<forall>r\<in>set (rows_of d (ts_name spec)). row_key E (ts_pk_col spec) r \<noteq> Some pk" "\<forall>(c, v)\<in>set row. value_ok v"
    "deleted_in (changes d) (ts_name spec) pk"
    "\<forall>col\<in>set (ts_cols spec). \<forall>v. map_of row col = Some v \<longrightarrow>
       (\<exists>c. last_write (changes d) (ts_name spec) pk col c \<and> (sc_vtype c, sc_val c) = to_storage v)"
    "content ` set (changes peer) = content ` set (changes d)" "row_shows E spec pk peer"
  shows "out = [] \<and> changes d' = changes d \<and> cells d' = cells d \<and> tombs d' = tombs d \<and> local_ops d' = []
    \<and> rows_of d' (ts_name spec) = rows_of d (ts_name spec) @ [row] \<and> \<not> row_shows E spec pk d'
    \<and> (\<forall>r\<in>set (rows_of peer (ts_name spec)). row_key E (ts_pk_col spec) r \<noteq> Some pk)"
proof -
  note silent = execute_silent [OF assms(1-3,5-7) logged_row_replicated [OF assms(4,9)]]
  have rows: "rows_of d' (ts_name spec) = rows_of d (ts_name spec) @ [row]"
    by (rule execute_insert(1) [OF assms(1)])
  then have "\<not> row_shows E spec pk d'"
    using assms(5,8) silent(2) by (simp add: row_shows_def)
  moreover have "deleted_in (changes peer) (ts_name spec) pk"
    using deleted_in_content [OF assms(10) [symmetric] assms(8)] .
  ultimately show ?thesis using silent rows assms(11) by (simp add: row_shows_def)
qed

theorem reinserted_row_diverges_witness:
  "\<exists>d'. execute toy_env [WInsert ''n'' a_note] peer_deleted = (Inr (1, []), d')
     \<and> rows_of d' ''n'' = [a_note] \<and> rows_of peer_deleted ''n'' = [] \<and> changes d' = changes peer_deleted"
proof -
  let ?x = "execute toy_env [WInsert ''n'' a_note] peer_deleted"
  have spec: "ts_name notes_spec = ''n''" "ts_pk_col notes_spec = ''k''" "ts_cols notes_spec = [''v'']"
    by (simp_all add: notes_spec_def)
  have log: "changes peer_deleted = [stored_of 1 a_record, stored_of 2 d_record]"
    and rows: "rows_of peer_deleted ''n'' = []" and ops: "local_ops peer_deleted = []"
    by (simp_all add: peer_deleted_eq deleted_state_def rows_of_def small_def notes_file_def empty_file_def replica_file.defs)
  have cap: "captured peer_deleted notes_spec"
    by (simp add: captured_def spec peer_deleted_eq deleted_state_def small_def notes_file_def empty_file_def
        replica_file.defs)
  have "log_ok peer_deleted"
    unfolding peer_deleted_def
    by (rule applied_state_fields(1) [OF apply_remote_state]) (use small_ok in \<open>simp add: node_ok_def\<close>)
  then have ok: "data_ok peer_deleted" by (simp add: log_ok_def)
  have run: "(case fst ?x of Inl e \<Rightarrow> False | Inr (n, out) \<Rightarrow> n = 1)"
    unfolding peer_deleted_eq by code_simp
  then obtain out where "fst ?x = Inr (1, out)" by (auto split: sum.splits)
  then have ex: "execute toy_env [WInsert (ts_name notes_spec) a_note] peer_deleted = (Inr (1, out), snd ?x)"
    by (metis prod.collapse spec(1))
  have del: "deleted_in (changes peer_deleted) (ts_name notes_spec) ''1''"
    unfolding log spec by code_simp
  have key: "row_key toy_env (ts_pk_col notes_spec) a_note = Some ''1''" by code_simp
  have vals: "\<forall>(c, v)\<in>set a_note. value_ok v" by code_simp
  have "last_write (changes peer_deleted) ''n'' ''1'' ''v'' (stored_of 1 a_record)
      \<and> (sc_vtype (stored_of 1 a_record), sc_val (stored_of 1 a_record)) = to_storage (VInt 5)"
    unfolding log by code_simp
  then have same: "\<forall>col\<in>set (ts_cols notes_spec). \<forall>v. map_of a_note col = Some v \<longrightarrow>
       (\<exists>c. last_write (changes peer_deleted) (ts_name notes_spec) ''1'' col c \<and> (sc_vtype c, sc_val c) = to_storage v)"
    by (auto simp: spec a_note_def)
  have seen: "row_shows toy_env notes_spec ''1'' peer_deleted"
    using del rows by (simp add: row_shows_def spec)
  from reinserted_row_diverges [OF ex cap ops ok key _ vals del same refl seen] rows ex
  show ?thesis by (auto simp: spec)
qed

section \<open>Registering a table\<close>

text \<open>What registering stages.\<close>

lemma stage_ops_staged:
  "stage_ops t ops d = Inr d' \<Longrightarrow> set (local_ops d) \<subseteq> set (local_ops d')
     \<and> (\<forall>k oper. (k, oper) \<in> set ops \<longrightarrow> (\<exists>pk lo. k = Some pk \<and> lo \<in> set (local_ops d')
          \<and> op_key lo = (t, pk) \<and> lo_op lo = oper))"
  by (induction t ops d rule: stage_ops.induct) (auto simp: op_key_def)

lemma adopt_rows_staged:
  assumes "adopt_rows E t pk_col d = Inr d'" "tbl_get (app d) t = Some at" "r \<in> set (at_rows at)"
  shows "\<exists>pk. row_key E pk_col r = Some pk \<and>
    (has_cells d t (Some pk) \<or> (\<exists>lo\<in>set (local_ops d'). op_key lo = (t, pk) \<and> lo_op lo = ''upsert''))"
proof (cases "has_cells d t (row_key E pk_col r)")
  case True
  then obtain pk where "row_key E pk_col r = Some pk" by (auto simp: has_cells_def dest: sym)
  with True show ?thesis by simp
next
  case False
  then have "(row_key E pk_col r, ''upsert'') \<in> set (List.map (\<lambda>k. (k, ''upsert''))
      (List.filter (\<lambda>k. \<not> has_cells d t k) (List.map (row_key E pk_col) (at_rows at))))"
    using assms(3) by auto
  with stage_ops_staged [OF assms(1) [unfolded adopt_rows_def assms(2) option.case]] show ?thesis by blast
qed

text \<open>C31: A table is registered only if it exists, has exactly one primary key column and that is the
  one named; then every other column is replicated, its triggers are in place, and every row without
  replicated state is staged for sharing.\<close>

theorem register_table_correct:
  assumes "register_table E t pk_col d = (Inr spec, d')"
  shows "\<exists>at. tbl_get (app d) t = Some at
    \<and> List.map fst (List.filter (\<lambda>(n, pk). 0 < pk) (at_info at)) = [pk_col]
    \<and> spec = \<lparr>ts_name = t, ts_pk_col = pk_col,
              ts_cols = List.filter (\<lambda>n. n \<noteq> pk_col) (List.map fst (at_info at))\<rparr>
    \<and> tbl_get (tables d') t = Some spec \<and> tbl_get (triggers d') (trigger_prefix E t) = Some (t, pk_col)
    \<and> (\<forall>r\<in>set (at_rows at). \<exists>pk. row_key E pk_col r = Some pk
        \<and> (has_cells d t (Some pk) \<or> (\<exists>lo\<in>set (local_ops d'). op_key lo = (t, pk) \<and> lo_op lo = ''upsert'')))"
proof -
  obtain at where at: "tbl_get (app d) t = Some at" "at_info at \<noteq> []"
    using assms by (auto simp: register_table_def Let_def split: option.splits if_splits)
  let ?pks = "List.map fst (List.filter (\<lambda>(n, pk). 0 < pk) (at_info at))"
  let ?cols = "List.filter (\<lambda>n. n \<noteq> pk_col) (List.map fst (at_info at))"
  let ?spec = "\<lparr>ts_name = t, ts_pk_col = pk_col, ts_cols = ?cols\<rparr>"
  let ?d1 = "install_triggers E t pk_col (d\<lparr>synced := tbl_put t (pk_col, json_of_cols E ?cols) (synced d)\<rparr>)"
  have len: "length ?pks = 1" and hd: "hd ?pks = pk_col"
    using assms at by (auto simp: register_table_def Let_def split: if_splits)
  then have pks: "?pks = [pk_col]" by (cases ?pks) auto
  obtain d2 where d2: "adopt_rows E t pk_col ?d1 = Inr d2" "spec = ?spec"
    "d' = d2\<lparr>tables := tbl_put t ?spec (tables d2)\<rparr>"
    using assms at len hd
    by (auto simp: register_table_def Let_def split: if_splits sum.splits)
  have d1: "tbl_get (app ?d1) t = Some at" "cells ?d1 = cells d"
    "tbl_get (triggers ?d1) (trigger_prefix E t) = Some (t, pk_col)"
    by (simp_all add: install_triggers_def at tbl_get_put)
  have "triggers d2 = triggers ?d1"
    by (subst adopt_rows_frame [OF d2(1)]) simp
  moreover have "has_cells ?d1 t k = has_cells d t k" for k by (simp add: has_cells_def d1(2))
  ultimately show ?thesis
    using at(1) pks d2(2,3) d1(3) adopt_rows_staged [OF d2(1) d1(1)]
    by (intro exI [of _ at]) (simp add: tbl_get_put)
qed

definition old_rows :: db where
  "old_rows = with_rows [a_note] ((small ''a'')\<lparr>tables := [], triggers := []\<rparr>)"

theorem register_table_correct_witness:
  "fst (register_table toy_env ''n'' ''k'' old_rows) = Inr notes_spec
     \<and> (\<exists>lo\<in>set (local_ops (snd (register_table toy_env ''n'' ''k'' old_rows))). op_key lo = (''n'', ''1''))"
proof -
  have r: "fst (register_table toy_env ''n'' ''k'' old_rows) = Inr notes_spec" by code_simp
  then have "register_table toy_env ''n'' ''k'' old_rows =
      (Inr notes_spec, snd (register_table toy_env ''n'' ''k'' old_rows))"
    by (metis prod.collapse)
  note reg = register_table_correct [OF this]
  have at: "tbl_get (app old_rows) ''n'' = Some \<lparr>at_info = [(''k'', 1), (''v'', 0)], at_rows = [a_note]\<rparr>"
    and key: "row_key toy_env ''k'' a_note = Some ''1''" and nocell: "\<not> has_cells old_rows ''n'' (Some ''1'')"
    by code_simp+
  from reg at key nocell r show ?thesis by auto
qed

section \<open>Tables with one trigger prefix\<close>

lemma registered_triggers:
  assumes "register_table E t pk_col d = (Inr spec, d')"
  shows "triggers d' = tbl_put (trigger_prefix E t) (t, pk_col) (triggers d)"
proof -
  obtain s d2 where "adopt_rows E t pk_col (install_triggers E t pk_col (d\<lparr>synced := s\<rparr>)) = Inr d2"
    "triggers d' = triggers d2"
    using assms by (auto simp: register_table_def Let_def split: if_splits sum.splits)
  from adopt_rows_frame [OF this(1)] this(2) show ?thesis
    by (metis (no_types, lifting) install_triggers_def replica_file.select_convs(11) replica_file.simps(11)
        replica_file.surjective replica_file.update_convs(3,4,9,11))
qed

text \<open>Without a trigger of its own a table is written silently.\<close>

definition untriggered :: "string \<Rightarrow> 'a replica_file_scheme \<Rightarrow> bool" where
  "untriggered t d \<longleftrightarrow> list_all (\<lambda>(prefix, on_tbl, pk). on_tbl \<noteq> t) (triggers d)"

lemma fire_untriggered:
  "list_all (\<lambda>(prefix, on_tbl, pk). on_tbl \<noteq> t) trs \<Longrightarrow> fire_triggers E t ev trs d = Inr d"
  by (induction trs) auto

lemma fire_all_untriggered: "untriggered t d \<Longrightarrow> fire_all E t evs d = Inr d"
  by (induction evs) (auto simp: fire_untriggered untriggered_def)

lemma set_rows_staging:
  "local_ops (set_rows t rows d) = local_ops d" "untriggered t (set_rows u rows d) = untriggered t d"
  by (simp_all add: set_rows_def untriggered_def split: option.split)

lemma write_rows_untriggered: "untriggered t d \<Longrightarrow> write_rows E t rows evs d = Inr (set_rows t rows d)"
  unfolding write_rows_def by (rule fire_all_untriggered) (simp add: set_rows_staging)

fun written_table :: "row_write \<Rightarrow> string" where
  "written_table (WInsert t r) = t"
| "written_table (WUpdate t i r) = t"
| "written_table (WDelete t i) = t"

lemma write_untriggered:
  assumes "untriggered (written_table w) d" "apply_write E w d = Inr d'"
  shows "local_ops d' = local_ops d \<and> untriggered t d' = untriggered t d"
  using assms
  by (cases w) (auto simp: write_rows_untriggered set_rows_staging split: option.splits if_splits)

lemma writes_untriggered:
  "untriggered t d \<Longrightarrow> list_all (\<lambda>w. written_table w = t) ws \<Longrightarrow> apply_writes E ws d = Inr d'
     \<Longrightarrow> local_ops d' = local_ops d"
proof (induction ws arbitrary: d)
  case (Cons w ws)
  then obtain d1 where d1: "apply_write E w d = Inr d1" "apply_writes E ws d1 = Inr d'"
    by (auto split: sum.splits)
  have "local_ops d1 = local_ops d" "untriggered t d1"
    using write_untriggered [OF _ d1(1), of t] Cons.prems(1,2) by auto
  with Cons.IH [OF _ _ d1(2)] Cons.prems(2) show ?case by simp
qed simp

text \<open>C38: Registering a table takes the capture triggers away from every table whose name differs from its own
  only in characters that are not alphanumeric: whatever is written to such a table afterwards is staged
  nowhere, so it is never shared.\<close>

theorem colliding_tables_lose_capture:
  assumes "register_table E u pk_col d = (Inr spec, d')" "trigger_prefix E u = trigger_prefix E t" "u \<noteq> t"
    "tbl_wf (triggers d)" "\<forall>prefix pk. (prefix, t, pk) \<in> set (triggers d) \<longrightarrow> prefix = trigger_prefix E t"
    "list_all (\<lambda>w. written_table w = t) ws" "apply_writes E ws d' = Inr d''"
  shows "local_ops d'' = local_ops d'"
proof (rule writes_untriggered [OF _ assms(6,7)])
  have tr: "triggers d' = tbl_put (trigger_prefix E t) (u, pk_col) (triggers d)"
    using registered_triggers [OF assms(1)] assms(2) by simp
  have "on_tbl \<noteq> t" if "(prefix, on_tbl, pk) \<in> set (triggers d')" for prefix on_tbl pk
  proof -
    have "tbl_get (triggers d') prefix = Some (on_tbl, pk)"
      using that tr tbl_wf_put [OF assms(4)] by (simp add: tbl_get_Some_set)
    then show ?thesis
      using assms(3,4,5) tr by (auto simp: tbl_get_put tbl_get_Some_set split: if_splits)
  qed
  then show "untriggered t d'" by (auto simp: untriggered_def list_all_iff)
qed

definition twin_tables :: db where
  "twin_tables = (small ''a'')\<lparr>triggers := [(''_p2p_cap_n_x'', ''n-x'', ''k'')],
     app := [(''n-x'', \<lparr>at_info = [(''k'', 1), (''v'', 0)], at_rows = []\<rparr>),
             (''n_x'', \<lparr>at_info = [(''k'', 1), (''v'', 0)], at_rows = []\<rparr>)]\<rparr>"

theorem colliding_tables_lose_capture_witness:
  "\<exists>d. apply_writes toy_env [WInsert ''n-x'' a_note] (snd (register_table toy_env ''n_x'' ''k'' twin_tables)) = Inr d
     \<and> local_ops d = [] \<and> rows_of d ''n-x'' = [a_note]"
proof -
  let ?d = "snd (register_table toy_env ''n_x'' ''k'' twin_tables)"
  have r: "register_table toy_env ''n_x'' ''k'' twin_tables = (Inr \<lparr>ts_name = ''n_x'', ts_pk_col = ''k'', ts_cols = [''v'']\<rparr>, ?d)"
    "trigger_prefix toy_env ''n_x'' = trigger_prefix toy_env ''n-x''" "trigger_prefix toy_env ''n-x'' = ''_p2p_cap_n_x''"
    "local_ops ?d = []" "triggers twin_tables = [(''_p2p_cap_n_x'', ''n-x'', ''k'')]"
    by code_simp+
  have w: "apply_writes toy_env [WInsert ''n-x'' a_note] ?d =
      Inr (the_db (apply_writes toy_env [WInsert ''n-x'' a_note] ?d))"
    by (rule the_db_ok) code_simp
  have "rows_of (the_db (apply_writes toy_env [WInsert ''n-x'' a_note] ?d)) ''n-x'' = [a_note]" by code_simp
  moreover have "local_ops (the_db (apply_writes toy_env [WInsert ''n-x'' a_note] ?d)) = local_ops ?d"
    by (rule colliding_tables_lose_capture [OF r(1,2) _ _ _ _ w]) (simp_all add: r(3,5) tbl_wf_def)
  ultimately show ?thesis using w r(4) by auto
qed

end
