(* ===== verification/SyncProperties.thy ===== *)
theory SyncProperties
  imports Samples Syncing Rows
begin

text \<open>
  The properties of anti-entropy and of restarts, each with an instance on the replicas of \<open>Samples\<close>.
\<close>

definition two_records :: "change_record list" where
  "two_records = [a_record, a_record\<lparr>cr_hlc := Hlc 1001 0, cr_pk := ''2''\<rparr>]"

definition a_full :: db where
  "a_full = snd (apply_remote toy_env two_records (new_node ''c''))"

definition b_skipped :: db where
  "b_skipped = snd (apply_remote toy_env [two_records ! 1] (new_node ''b''))"

lemma new_node_c: "new_node ''c'' = started ''c''"
  by code_simp

lemma open_c: "ok_result (from_connection toy_env notes_file ''c'')"
  by code_simp

lemma apply_ok: "log_ok d \<Longrightarrow> log_ok (snd (apply_remote E chs d))"
  using applied_state_fields(1) [OF apply_remote_state] .

lemma a_full_ok: "log_ok a_full"
  unfolding a_full_def using new_node_ok(1) [OF open_c] by (intro apply_ok) (simp add: node_ok_def)

lemma a_full_changes: "changes a_full = [stored_of 1 (two_records ! 0), stored_of 2 (two_records ! 1)]"
  unfolding a_full_def new_node_c by code_simp

section \<open>Anti-entropy\<close>

text \<open>Pulling pages transfers the whole log of a peer: if the puller has no gap below its version
  vector and every record of the peer can be decoded and is admissible, then \<open>n\<close> pages of \<open>limit\<close>
  records deliver the first \<open>n * limit\<close> missing rows, so enough pages leave nothing missing.\<close>

theorem pulling_transfers_the_log:
  assumes "log_ok d" "log_ok p" "no_gap d p" "servable E (require_signatures d) p"
    and "length (changes p) \<le> n * limit"
  shows "change_key ` set (changes p) \<subseteq> change_key ` set (changes (pull_rounds E n limit p d))"
proof -
  have "length (unheld d p) \<le> length (changes p)" by (simp add: unheld_def)
  then have "unheld (pull_rounds E n limit p d) p = []"
    using pull_rounds_unheld [OF assms(1-4), of n limit] assms(5) by simp
  then show ?thesis by (simp add: unheld_Nil_iff)
qed

theorem pulling_transfers_the_log_witness:
  "{record_key r | r. r \<in> set two_records}
     \<subseteq> change_key ` set (changes (pull_rounds toy_env 2 1 a_full (new_node ''b'')))"
proof -
  have b: "log_ok (new_node ''b'')" "changes (new_node ''b'') = []"
    using new_node_ok [OF open_b] by (simp_all add: node_ok_def)
  have vv: "vv_rows (new_node ''b'') = []" and req: "\<not> require_signatures (new_node ''b'')"
    by (simp_all add: sample_states)
  have "no_gap (new_node ''b'') a_full"
    by (simp add: no_gap_def vv text_above_def a_full_changes)
  moreover have "servable toy_env (require_signatures (new_node ''b'')) a_full"
    by (simp add: servable_def a_full_changes decode_change_stored_of req admissible_def two_records_def
        a_record_def value_ok_def)
  moreover have "length (changes a_full) \<le> 2 * 1" by (simp add: a_full_changes)
  ultimately have "change_key ` set (changes a_full)
      \<subseteq> change_key ` set (changes (pull_rounds toy_env 2 1 a_full (new_node ''b'')))"
    using b(1) a_full_ok by (intro pulling_transfers_the_log)
  then show ?thesis by (auto simp: a_full_changes two_records_def)
qed

text \<open>A replica takes a page from a peer that keeps the invariant of the log, or is closed and opened.\<close>

inductive pulls :: "'a env_scheme \<Rightarrow> db \<Rightarrow> db \<Rightarrow> bool" for E where
  Page: "\<lbrakk>log_ok (p :: db); version_vector d = Inr vv; changes_since p vv limit = Inr rs;
     apply_remote E rs d = (out, d')\<rbrakk> \<Longrightarrow> pulls E d d'"
| Reopen: "open_file E (replica_file.truncate d) dev key = Inr d' \<Longrightarrow> pulls E d d'"

text \<open>A gap: the log lacks the record of a stamp and holds one of the same author with a later stamp.\<close>

definition gap_at :: "string \<times> string \<Rightarrow> db \<Rightarrow> bool" where
  "gap_at k d \<longleftrightarrow> log_ok d \<and> k \<notin> change_key ` set (changes d)
     \<and> (\<exists>e\<in>set (changes d). sc_origin e = fst k \<and> snd k < sc_hlc e)"

lemma gap_not_served:
  assumes "gap_at k d" "version_vector d = Inr vv" "c \<in> set (missing_rows p vv)"
  shows "change_key c \<noteq> k"
proof
  assume k: "change_key c = k"
  obtain e where e: "e \<in> set (changes d)" "sc_origin e = fst k" "snd k < sc_hlc e"
    using assms(1) by (auto simp: gap_at_def)
  have vv: "asked_above vv v = text_above (vv_rows d) v" "vv_rows d = merged_vv (changes d)" for v
    using version_vector_spec [of d] assms(1,2) by (auto simp: gap_at_def log_ok_def)
  have "fst k \<in> sc_origin ` set (changes d)" by (metis e(1,2) imageI)
  then obtain h where h: "tbl_get (vv_rows d) (fst k) = Some h"
    using merged_vv_get(1) [of "changes d" "fst k"] by (auto simp: vv(2))
  have "sc_hlc e \<le> h" using merged_vv_get(2) [of "changes d" "fst k" h] h e(1,2) by (simp add: vv(2))
  then have "snd k < text_above (vv_rows d) (fst k)" using e(3) h by (simp add: text_above_def)
  moreover have "text_above (vv_rows d) (sc_origin c) < sc_hlc c" using assms(3) by (simp add: missing_rows_def vv(1))
  ultimately show False using k by (auto simp: change_key_def)
qed

lemma append_log_keeps: "set log \<subseteq> set (append_log log rs)"
proof (induction rs arbitrary: log)
  case (Cons r rs)
  from Cons.IH [of "log @ [stored_of (next_seq log) r]"] show ?case by simp
qed simp

lemma gap_kept:
  assumes "pulls E d d'" "gap_at k d"
  shows "gap_at k d'"
  using assms(1)
proof cases
  case (Page p vv limit rs out)
  let ?page = "take limit (missing_rows p vv)"
  have ok: "log_ok d" using assms(2) by (simp add: gap_at_def)
  have st: "applied_state E (new_records E rs d) d d'"
    using apply_remote_state [OF ok, of E rs] Page(4) by simp
  have "\<forall>c\<in>set ?page. decodable c"
    using Page(1) by (auto dest!: in_set_takeD simp: missing_rows_def log_ok_def data_ok_def rows_ok_def)
  moreover have "decode_changes ?page = Inr rs" using Page(3) by (simp add: changes_since_def)
  ultimately have "change_key ` content ` set ?page = change_key ` stored_of 0 ` set rs"
    using decode_changes_rows by (metis list.set_map)
  then have keys: "change_key ` set ?page = record_key ` set rs" by (simp add: image_image)
  have "k \<notin> change_key ` set ?page"
    using gap_not_served [OF assms(2) Page(2)] by (auto dest!: in_set_takeD)
  then have "k \<notin> record_key ` set (admitted E rs d)" by (auto simp: keys admit_admissible)
  then have "k \<notin> change_key ` set (changes d')"
    using applied_keys [OF st] assms(2) by (simp add: gap_at_def)
  moreover have "set (changes d) \<subseteq> set (changes d')"
    unfolding applied_state_fields(2) [OF st] by (rule append_log_keeps)
  ultimately show ?thesis using assms(2) applied_state_fields(1) [OF st] by (auto simp: gap_at_def)
next
  case (Reopen dev key)
  have "log_ok d" using assms(2) by (simp add: gap_at_def)
  then have "log_ok d' \<and> changes d' = changes d"
    using open_file_ok [OF Reopen] by (simp add: node_ok_def)
  then show ?thesis using assms(2) by (simp add: gap_at_def)
qed

text \<open>C37: A record that overtakes an earlier one of the same author opens a gap that no pull ever fills: once a
  replica has stored a batch (an announcement, say) that has a later record of the author and not the
  earlier one, then whatever pages it pulls after that, from whatever peers that keep the invariant of the
  log, with the earlier record or without, in whatever sizes, and with whatever restarts in between, it
  does not hold the earlier record.  (A push or another announcement may still bring it.)\<close>

theorem gap_is_never_served:
  assumes "log_ok d" "record_key r \<notin> change_key ` set (changes d)" "record_key r \<notin> record_key ` set chs"
    "s \<in> set chs" "admissible E (require_signatures d) s" "cr_origin s = cr_origin r" "cr_hlc r < cr_hlc s"
    "apply_remote E chs d = (out, d1)" "(pulls E)\<^sup>*\<^sup>* d1 d2"
  shows "record_key r \<notin> change_key ` set (changes d2)"
proof -
  have st: "applied_state E (new_records E chs d) d d1"
    using apply_remote_state [OF assms(1), of E chs] assms(8) by simp
  have keys: "change_key ` set (changes d1) = change_key ` set (changes d) \<union> record_key ` set (admitted E chs d)"
    by (rule applied_keys [OF st])
  then have "record_key r \<notin> change_key ` set (changes d1)" using assms(2,3) by (auto simp: admit_admissible)
  moreover have "record_key s \<in> change_key ` set (changes d1)"
    using keys assms(4,5) by (simp add: admit_admissible)
  then obtain e where "e \<in> set (changes d1)" "change_key e = record_key s" by (metis imageE)
  then have "\<exists>e\<in>set (changes d1). sc_origin e = cr_origin r \<and> to_hex (cr_hlc r) < sc_hlc e"
    using assms(6,7) by (auto simp: change_key_def record_key_def)
  ultimately have "gap_at (record_key r) d1"
    using applied_state_fields(1) [OF st] by (simp add: gap_at_def record_key_def)
  with assms(9) have "gap_at (record_key r) d2"
    by (induction rule: rtranclp_induct) (blast intro: gap_kept)+
  then show ?thesis by (simp add: gap_at_def)
qed

theorem gap_is_never_served_witness:
  "record_key a_record \<in> change_key ` set (changes a_full)
     \<and> (\<exists>vv rs. version_vector b_skipped = Inr vv \<and> changes_since a_full vv 500 = Inr rs
         \<and> record_key a_record \<notin> change_key ` set (changes (snd (apply_remote toy_env rs b_skipped))))"
proof -
  have b: "log_ok (new_node ''b'')" "changes (new_node ''b'') = []"
    using new_node_ok [OF open_b] by (simp_all add: node_ok_def)
  have ap: "apply_remote toy_env [two_records ! 1] (new_node ''b'') =
      (fst (apply_remote toy_env [two_records ! 1] (new_node ''b'')), b_skipped)"
    by (simp add: b_skipped_def)
  have ok: "log_ok b_skipped" unfolding b_skipped_def by (rule apply_ok [OF b(1)])
  obtain v where v: "version_vector b_skipped = Inr v" using version_vector_spec [OF ok] by blast
  have "servable toy_env False a_full"
    by (simp add: servable_def a_full_changes decode_change_stored_of admissible_def two_records_def
        a_record_def value_ok_def)
  from changes_since_served [OF this] obtain rs where rs: "changes_since a_full v 500 = Inr rs" by blast
  have "pulls toy_env b_skipped (snd (apply_remote toy_env rs b_skipped))"
    by (rule pulls.Page [OF a_full_ok v rs, of _ "fst (apply_remote toy_env rs b_skipped)"]) simp
  then have "(pulls toy_env)\<^sup>*\<^sup>* b_skipped (snd (apply_remote toy_env rs b_skipped))" by (rule r_into_rtranclp)
  moreover have "admissible toy_env (require_signatures (new_node ''b'')) (two_records ! 1)"
    by (simp add: sample_states admissible_def two_records_def a_record_def)
  moreover have "Hlc 1000 0 < Hlc 1001 0" by code_simp
  ultimately have "record_key a_record \<notin> change_key ` set (changes (snd (apply_remote toy_env rs b_skipped)))"
    using gap_is_never_served [OF b(1) _ _ _ _ _ _ ap, of a_record "two_records ! 1"] b(2)
    by (simp add: two_records_def a_record_def record_key_def)
  moreover have "record_key a_record \<in> change_key ` set (changes a_full)"
    by (simp add: a_full_changes two_records_def)
  ultimately show ?thesis using v rs by blast
qed

text \<open>The version vector of a replica is, for every author in its log, the highest stamp held.\<close>

theorem version_vector_is_log_maximum:
  assumes "log_ok d"
  shows "\<exists>vv. version_vector d = Inr vv
    \<and> (\<forall>v. (\<forall>c\<in>set (changes d). sc_origin c \<noteq> v) \<and> asked_above vv v = []
        \<or> (\<exists>c\<in>set (changes d). sc_origin c = v \<and> sc_hlc c = asked_above vv v
             \<and> (\<forall>e\<in>set (changes d). sc_origin e = v \<longrightarrow> sc_hlc e \<le> sc_hlc c)))"
proof -
  obtain vv where vv: "version_vector d = Inr vv" "\<And>v. asked_above vv v = text_above (vv_rows d) v"
    using version_vector_spec [OF assms] by blast
  have m: "vv_rows d = merged_vv (changes d)" using assms by (simp add: log_ok_def)
  show ?thesis
  proof (intro exI [of _ vv] conjI allI vv(1))
    fix v
    show "(\<forall>c\<in>set (changes d). sc_origin c \<noteq> v) \<and> asked_above vv v = []
        \<or> (\<exists>c\<in>set (changes d). sc_origin c = v \<and> sc_hlc c = asked_above vv v
             \<and> (\<forall>e\<in>set (changes d). sc_origin e = v \<longrightarrow> sc_hlc e \<le> sc_hlc c))"
    proof (cases "tbl_get (vv_rows d) v")
      case None
      then show ?thesis using merged_vv_get(1) [of "changes d" v] by (auto simp: vv(2) text_above_def m)
    next
      case (Some h)
      then show ?thesis using merged_vv_get(2) [of "changes d" v h] by (auto simp: vv(2) text_above_def m)
    qed
  qed
qed

theorem version_vector_is_log_maximum_witness:
  "\<exists>vv. version_vector a_flushed = Inr vv \<and> asked_above vv ''a'' = ''00000000000003e800000000''"
proof -
  have "changes a_flushed = [stored_of 1 a_record]" "to_hex (cr_hlc a_record) = ''00000000000003e800000000''"
    by (simp_all add: sample_states a_record_def note_stamp)
  then show ?thesis
    using version_vector_is_log_maximum [of a_flushed] sample_nodes_ok(1)
    by (auto simp: node_ok_def a_record_def)
qed

section \<open>Announcing local records\<close>

text \<open>Announcing in pages covers every record of this device exactly once and in log order: what
  \<open>unbroadcast_local\<close> returns is the first page of the records above the mark, and after
  \<open>mark_broadcast\<close> of its high-water mark the records above it are the rest.\<close>

theorem broadcast_pages_drain:
  assumes "log_ok d" "seq_fits d" "unbroadcast_local d limit = Inr (rs, high)"
  shows "List.map (stored_of 0) rs = List.map content (take limit (pending d))
    \<and> pending (mark_broadcast high d) = drop limit (pending d)"
  using pending_mark [OF assms] by simp

theorem broadcast_pages_drain_witness:
  "pending (mark_broadcast 1 a_flushed) = drop 1 (pending a_flushed) \<and> length (pending a_flushed) = 1"
proof -
  have c: "changes a_flushed = [stored_of 1 a_record]" and "meta a_flushed = []"
    and "device_id a_flushed = ''a''" by (simp_all add: sample_states)
  then have p: "watermark a_flushed = 0" "pending a_flushed = [stored_of 1 a_record]"
    by (simp_all add: watermark_def get_meta_def pending_def a_record_def)
  have "decode_change (stored_of 1 a_record) = Inr a_record"
    by (simp add: decode_change_stored_of a_record_def value_ok_def)
  then have u: "unbroadcast_local a_flushed 1 = Inr ([a_record], 1)"
    by (simp add: unbroadcast_local_def unbroadcast_rows_pending p)
  have l: "length (pending a_flushed) = 1" by (simp add: p)
  have "seq_fits a_flushed" by (simp add: seq_fits_def c)
  from broadcast_pages_drain [OF _ this u] l sample_nodes_ok(1) show ?thesis by (simp add: node_ok_def)
qed

section \<open>Restarts\<close>

text \<open>C33: Opening a file, after a crash or an orderly stop, keeps the log and its invariant, and
  resumes the clock at or above every stamp of this device in that log.\<close>

theorem reopening_resumes:
  assumes "open_file E (replica_file.truncate d0) dev key = Inr d" "log_ok (d0 :: db)"
  shows "log_ok d \<and> own_below d \<and> changes d = changes d0"
  using open_file_ok [OF assms(1)] assms(2) by (simp add: node_ok_def)

theorem reopening_resumes_witness:
  "\<exists>d. open_file toy_env (replica_file.truncate a_flushed) ''a'' None = Inr d \<and> log_ok d \<and> own_below d"
proof -
  let ?r = "from_connection toy_env (replica_file.truncate a_flushed) ''a''"
  have "max_own_stamp (replica_file.truncate a_flushed) ''a'' = Some (to_hex (Hlc 1000 0))"
    unfolding a_flushed_eq by code_simp
  then have "?r = attach toy_env (migrate (replica_file.truncate a_flushed)) ''a'' (Some (Hlc 1000 0))"
    by (simp add: from_connection_def)
  moreover have "ok_result (attach toy_env (migrate (replica_file.truncate a_flushed)) ''a'' (Some (Hlc 1000 0)))"
    unfolding a_flushed_eq by code_simp
  ultimately have "ok_result ?r" by simp
  then have "open_file toy_env (replica_file.truncate a_flushed) ''a'' None = Inr (the_db ?r)"
    by (simp add: open_file_def the_db_ok [symmetric])
  with reopening_resumes [OF this] sample_nodes_ok(1) show ?thesis by (auto simp: node_ok_def)
qed

end
