(* ===== verification/TrustProperties.thy ===== *)
theory TrustProperties
  imports Changes
begin

text \<open>
  The properties of the clock, the value codec, certificates, revocation lists and signed records,
  each with an instance on \<open>toy_crypto\<close>.
\<close>

section \<open>Clock\<close>

text \<open>C34: The text of a stamp sorts exactly like the stamp and reads back to it, so SQL may compare it.\<close>

theorem stamp_text_is_order_embedding:
  "(to_hex a < to_hex b) = (a < b) \<and> (to_hex a = to_hex b) = (a = b) \<and> from_hex (to_hex a) = Inr (Some a)"
  by simp

text \<open>After observing a stamp within the drift window, the clock is strictly above both that stamp
  and its own past, and the next tick is strictly above it again, unless a counter is about to overflow.\<close>

theorem observe_then_tick_is_later:
  assumes "wall_ms r \<le> sat_add (W (reads c)) MAX_CLOCK_DRIFT_MS"
    "unat (counter r) + 2 < 2 ^ 32" "clock_room 2 c"
  shows "r < fst (observe W r c) \<and> last_hlc c \<le> fst (observe W r c)
    \<and> fst (observe W r c) < fst (tick W (snd (observe W r c)))"
proof -
  have ns: "not_saturated r" "not_saturated (last_hlc c)"
    using assms(2,3) by (auto simp: not_saturated_def clock_room_def unat_max_word)
  have m: "unat (max a b) = max (unat a) (unat b)" for a b :: u32
    by (simp add: max_def word_le_nat_alt)
  have z: "unat (counter (fst (observe W r c))) \<le> max (unat (counter (last_hlc c))) (unat (counter r)) + 1"
    by (auto simp: observe_def now_ms_def Let_def advance_def sat_add_unat m min_def)
  have "clock_room (Suc 0) (snd (observe W r c))"
    using z assms(2,3) by (auto simp: clock_room_def observe_snd)
  then have "fst (observe W r c) < fst (tick W (snd (observe W r c)))"
    using tick_gt [of 0 "snd (observe W r c)" W] by (simp add: observe_snd)
  with observe_remote_gt [of r W c] assms(1) ns observe_ge [of c W r] show ?thesis by simp
qed

theorem observe_then_tick_is_later_witness:
  "Hlc 7 3 < fst (tick (\<lambda>_. 5) (snd (observe (\<lambda>_. 5) (Hlc 7 3) new_clock)))"
proof -
  have "wall_ms (Hlc 7 3) \<le> sat_add ((\<lambda>_. 5) (reads new_clock)) MAX_CLOCK_DRIFT_MS"
    by (simp add: sat_add_def MAX_CLOCK_DRIFT_MS_def)
  moreover have "clock_room 2 new_clock" by (simp add: clock_room_def new_clock_def hlc_zero_def)
  ultimately show ?thesis
    using observe_then_tick_is_later [of "Hlc 7 3" "\<lambda>_. 5" new_clock] by (auto intro: less_trans)
qed

text \<open>C35: One observation moves the clock no further than the drift window beyond the system clock or
  where it already was, whatever the peer claims.\<close>

theorem peer_cannot_drag_the_clock:
  "wall_ms (fst (observe W r c)) \<le> max (sat_add (W (reads c)) MAX_CLOCK_DRIFT_MS) (wall_ms (last_hlc c))
     \<and> last_hlc c \<le> fst (observe W r c)"
  using observe_wall_bound observe_ge by blast

text \<open>But the counter saturates instead of running over.  A stamp at the end of the drift window whose counter
  is full stops the clock of whoever observes it: until the system clock has passed that stamp, every
  tick hands out one and the same stamp, and of the local records that get it only the first is logged.\<close>

definition ticks :: "wall_clock \<Rightarrow> nat \<Rightarrow> hybrid_clock \<Rightarrow> hybrid_clock" where
  "ticks W n c = ((\<lambda>c. snd (tick W c)) ^^ n) c"

lemma sat_full: "sat_add (- 1 :: u32) 1 = - 1"
  by code_simp

lemma full_advance: "counter h = - 1 \<Longrightarrow> phys \<le> wall_ms h \<Longrightarrow> advance phys h = h"
  by (cases h) (simp add: advance_def sat_full not_less)

lemma observe_remote_top:
  assumes "wall_ms r \<le> sat_add (W (reads c)) MAX_CLOCK_DRIFT_MS" "wall_ms (last_hlc c) < wall_ms r" "W (reads c) \<le> wall_ms r"
  shows "fst (observe W r c) = Hlc (wall_ms r) (sat_add (counter r) 1)"
proof -
  have "max (max (W (reads c)) (wall_ms (last_hlc c))) (wall_ms r) = wall_ms r"
    using assms(2,3) by (simp add: max_absorb2)
  moreover have "wall_ms r \<noteq> wall_ms (last_hlc c)" using assms(2) by auto
  ultimately show ?thesis
    using assms(1) by (simp add: observe_def now_ms_def Let_def not_less [symmetric])
qed

theorem full_counter_stops_the_clock:
  assumes "wall_ms r \<le> sat_add (W (reads c)) MAX_CLOCK_DRIFT_MS" "counter r = - 1"
    "wall_ms (last_hlc c) < wall_ms r" "\<forall>k\<le>Suc n. W (reads c + k) \<le> wall_ms r"
  shows "fst (tick W (ticks W n (snd (observe W r c)))) = Hlc (wall_ms r) (- 1)"
proof -
  let ?c = "snd (observe W r c)"
  have "W (reads c) \<le> wall_ms r" using assms(4)[rule_format, of 0] by simp
  then have "fst (observe W r c) = Hlc (wall_ms r) (- 1)"
    using observe_remote_top [of r W c] assms(1-3) by (simp add: sat_full)
  then have c: "last_hlc ?c = Hlc (wall_ms r) (- 1)" "reads ?c = Suc (reads c)" by (simp_all add: observe_snd)
  have "m \<le> n \<Longrightarrow> last_hlc (ticks W m ?c) = Hlc (wall_ms r) (- 1) \<and> reads (ticks W m ?c) = Suc (reads c) + m" for m
  proof (induction m)
    case (Suc m)
    then show ?case
      using full_advance [of "Hlc (wall_ms r) (- 1)" "W (Suc (reads c) + m)"] assms(4)[rule_format, of "Suc m"]
      by (simp add: ticks_def tick_simps)
  qed (simp add: ticks_def c)
  from this [of n] show ?thesis
    using full_advance [of "Hlc (wall_ms r) (- 1)" "W (Suc (reads c) + n)"] assms(4)[rule_format, of "Suc n"]
    by (simp add: tick_simps)
qed

theorem full_counter_stops_the_clock_witness:
  "fst (tick (\<lambda>_. 1000) (ticks (\<lambda>_. 1000) 7 (snd (observe (\<lambda>_. 1000) (Hlc 2000 (- 1)) new_clock)))) = Hlc 2000 (- 1)"
  using full_counter_stops_the_clock [of "Hlc 2000 (- 1)" "\<lambda>_. 1000" new_clock 7]
  by (simp add: sat_add_def MAX_CLOCK_DRIFT_MS_def new_clock_def hlc_zero_def)

section \<open>Values\<close>

text \<open>Reading a stored value accepts exactly what writing a value produces, plus two lenient forms
  of null and of the empty blob, and never yields a value that writes differently.\<close>

theorem storage_round_trip:
  "from_storage t raw = Inr v \<longleftrightarrow>
     value_ok v \<and> ((t, raw) = to_storage v \<or> v = VNull \<and> t = T_NULL \<or>
                   v = VBlob [] \<and> t = T_BLOB \<and> raw = None)"
  by (rule from_storage_Inr_iff)

section \<open>Certificates\<close>

text \<open>A certificate the organisation issued to a device verifies for that device and organisation
  within its validity, and is refused as revoked exactly when its serial is on the signed list.\<close>

theorem issued_certificate_verifies:
  assumes "crypto_laws C" "now < sat_add issued valid_for" "issued \<le> now + MAX_CLOCK_DRIFT_MS"
  shows "cert_verify C (issue_cert C org (ed_public C sk) user display r ser valid_for issued)
      (org_id C org) (Some (device_peer_id C sk)) (Some (sign_crl C org serials t)) now = Inr ()
    \<longleftrightarrow> ser \<notin> set serials"
proof -
  have "device_pub_to_peer_id C (ed_public C sk) = Inr (device_peer_id C sk)"
    using crypto_lawsD(2) [OF assms(1), of sk]
    by (simp add: device_pub_to_peer_id_def device_peer_id_def ed25519_public_def)
  then show ?thesis
    using assms
    by (simp add: cert_verify_ok issue_cert_def Let_def org_id_def cert_peer_id_def
        crypto_lawsD is_revoked_sign_crl [unfolded org_id_def])
qed

theorem issued_certificate_verifies_witness:
  "cert_verify toy_crypto (issue_cert toy_crypto [1] (ed_public toy_crypto [2]) ''u'' ''d'' Member 7 1000 5)
      (org_id toy_crypto [1]) (Some (device_peer_id toy_crypto [2])) (Some (sign_crl toy_crypto [1] [9, 8] 4)) 6
    = Inr ()"
  by (subst issued_certificate_verifies [OF toy_crypto_laws])
     (simp_all add: sat_add_def MAX_CLOCK_DRIFT_MS_def)

text \<open>A revocation list the organisation signed verifies, is strictly sorted whatever list of
  serials it was made from, and its binary search revokes exactly those serials.\<close>

theorem signed_list_verifies:
  assumes "crypto_laws C"
  shows "crl_verify C (sign_crl C org serials t) (org_id C org) = Inr ()
    \<and> sorted_wrt (<) (revoked (sign_crl C org serials t))
    \<and> (is_revoked (sign_crl C org serials t) s \<longleftrightarrow> s \<in> set serials)"
  using sign_crl_verifies [OF assms] by (simp add: is_revoked_sign_crl sign_crl_simps sorted_remdups_adj_strict)

theorem signed_list_verifies_witness:
  "crl_verify toy_crypto (sign_crl toy_crypto [1] [9, 3, 9] 4) (org_id toy_crypto [1]) = Inr ()
     \<and> is_revoked (sign_crl toy_crypto [1] [9, 3, 9] 4) 3"
  using signed_list_verifies [OF toy_crypto_laws, of "[1]" "[9, 3, 9]" 4 3] by simp

section \<open>Signatures\<close>

text \<open>The bytes signed for a change record, a certificate, a revocation list and an enrolment request
  always differ, so a signature made for one purpose cannot serve for another.\<close>

theorem signed_purposes_differ:
  "signing_bytes r \<noteq> cert_signing_bytes c \<and> signing_bytes r \<noteq> crl_signing_bytes l
     \<and> signing_bytes r \<noteq> enrollment_bytes p t n a \<and> cert_signing_bytes c \<noteq> crl_signing_bytes l
     \<and> cert_signing_bytes c \<noteq> enrollment_bytes p t n a \<and> crl_signing_bytes l \<noteq> enrollment_bytes p t n a"
proof -
  have ch: "take 9 (signing_bytes r) = take 9 CHANGE_DOMAIN"
    by (simp add: signing_bytes_def split_beta Let_def CHANGE_DOMAIN_def as_bytes_def)
  have "take 9 CHANGE_DOMAIN \<noteq> take 9 CERT_DOMAIN" "take 9 CHANGE_DOMAIN \<noteq> take 9 CRL_DOMAIN"
    "take 9 CHANGE_DOMAIN \<noteq> take 9 ENROLL_DOMAIN"
    by (simp_all add: CHANGE_DOMAIN_def CERT_DOMAIN_def CRL_DOMAIN_def ENROLL_DOMAIN_def as_bytes_def char_byte_def)
  with ch domains_differ signing_bytes_domain show ?thesis by metis
qed

text \<open>C36: The signature of a record covers every one of its other fields, the author included: a record is
  accepted exactly as the signature, under the key its author's name holds, of its signing bytes, and two
  records have the same signing bytes only if they agree in table, key, column, value, stamp, author and
  kind.  So whoever alters any field of a signed record has to present a signature of other bytes.  Texts
  and raw values are shorter than 4 GB, the range of their length prefix.\<close>

theorem change_record_is_bound:
  assumes "record_fits r" "record_fits s"
  shows "(verify_author C r = Inr () \<longleftrightarrow> cr_sig r \<noteq> [] \<and>
      (\<exists>key. peer_public_key_from_str C (cr_origin r) = Inr key \<and> key_verify C key (signing_bytes r) (cr_sig r)))
    \<and> (signing_bytes r = signing_bytes s \<longleftrightarrow>
        cr_tbl r = cr_tbl s \<and> cr_pk r = cr_pk s \<and> cr_col r = cr_col s \<and> cr_value r = cr_value s
        \<and> cr_hlc r = cr_hlc s \<and> cr_origin r = cr_origin s \<and> cr_kind r = cr_kind s)"
proof
  show "verify_author C r = Inr () \<longleftrightarrow> cr_sig r \<noteq> [] \<and>
      (\<exists>key. peer_public_key_from_str C (cr_origin r) = Inr key \<and> key_verify C key (signing_bytes r) (cr_sig r))"
    by (auto simp: verify_author_def split: sum.splits)
  have "r\<lparr>cr_sig := []\<rparr> = s\<lparr>cr_sig := []\<rparr> \<longleftrightarrow>
      cr_tbl r = cr_tbl s \<and> cr_pk r = cr_pk s \<and> cr_col r = cr_col s \<and> cr_value r = cr_value s
        \<and> cr_hlc r = cr_hlc s \<and> cr_origin r = cr_origin s \<and> cr_kind r = cr_kind s"
    by (cases r; cases s) auto
  moreover have "signing_bytes r = signing_bytes s \<longleftrightarrow> r\<lparr>cr_sig := []\<rparr> = s\<lparr>cr_sig := []\<rparr>"
    using signing_bytes_inject [OF assms] signing_bytes_sig by metis
  ultimately show "signing_bytes r = signing_bytes s \<longleftrightarrow>
        cr_tbl r = cr_tbl s \<and> cr_pk r = cr_pk s \<and> cr_col r = cr_col s \<and> cr_value r = cr_value s
        \<and> cr_hlc r = cr_hlc s \<and> cr_origin r = cr_origin s \<and> cr_kind r = cr_kind s"
    by blast
qed

text \<open>A record of device \<open>[2]\<close> and one that moves its value to another row: the signature of the first does
  not carry over.\<close>

definition sample_signed :: change_record where
  "sample_signed = (let r = \<lparr>cr_tbl = ''t'', cr_pk = ''1'', cr_col = ''c'', cr_value = VInt 5, cr_hlc = Hlc 3 0,
       cr_origin = peer_text toy_crypto (device_peer_id toy_crypto [2]), cr_kind = Cell, cr_sig = []\<rparr>
     in r\<lparr>cr_sig := ed_sign toy_crypto [2] (signing_bytes r)\<rparr>)"

theorem change_record_is_bound_witness:
  "verify_author toy_crypto sample_signed = Inr () \<and> verify_author toy_crypto (sample_signed\<lparr>cr_pk := ''2''\<rparr>) \<noteq> Inr ()"
proof -
  let ?s = "sample_signed\<lparr>cr_pk := ''2''\<rparr>"
  have fit: "record_fits sample_signed" "record_fits ?s"
    by (simp_all add: record_fits_def fits_u32_def sample_signed_def Let_def device_peer_id_def
        toy_crypto_def raw_or_default_def bytes_str_def)
  have sig: "ed_sign toy_crypto sk m = toy_public sk @ m" "key_verify toy_crypto k m x \<longleftrightarrow> x = k @ m" for sk k m x
    by (simp_all add: toy_crypto_def)
  have sgn: "cr_sig sample_signed = toy_public [2] @ signing_bytes sample_signed"
    by (simp only: sample_signed_def Let_def signing_bytes_sig sig(1)) simp
  have key: "peer_public_key_from_str toy_crypto (cr_origin sample_signed) = Inr (toy_public [2])"
    using peer_public_key_device [OF toy_crypto_laws, of "[2]"]
    by (simp add: sample_signed_def Let_def) (simp add: toy_crypto_def)
  have "cr_pk sample_signed = ''1''" by (simp add: sample_signed_def Let_def)
  then have "signing_bytes sample_signed \<noteq> signing_bytes ?s"
    using change_record_is_bound [OF fit, of toy_crypto] by simp
  then show ?thesis
    using change_record_is_bound [OF fit(1,2), of toy_crypto] change_record_is_bound [OF fit(2,1), of toy_crypto] key
    by (simp add: sig(2) sgn)
qed

end
