(* ===== verification/Enroll.thy ===== *)
theory Enroll
  imports RemoteChanges
begin

text \<open>
  \<open>rust/p2p-core/src/enroll.rs\<close>: invite codes, the enrolment request a device builds, what it
  checks before trusting the server's reply, and the stored enrolment with its revocation list.
  The JSON text of an enrolment is an argument.
\<close>

record enroll_request =
  rq_invite_token :: string
  rq_device_name :: string
  rq_platform :: string
  rq_device_pub :: string
  rq_at_ms :: u64
  rq_proof :: string

record org_info =
  oi_org_id :: string
  oi_org_pub :: string
  oi_name :: string
  oi_bootstrap :: "string list"

record enroll_response =
  rs_cert :: device_cert
  rs_crl :: revocation_list
  rs_org :: org_info

record enrollment =
  en_org_id :: string
  en_org_name :: string
  en_cert :: device_cert
  en_crl :: revocation_list
  en_bootstrap :: "string list"

definition META_KEY :: string where "META_KEY = ''enrollment''"

text \<open>Only ASCII letters and digits survive the filter, so the upper case of a character is one byte.\<close>

definition normalize_invite_code :: "string \<Rightarrow> string" where
  "normalize_invite_code raw = List.map ascii_upper (List.filter ascii_alnum raw)"

definition build_enroll_request ::
  "'a crypto_scheme \<Rightarrow> bytes \<Rightarrow> string \<Rightarrow> string \<Rightarrow> string \<Rightarrow> u64 \<Rightarrow> enroll_request" where
  "build_enroll_request C sk invite_token device_name platform now =
     (let token = normalize_invite_code invite_token
      in \<lparr>rq_invite_token = token, rq_device_name = device_name, rq_platform = platform,
          rq_device_pub = hex_encode C (ed_public C sk), rq_at_ms = now,
          rq_proof = hex_encode C (sign_enrollment C sk token device_name now)\<rparr>)"

definition decode_org_pub :: "'a crypto_scheme \<Rightarrow> string \<Rightarrow> bytes result" where
  "decode_org_pub C s =
     (case hex_decode C s of
        None \<Rightarrow> Inl (ECrypto (''bad org public key: '' @ lib_message C (as_bytes s)))
      | Some b \<Rightarrow>
          if length b = 32 then Inr b else Inl (ECrypto ''org public key must be 32 bytes''))"

definition accept :: "'a crypto_scheme \<Rightarrow> enroll_response \<Rightarrow> bytes \<Rightarrow> u64 \<Rightarrow> enrollment result" where
  "accept C resp sk now =
     (case decode_org_pub C (oi_org_pub (rs_org resp)) of
        Inl e \<Rightarrow> Inl e
      | Inr org_pub \<Rightarrow>
          if org_id_from_public C org_pub \<noteq> oi_org_id (rs_org resp)
            then Inl (ERejected ''server's org id does not match its own key'')
          else if device_pub (claims (rs_cert resp)) \<noteq> ed_public C sk
            then Inl (ERejected ''server issued a certificate for a different device key'')
          else (case cert_verify C (rs_cert resp) (oi_org_id (rs_org resp))
                       (Some (device_peer_id C sk)) None now of
                  Inl e \<Rightarrow> Inl e
                | Inr _ \<Rightarrow>
                    (case crl_verify C (rs_crl resp) (oi_org_id (rs_org resp)) of
                       Inl e \<Rightarrow> Inl e
                     | Inr _ \<Rightarrow>
                         Inr \<lparr>en_org_id = oi_org_id (rs_org resp), en_org_name = oi_name (rs_org resp),
                              en_cert = rs_cert resp, en_crl = rs_crl resp,
                              en_bootstrap = oi_bootstrap (rs_org resp)\<rparr>)))"

definition validate :: "'a crypto_scheme \<Rightarrow> enrollment \<Rightarrow> bytes \<Rightarrow> u64 \<Rightarrow> unit result" where
  "validate C en sk now =
     cert_verify C (en_cert en) (en_org_id en) (Some (device_peer_id C sk)) (Some (en_crl en)) now"

definition merge_crl :: "'a crypto_scheme \<Rightarrow> revocation_list \<Rightarrow> enrollment \<Rightarrow> bool \<times> enrollment" where
  "merge_crl C incoming en =
     (if updated_at_ms incoming \<le> updated_at_ms (en_crl en) then (False, en)
      else if crl_verify C incoming (en_org_id en) \<noteq> Inr () then (False, en)
      else (True, en\<lparr>en_crl := incoming\<rparr>))"

definition save_enrollment ::
  "(enrollment \<Rightarrow> string) \<Rightarrow> enrollment \<Rightarrow> 'a replica_file_scheme \<Rightarrow> 'a replica_file_scheme" where
  "save_enrollment to_json en d = set_meta META_KEY (to_json en) d"

definition load_enrollment ::
  "(string \<Rightarrow> enrollment result) \<Rightarrow> 'a replica_file_scheme \<Rightarrow> enrollment option result" where
  "load_enrollment of_json d =
     (case get_meta d META_KEY of
        None \<Rightarrow> Inr None
      | Some raw \<Rightarrow> (case of_json raw of Inl e \<Rightarrow> Inl e | Inr en \<Rightarrow> Inr (Some en)))"

section \<open>Invite codes\<close>

lemma normalize_append [simp]:
  "normalize_invite_code (a @ b) = normalize_invite_code a @ normalize_invite_code b"
  by (simp add: normalize_invite_code_def)

lemma normalize_idem: "normalize_invite_code (normalize_invite_code s) = normalize_invite_code s"
  by (simp add: normalize_invite_code_def filter_map o_def)

lemma normalize_separator: "\<not> ascii_alnum c \<Longrightarrow> normalize_invite_code [c] = []"
  by (simp add: normalize_invite_code_def)

section \<open>Accepting a reply\<close>

lemma accept_ok:
  "accept C resp sk now = Inr en \<longleftrightarrow>
     (\<exists>org_pub. decode_org_pub C (oi_org_pub (rs_org resp)) = Inr org_pub
        \<and> org_id_from_public C org_pub = oi_org_id (rs_org resp))
     \<and> device_pub (claims (rs_cert resp)) = ed_public C sk
     \<and> cert_verify C (rs_cert resp) (oi_org_id (rs_org resp)) (Some (device_peer_id C sk)) None now = Inr ()
     \<and> crl_verify C (rs_crl resp) (oi_org_id (rs_org resp)) = Inr ()
     \<and> en = \<lparr>en_org_id = oi_org_id (rs_org resp), en_org_name = oi_name (rs_org resp),
              en_cert = rs_cert resp, en_crl = rs_crl resp, en_bootstrap = oi_bootstrap (rs_org resp)\<rparr>"
  by (auto simp: accept_def split: sum.splits)

text \<open>Later checks of the stored enrolment differ from the first by the revocation list and the time.\<close>

lemma cert_verify_crl:
  "cert_verify C cert org peer (Some l) now = Inr () \<longleftrightarrow>
     cert_verify C cert org peer None now = Inr () \<and> \<not> is_revoked l (serial (claims cert))"
  by (auto simp: cert_verify_ok)

lemma merge_crl_simps [simp]:
  "en_org_id (snd (merge_crl C l en)) = en_org_id en" "en_cert (snd (merge_crl C l en)) = en_cert en"
  by (simp_all add: merge_crl_def)

lemma merge_crl_newer:
  "updated_at_ms (en_crl en) \<le> updated_at_ms (en_crl (snd (merge_crl C l en)))"
  by (auto simp: merge_crl_def not_le less_imp_le)

end
