(* ===== verification/Protocol.thy ===== *)
theory Protocol
  imports Enroll Opening
begin

text \<open>
  \<open>rust/p2p-core/src/net/proto.rs\<close> and \<open>config.rs\<close>: the messages two devices exchange with their
  size limits, and the configuration of a node.  Addresses are libp2p's; of their structure the code
  uses only the components \<open>/p2p/<id>\<close> and \<open>/p2p-circuit\<close>, and their text is an argument.
\<close>

section \<open>Messages\<close>

definition PROTOCOL_VERSION :: u32 where "PROTOCOL_VERSION = 1"
definition MAX_PUSH_CHANGES :: nat where "MAX_PUSH_CHANGES = 200"
definition MAX_SYNC_CHANGES :: nat where "MAX_SYNC_CHANGES = 500"

definition changes_topic :: "string \<Rightarrow> string" where
  "changes_topic org = ''orgsync/'' @ org @ ''/changes''"

datatype req =
    HelloReq (hello_proto: u32) device_cert revocation_list bool
  | SyncReq vvector u32
  | PushReq "change_record list"

datatype resp =
    HelloResp u32 device_cert revocation_list bool
  | SyncResp "change_record list" bool
  | PushResp u32 u32
  | Denied string

section \<open>Addresses\<close>

datatype address_part = P2p peer_id | P2pCircuit | Transport string

type_synonym multiaddr = "address_part list"

definition split_p2p :: "multiaddr \<Rightarrow> (peer_id \<times> multiaddr) option" where
  "split_p2p addr =
     (if addr = [] then None
      else (case last addr of P2p peer \<Rightarrow> Some (peer, butlast addr) | _ \<Rightarrow> None))"

record node_env = env +
  addr_text :: "multiaddr \<Rightarrow> string"
  addr_parse :: "string \<Rightarrow> multiaddr option"
  dial_error :: "multiaddr \<Rightarrow> string option"             \<comment> \<open>what the transport answers\<close>
  listen_error :: "multiaddr \<Rightarrow> string option"
  subscribe_error :: "string \<Rightarrow> string option"
  on_android :: bool
  tcp_error :: "string option"                           \<comment> \<open>what the parts of the swarm answer when built\<close>
  dns_error :: "string option"
  relay_client_error :: "string option"
  gossip_config_error :: "string option"
  gossipsub_error :: "string option"
  mdns_error :: "string option"
  behaviour_error_text :: "string \<Rightarrow> string"           \<comment> \<open>libp2p's text around an error of ours\<close>
  enrollment_json :: "enrollment \<Rightarrow> string"
  cert_json :: "device_cert \<Rightarrow> string"
  broadcast_encode :: "change_record list \<Rightarrow> bytes option"
  broadcast_decode :: "bytes \<Rightarrow> change_record list option"

section \<open>Configuration\<close>

record node_config =
  cf_listen :: "multiaddr list"
  cf_bootstrap :: "multiaddr list"
  enable_mdns :: bool
  enable_relay_client :: bool
  enable_relay_server :: bool
  kad_server :: bool
  replicate_data :: bool
  sync_interval_ms :: nat
  flush_interval_ms :: nat
  idle_connection_timeout_s :: nat

text \<open>\<open>parse().expect(...)\<close>\<close>

fun expect_addrs :: "'a node_env_scheme \<Rightarrow> string list \<Rightarrow> multiaddr list result" where
  "expect_addrs E [] = Inr []"
| "expect_addrs E (s # ss) =
     (case addr_parse E s of
        None \<Rightarrow> Inl EPanic
      | Some a \<Rightarrow> (case expect_addrs E ss of Inl e \<Rightarrow> Inl e | Inr as \<Rightarrow> Inr (a # as)))"

definition default_config :: "'a node_env_scheme \<Rightarrow> node_config result" where
  "default_config E =
     (case expect_addrs E [''/ip4/0.0.0.0/udp/0/quic-v1'', ''/ip4/0.0.0.0/tcp/0''] of
        Inl e \<Rightarrow> Inl e
      | Inr addrs \<Rightarrow>
          Inr \<lparr>cf_listen = addrs, cf_bootstrap = [], enable_mdns = True, enable_relay_client = True,
               enable_relay_server = False, kad_server = False, replicate_data = True,
               sync_interval_ms = 20000, flush_interval_ms = 750, idle_connection_timeout_s = 60\<rparr>)"

definition seed_server_config :: "'a node_env_scheme \<Rightarrow> nat \<Rightarrow> nat \<Rightarrow> node_config result" where
  "seed_server_config E quic_port tcp_port =
     (case expect_addrs E [''/ip4/0.0.0.0/udp/'' @ show_nat quic_port @ ''/quic-v1'',
                           ''/ip4/0.0.0.0/tcp/'' @ show_nat tcp_port] of
        Inl e \<Rightarrow> Inl e
      | Inr addrs \<Rightarrow>
          (case default_config E of
             Inl e \<Rightarrow> Inl e
           | Inr c \<Rightarrow>
               Inr (c\<lparr>cf_listen := addrs, enable_mdns := False, enable_relay_client := False,
                      enable_relay_server := True, kad_server := True, replicate_data := False,
                      idle_connection_timeout_s := 600\<rparr>)))"

definition with_bootstrap :: "multiaddr list \<Rightarrow> node_config \<Rightarrow> node_config" where
  "with_bootstrap addrs c = c\<lparr>cf_bootstrap := addrs\<rparr>"

end
