(* ===== verification/Behaviour.thy ===== *)
theory Behaviour
  imports Protocol
begin

text \<open>
  \<open>rust/p2p-core/src/net/behaviour.rs\<close> and \<open>build_swarm\<close> of \<open>node.rs\<close>: how the protocols of libp2p
  are set up for a node.  The protocols themselves are libp2p's; what the code decides is which of
  them run, under which names and with which limits, and these choices are the fields of \<open>behaviour\<close>.
  Whether a part can be built is up to the system: its error, if there is one, is a field of the
  environment.
\<close>

definition SYNC_PROTOCOL :: string where "SYNC_PROTOCOL = ''/orgsync/1.0.0''"
definition KAD_PROTOCOL :: string where "KAD_PROTOCOL = ''/orgsync/kad/1.0.0''"
definition IDENTIFY_PROTOCOL :: string where "IDENTIFY_PROTOCOL = ''/orgsync/id/1.0.0''"

text \<open>The package version, \<open>CARGO_PKG_VERSION\<close>.\<close>

definition PKG_VERSION :: string where "PKG_VERSION = ''0.1.0''"

record behaviour =
  bh_peer :: peer_id
  bh_identify :: "string \<times> string"             \<comment> \<open>protocol and agent version\<close>
  bh_kad :: "string \<times> bool \<times> nat"              \<comment> \<open>protocol, server mode, query timeout in seconds\<close>
  bh_gossip_heartbeat_s :: nat
  bh_gossip_strict :: bool
  bh_gossip_max_transmit :: nat
  bh_sync :: "string \<times> nat"                    \<comment> \<open>protocol and request timeout in seconds\<close>
  bh_mdns :: bool
  bh_relay_server :: bool

text \<open>A message is known by its content: whoever publishes the same bytes publishes the same message.\<close>

definition message_id :: "'a crypto_scheme \<Rightarrow> bytes \<Rightarrow> bytes" where
  "message_id C data = take 16 (blake3 C data)"

definition build :: "'a node_env_scheme \<Rightarrow> peer_id \<Rightarrow> node_config \<Rightarrow> behaviour result" where
  "build E peer cfg =
     (case gossip_config_error E of
        Some e \<Rightarrow> Inl (ENetwork (''gossipsub config: '' @ e))
      | None \<Rightarrow>
     (case gossipsub_error E of
        Some e \<Rightarrow> Inl (ENetwork (''gossipsub: '' @ e))
      | None \<Rightarrow>
     (case if enable_mdns cfg then mdns_error E else None of
        Some e \<Rightarrow> Inl (EIo e)
      | None \<Rightarrow>
          Inr \<lparr>bh_peer = peer, bh_identify = (IDENTIFY_PROTOCOL, ''orgsync/'' @ PKG_VERSION),
               bh_kad = (KAD_PROTOCOL, kad_server cfg, 30), bh_gossip_heartbeat_s = 1,
               bh_gossip_strict = True, bh_gossip_max_transmit = 512 * 1024,
               bh_sync = (SYNC_PROTOCOL, 30), bh_mdns = enable_mdns cfg,
               bh_relay_server = enable_relay_server cfg\<rparr>)))"

text \<open>The name resolver is configured explicitly on Android and built from the host elsewhere.\<close>

definition build_swarm :: "'a node_env_scheme \<Rightarrow> bytes \<Rightarrow> node_config \<Rightarrow> (behaviour \<times> nat) result" where
  "build_swarm E sk cfg =
     (case tcp_error E of
        Some e \<Rightarrow> Inl (ENetwork (''tcp transport: '' @ e))
      | None \<Rightarrow>
     (case if on_android E then None else dns_error E of
        Some e \<Rightarrow> Inl (ENetwork (''dns: '' @ e))
      | None \<Rightarrow>
     (case relay_client_error E of
        Some e \<Rightarrow> Inl (ENetwork (''relay client: '' @ e))
      | None \<Rightarrow>
     (case build E (device_peer_id E sk) cfg of
        Inl e \<Rightarrow> Inl (ENetwork (''behaviour: '' @ behaviour_error_text E (error_text e)))
      | Inr b \<Rightarrow> Inr (b, idle_connection_timeout_s cfg)))))"

text \<open>A swarm that was built answers to the device's own PeerId and follows the configuration.\<close>

lemma build_swarm_ok:
  "build_swarm E sk cfg = Inr (b, idle) \<Longrightarrow>
     bh_peer b = device_peer_id E sk \<and> bh_mdns b = enable_mdns cfg \<and> bh_relay_server b = enable_relay_server cfg
     \<and> fst (snd (bh_kad b)) = kad_server cfg \<and> idle = idle_connection_timeout_s cfg"
  by (auto simp: build_swarm_def build_def split: option.splits sum.splits if_splits)

lemma build_swarm_works:
  assumes "tcp_error E = None" "dns_error E = None" "relay_client_error E = None"
    "gossip_config_error E = None" "gossipsub_error E = None" "mdns_error E = None"
  shows "\<exists>b. build_swarm E sk cfg = Inr (b, idle_connection_timeout_s cfg) \<and> bh_peer b = device_peer_id E sk"
  using assms by (simp add: build_swarm_def build_def)

end
