(* ===== verification/Node.thy ===== *)
theory Node
  imports Behaviour
begin

text \<open>
  \<open>rust/p2p-core/src/net/node.rs\<close>: the node runtime, a state machine that one task drives.
  \<open>node\<close> is \<open>Runtime\<close>: the replica, the stored enrolment, the tables of authenticated, greeted and
  refused peers, and \<open>acts\<close>, everything it asked of the network so far, in order.  An event of the
  network, a command and a timer are inputs; \<open>node_step\<close> is one turn of the loop.

  A \<open>HashMap\<close> is iterated in some order; the model takes the order of the keys.  The readings of the
  system clock are those of the replica's clock, in the order the code takes them.
\<close>

section \<open>State\<close>

datatype node_event =
    Started string string
  | Listening string
  | RelayReserved string
  | PeerConnected string string string string
  | PeerDisconnected string
  | PeerRejected string string
  | Synced string u32 "string list"
  | LocalChanges u32
  | Stopped
  | NodeError string

datatype action =
    Emit node_event
  | SendReq peer_id req
  | SendResp peer_id resp
  | Publish string bytes
  | Disconnect peer_id
  | Dial multiaddr
  | ListenOn multiaddr
  | KadAdd peer_id multiaddr
  | Subscribe string

record authed_peer =
  ap_user_id :: string
  ap_display_name :: string
  ap_role :: role
  ap_since_ms :: u64
  ap_replicates :: bool

record node =
  nd_db :: db
  nd_enrollment :: enrollment
  nd_cfg :: node_config
  nd_self :: peer_id
  authed :: "(peer_id \<times> authed_peer) list"
  greeted :: "peer_id list"
  readonly_origins :: "string list"
  deny :: "(peer_id \<times> string) list"
  listen_addrs :: "multiaddr list"
  external_addrs :: "multiaddr list"
  acts :: "action list"

definition act :: "action \<Rightarrow> node \<Rightarrow> node" where
  "act a N = N\<lparr>acts := acts N @ [a]\<rparr>"

abbreviation emit :: "node_event \<Rightarrow> node \<Rightarrow> node" where
  "emit ev \<equiv> act (Emit ev)"

definition node_now :: "'a env_scheme \<Rightarrow> node \<Rightarrow> u64 \<times> node" where
  "node_now E N =
     (let (t, c) = now_ms (wall E) (clock (nd_db N)) in (t, N\<lparr>nd_db := (nd_db N)\<lparr>clock := c\<rparr>\<rparr>))"

definition is_authed :: "node \<Rightarrow> peer_id \<Rightarrow> bool" where
  "is_authed N peer \<longleftrightarrow> tbl_get (authed N) peer \<noteq> None"

text \<open>\<open>db_readonly_origins\<close> and the state \<open>Node::spawn\<close> starts from.\<close>

definition db_readonly_origins :: "'a replica_file_scheme \<Rightarrow> string list" where
  "db_readonly_origins d = devices_with_role d (role_as_str ReadOnly)"

definition spawn ::
  "'a node_env_scheme \<Rightarrow> node_config \<Rightarrow> bytes \<Rightarrow> enrollment \<Rightarrow> db \<Rightarrow> u64 \<Rightarrow> node result" where
  "spawn E cfg sk enr d now =
     (case validate E enr sk now of
        Inl e \<Rightarrow> Inl e
      | Inr _ \<Rightarrow>
          (case build_swarm E sk cfg of
             Inl e \<Rightarrow> Inl e
           | Inr (swarm, _) \<Rightarrow>
               Inr \<lparr>nd_db = d, nd_enrollment = enr, nd_cfg = cfg, nd_self = bh_peer swarm, authed = [],
                    greeted = [], readonly_origins = db_readonly_origins d, deny = [], listen_addrs = [],
                    external_addrs = [], acts = []\<rparr>))"

lemma spawn_ok:
  "spawn E cfg sk enr d now = Inr N \<longleftrightarrow>
     validate E enr sk now = Inr () \<and> (\<exists>swarm idle. build_swarm E sk cfg = Inr (swarm, idle))
     \<and> N = \<lparr>nd_db = d, nd_enrollment = enr, nd_cfg = cfg, nd_self = device_peer_id E sk, authed = [],
            greeted = [], readonly_origins = db_readonly_origins d, deny = [], listen_addrs = [],
            external_addrs = [], acts = []\<rparr>"
  by (auto simp: spawn_def build_swarm_ok split: sum.splits dest: build_swarm_ok)

section \<open>Starting\<close>

fun add_bootstrap :: "'a node_env_scheme \<Rightarrow> string list \<Rightarrow> multiaddr list \<Rightarrow> multiaddr list" where
  "add_bootstrap E [] addrs = addrs"
| "add_bootstrap E (raw # raws) addrs =
     (case addr_parse E raw of
        None \<Rightarrow> add_bootstrap E raws addrs
      | Some a \<Rightarrow> add_bootstrap E raws (if a \<in> set addrs then addrs else addrs @ [a]))"

definition bootstrap_addrs :: "'a node_env_scheme \<Rightarrow> node \<Rightarrow> multiaddr list" where
  "bootstrap_addrs E N = add_bootstrap E (en_bootstrap (nd_enrollment N)) (cf_bootstrap (nd_cfg N))"

definition dial_bootstrap :: "'a node_env_scheme \<Rightarrow> multiaddr \<Rightarrow> node \<Rightarrow> node" where
  "dial_bootstrap E addr N =
     (case split_p2p addr of
        None \<Rightarrow> N
      | Some (peer, base) \<Rightarrow>
          (let N = act (Dial addr) (act (KadAdd peer base) N)
           in if enable_relay_client (nd_cfg N) then act (ListenOn (addr @ [P2pCircuit])) N else N))"

fun listen_all :: "'a node_env_scheme \<Rightarrow> multiaddr list \<Rightarrow> node \<Rightarrow> unit result \<times> node" where
  "listen_all E [] N = (Inr (), N)"
| "listen_all E (a # as) N =
     (let N = act (ListenOn a) N
      in (case listen_error E a of
            Some e \<Rightarrow> (Inl (ENetwork (''listen on '' @ addr_text E a @ '': '' @ e)), N)
          | None \<Rightarrow> listen_all E as N))"

definition start_listening :: "'a node_env_scheme \<Rightarrow> node \<Rightarrow> unit result \<times> node" where
  "start_listening E N =
     (case listen_all E (cf_listen (nd_cfg N)) N of
        (Inl e, N) \<Rightarrow> (Inl e, N)
      | (Inr _, N) \<Rightarrow>
          (let topic = changes_topic (en_org_id (nd_enrollment N)); N = act (Subscribe topic) N
           in (case subscribe_error E topic of
                 Some e \<Rightarrow> (Inl (ENetwork (''subscribe: '' @ e)), N)
               | None \<Rightarrow> (Inr (), fold (dial_bootstrap E) (bootstrap_addrs E N) N))))"

section \<open>Replication\<close>

definition broadcast_chunk :: "'a node_env_scheme \<Rightarrow> peer_id list \<Rightarrow> change_record list \<Rightarrow> node \<Rightarrow> node" where
  "broadcast_chunk E targets chunk N =
     (let N = fold (\<lambda>peer. act (SendReq peer (PushReq chunk))) targets N
      in (case broadcast_encode E chunk of
            None \<Rightarrow> N
          | Some bytes \<Rightarrow> act (Publish (changes_topic (en_org_id (nd_enrollment N))) bytes) N))"

definition replicating_peers :: "node \<Rightarrow> peer_id list" where
  "replicating_peers N = List.map fst (List.filter (\<lambda>(p, i). ap_replicates i) (authed N))"

definition broadcast :: "'a node_env_scheme \<Rightarrow> change_record list \<Rightarrow> node \<Rightarrow> node" where
  "broadcast E chs N = fold (broadcast_chunk E (replicating_peers N)) (chunks MAX_PUSH_CHANGES chs) N"

definition flush_and_push :: "'a node_env_scheme \<Rightarrow> node \<Rightarrow> node" where
  "flush_and_push E N =
     (if \<not> replicate_data (nd_cfg N) then N
      else (case flush_local E (nd_db N) of
              (Inl e, d) \<Rightarrow> emit (NodeError (''flush: '' @ error_text e)) (N\<lparr>nd_db := d\<rparr>)
            | (Inr _, d) \<Rightarrow>
                (let N = N\<lparr>nd_db := d\<rparr>
                 in (case unbroadcast_local d MAX_SYNC_CHANGES of
                       Inl e \<Rightarrow> emit (NodeError (''read outbox: '' @ error_text e)) N
                     | Inr (chs, high) \<Rightarrow>
                         if chs = [] then N
                         else (let N = broadcast E chs (emit (LocalChanges (word_of_nat (length chs))) N)
                               in N\<lparr>nd_db := mark_broadcast high (nd_db N)\<rparr>)))))"

definition request_sync :: "'a env_scheme \<Rightarrow> peer_id \<Rightarrow> node \<Rightarrow> node" where
  "request_sync E peer N =
     (if \<not> replicate_data (nd_cfg N) then N
      else if \<not> (case tbl_get (authed N) peer of None \<Rightarrow> False | Some i \<Rightarrow> ap_replicates i) then N
      else (case version_vector (nd_db N) of
              Inr vv \<Rightarrow> act (SendReq peer (SyncReq vv (word_of_nat MAX_SYNC_CHANGES))) N
            | Inl e \<Rightarrow> emit (NodeError (''version vector: '' @ error_text e)) N))"

definition request_sync_from_all :: "'a env_scheme \<Rightarrow> node \<Rightarrow> node" where
  "request_sync_from_all E N =
     (if \<not> replicate_data (nd_cfg N) then N
      else fold (request_sync E) (List.map fst (authed N)) N)"

text \<open>\<open>Runtime::apply\<close>: what a read-only device authored is dropped, whoever hands it over.\<close>

definition node_apply :: "'a env_scheme \<Rightarrow> peer_id \<Rightarrow> change_record list \<Rightarrow> node \<Rightarrow> (u32 \<times> u32) \<times> node" where
  "node_apply E peer chs N =
     (let kept = (if \<exists>c\<in>set chs. cr_origin c \<in> set (readonly_origins N)
                  then List.filter (\<lambda>c. cr_origin c \<notin> set (readonly_origins N)) chs else chs);
          (out, d) = apply_remote E kept (nd_db N);
          N = N\<lparr>nd_db := d\<rparr>;
          N = (if 0 < applied out then
                 emit (Synced (peer_text E peer) (word_of_nat (applied out)) (tables_touched out)) N
               else N)
      in ((word_of_nat (applied out), word_of_nat (rejected out)), N))"

section \<open>The trust gate\<close>

definition remember_role :: "'a env_scheme \<Rightarrow> peer_id \<Rightarrow> role \<Rightarrow> string list \<Rightarrow> string list" where
  "remember_role E peer r origins =
     (if may_write r then List.filter (\<lambda>v. v \<noteq> peer_text E peer) origins
      else insort_insert (peer_text E peer) origins)"

definition accept_peer ::
  "'a node_env_scheme \<Rightarrow> peer_id \<Rightarrow> device_cert \<Rightarrow> revocation_list \<Rightarrow> bool \<Rightarrow> node \<Rightarrow> unit result \<times> node" where
  "accept_peer E peer cert crl replicates N =
     (let (adopted, enr) = merge_crl E crl (nd_enrollment N);
          N = N\<lparr>nd_enrollment := enr\<rparr>;
          N = (if adopted then N\<lparr>nd_db := save_enrollment (enrollment_json E) enr (nd_db N)\<rparr> else N);
          (t, N) = node_now E N
      in (case cert_verify E cert (en_org_id enr) (Some peer) (Some (en_crl enr)) t of
            Inl e \<Rightarrow> (Inl e, N)
          | Inr _ \<Rightarrow>
              (let c = claims cert;
                   (since, N) = node_now E N;
                   info = \<lparr>ap_user_id = user_id c, ap_display_name = display_name c,
                           ap_role = claim_role c, ap_since_ms = since, ap_replicates = replicates\<rparr>;
                   newly = \<not> is_authed N peer;
                   N = N\<lparr>readonly_origins := remember_role E peer (claim_role c) (readonly_origins N)\<rparr>;
                   (seen, N) = node_now E N;
                   N = N\<lparr>nd_db := record_peer (peer_text E peer) (user_id c) (display_name c)
                                    (role_as_str (claim_role c)) (serial c) (cert_json E cert) seen (nd_db N)\<rparr>;
                   N = (if newly then
                          emit (PeerConnected (peer_text E peer) (user_id c) (display_name c)
                                  (role_as_str (claim_role c))) N
                        else N)
               in (Inr (), N\<lparr>authed := tbl_put peer info (authed N)\<rparr>))))"

definition refuse :: "peer_id \<Rightarrow> string \<Rightarrow> node \<Rightarrow> resp \<times> node" where
  "refuse peer reason N = (Denied reason, N\<lparr>deny := tbl_put peer reason (deny N)\<rparr>)"

definition unsupported :: "u32 \<Rightarrow> string" where
  "unsupported proto = ''protocol version '' @ show_nat (unat proto) @ '' is not supported''"

definition our_hello :: "node \<Rightarrow> u32 \<times> device_cert \<times> revocation_list \<times> bool" where
  "our_hello N = (PROTOCOL_VERSION, en_cert (nd_enrollment N), en_crl (nd_enrollment N),
     replicate_data (nd_cfg N))"

definition hello_resp :: "node \<Rightarrow> resp" where
  "hello_resp N = (let (v, cert, crl, rep) = our_hello N in HelloResp v cert crl rep)"

definition hello_req :: "node \<Rightarrow> req" where
  "hello_req N = (let (v, cert, crl, rep) = our_hello N in HelloReq v cert crl rep)"

section \<open>Requests and responses\<close>

fun answer :: "'a node_env_scheme \<Rightarrow> peer_id \<Rightarrow> req \<Rightarrow> node \<Rightarrow> resp \<times> node" where
  "answer E peer (HelloReq proto cert crl replicates) N =
     (if proto \<noteq> PROTOCOL_VERSION then refuse peer (unsupported proto) N
      else (case accept_peer E peer cert crl replicates N of
              (Inr _, N) \<Rightarrow> (hello_resp N, N)
            | (Inl e, N) \<Rightarrow> refuse peer (error_text e) N))"
| "answer E peer (SyncReq vv limit) N =
     (if \<not> is_authed N peer then (Denied ''say hello first'', N)
      else if \<not> replicate_data (nd_cfg N) then (SyncResp [] False, N)
      else (let limit = min (unat limit) MAX_SYNC_CHANGES
            in (case changes_since (nd_db N) vv limit of
                  Inr chs \<Rightarrow> (SyncResp chs (length chs = limit), N)
                | Inl e \<Rightarrow> (SyncResp [] False, N))))"
| "answer E peer (PushReq chs) N =
     (if \<not> is_authed N peer then (Denied ''say hello first'', N)
      else if \<not> replicate_data (nd_cfg N) then (PushResp 0 0, N)
      else (case node_apply E peer chs N of ((got, bad), N) \<Rightarrow> (PushResp got bad, N)))"

definition on_request :: "'a node_env_scheme \<Rightarrow> peer_id \<Rightarrow> req \<Rightarrow> node \<Rightarrow> node" where
  "on_request E peer r N = (case answer E peer r N of (resp, N) \<Rightarrow> act (SendResp peer resp) N)"

definition reject_peer :: "'a env_scheme \<Rightarrow> peer_id \<Rightarrow> string \<Rightarrow> node \<Rightarrow> node" where
  "reject_peer E peer reason N = act (Disconnect peer) (emit (PeerRejected (peer_text E peer) reason) N)"

fun on_response :: "'a node_env_scheme \<Rightarrow> peer_id \<Rightarrow> resp \<Rightarrow> node \<Rightarrow> node" where
  "on_response E peer (HelloResp proto cert crl replicates) N =
     (if proto \<noteq> PROTOCOL_VERSION then reject_peer E peer (unsupported proto) N
      else (case accept_peer E peer cert crl replicates N of
              (Inr _, N) \<Rightarrow> request_sync E peer N
            | (Inl e, N) \<Rightarrow> reject_peer E peer (error_text e) N))"
| "on_response E peer (SyncResp chs has_more) N =
     (let N = (if chs \<noteq> [] then snd (node_apply E peer chs N) else N)
      in if has_more then request_sync E peer N else N)"
| "on_response E peer (PushResp got bad) N = N"
| "on_response E peer (Denied reason) N = reject_peer E peer reason N"

definition on_response_sent :: "'a env_scheme \<Rightarrow> peer_id \<Rightarrow> node \<Rightarrow> node" where
  "on_response_sent E peer N =
     (case tbl_get (deny N) peer of
        None \<Rightarrow> N
      | Some reason \<Rightarrow> reject_peer E peer reason (N\<lparr>deny := tbl_del peer (deny N)\<rparr>))"

definition on_gossip :: "'a node_env_scheme \<Rightarrow> peer_id \<Rightarrow> bytes \<Rightarrow> node \<Rightarrow> node" where
  "on_gossip E source data N =
     (if \<not> is_authed N source then N
      else if \<not> replicate_data (nd_cfg N) then N
      else (case broadcast_decode E data of
              None \<Rightarrow> N | Some chs \<Rightarrow> snd (node_apply E source chs N)))"

section \<open>Events and commands\<close>

datatype swarm_event =
    NewListenAddr multiaddr
  | ExternalAddrConfirmed multiaddr
  | ConnectionEstablished peer_id
  | ConnectionClosed peer_id nat                     \<comment> \<open>connections to the peer that are left\<close>
  | Request peer_id req
  | Response peer_id resp
  | ResponseSent peer_id
  | RequestFailed peer_id
  | Gossip peer_id bytes
  | Discovered "(peer_id \<times> multiaddr \<times> bool) list"  \<comment> \<open>with whether it is connected\<close>
  | Identified peer_id "multiaddr list"

fun on_discovered :: "(peer_id \<times> multiaddr \<times> bool) list \<Rightarrow> node \<Rightarrow> node" where
  "on_discovered [] N = N"
| "on_discovered ((peer, addr, connected) # ps) N =
     (let N = act (KadAdd peer addr) N
      in on_discovered ps (if connected then N else act (Dial addr) N))"

fun on_swarm_event :: "'a node_env_scheme \<Rightarrow> swarm_event \<Rightarrow> node \<Rightarrow> node" where
  "on_swarm_event E (NewListenAddr addr) N =
     (let full = addr_text E (addr @ [P2p (nd_self N)]);
          N = emit (if P2pCircuit \<in> set addr then RelayReserved full else Listening full) N
      in if addr \<in> set (listen_addrs N) then N else N\<lparr>listen_addrs := listen_addrs N @ [addr]\<rparr>)"
| "on_swarm_event E (ExternalAddrConfirmed addr) N =
     (if addr \<in> set (external_addrs N) then N else N\<lparr>external_addrs := external_addrs N @ [addr]\<rparr>)"
| "on_swarm_event E (ConnectionEstablished peer) N =
     (if peer \<in> set (greeted N) then N
      else act (SendReq peer (hello_req N)) (N\<lparr>greeted := insort_insert peer (greeted N)\<rparr>))"
| "on_swarm_event E (ConnectionClosed peer left) N =
     (if left \<noteq> 0 then N
      else (let was = is_authed N peer;
                N = N\<lparr>greeted := List.filter (\<lambda>p. p \<noteq> peer) (greeted N), authed := tbl_del peer (authed N)\<rparr>
            in if was then emit (PeerDisconnected (peer_text E peer)) N else N))"
| "on_swarm_event E (Request peer r) N = on_request E peer r N"
| "on_swarm_event E (Response peer r) N = on_response E peer r N"
| "on_swarm_event E (ResponseSent peer) N = on_response_sent E peer N"
| "on_swarm_event E (RequestFailed peer) N = N"
| "on_swarm_event E (Gossip source data) N = on_gossip E source data N"
| "on_swarm_event E (Discovered ps) N = on_discovered ps N"
| "on_swarm_event E (Identified peer addrs) N = fold (\<lambda>a. act (KadAdd peer a)) addrs N"

datatype command = LocalChanged | SyncNow | DialAddr multiaddr | Status | Shutdown

fun on_command :: "'a node_env_scheme \<Rightarrow> command \<Rightarrow> node \<Rightarrow> node" where
  "on_command E LocalChanged N = flush_and_push E N"
| "on_command E SyncNow N = request_sync_from_all E N"
| "on_command E (DialAddr addr) N =
     (let N = act (Dial addr) N
      in (case dial_error E addr of
            None \<Rightarrow> N | Some e \<Rightarrow> emit (NodeError (''dial '' @ addr_text E addr @ '': '' @ e)) N))"
| "on_command E Status N = N"
| "on_command E Shutdown N = N"

record peer_summary =
  ps_peer_id :: string
  ps_user_id :: string
  ps_display_name :: string
  ps_role :: string
  ps_since_ms :: u64

record node_status =
  nt_peer_id :: string
  nt_org_id :: string
  nt_org_name :: string
  nt_display_name :: string
  nt_listen_addrs :: "string list"
  nt_external_addrs :: "string list"
  nt_connections :: u32
  nt_peers :: "peer_summary list"
  nt_changes :: nat
  nt_known_devices :: nat
  nt_cert_expires_at_ms :: u64

definition current_status :: "'a node_env_scheme \<Rightarrow> nat \<Rightarrow> node \<Rightarrow> node_status" where
  "current_status E connected N =
     (let c = claims (en_cert (nd_enrollment N)); st = stats (nd_db N)
      in \<lparr>nt_peer_id = peer_text E (nd_self N), nt_org_id = en_org_id (nd_enrollment N),
          nt_org_name = en_org_name (nd_enrollment N), nt_display_name = display_name c,
          nt_listen_addrs = List.map (addr_text E) (listen_addrs N),
          nt_external_addrs = List.map (addr_text E) (external_addrs N), nt_connections = word_of_nat connected,
          nt_peers = List.map (\<lambda>(p, i). \<lparr>ps_peer_id = peer_text E p, ps_user_id = ap_user_id i,
              ps_display_name = ap_display_name i, ps_role = role_as_str (ap_role i),
              ps_since_ms = ap_since_ms i\<rparr>) (authed N),
          nt_changes = st_changes st, nt_known_devices = st_known_devices st,
          nt_cert_expires_at_ms = expires_at_ms c\<rparr>)"

section \<open>The loop\<close>

datatype input = Swarm swarm_event | Cmd command | FlushTick | SyncTick

fun node_step :: "'a node_env_scheme \<Rightarrow> input \<Rightarrow> node \<Rightarrow> node" where
  "node_step E (Swarm ev) N = on_swarm_event E ev N"
| "node_step E (Cmd c) N = on_command E c N"
| "node_step E FlushTick N = flush_and_push E N"
| "node_step E SyncTick N = request_sync_from_all E N"

text \<open>The turns of the loop until the node is shut down or its handle is gone.\<close>

fun node_loop :: "'a node_env_scheme \<Rightarrow> input list \<Rightarrow> node \<Rightarrow> node" where
  "node_loop E [] N = emit Stopped N"
| "node_loop E (i # is) N =
     (if i = Cmd Shutdown then emit Stopped N else node_loop E is (node_step E i N))"

definition node_run :: "'a node_env_scheme \<Rightarrow> input list \<Rightarrow> node \<Rightarrow> node" where
  "node_run E is N =
     (case start_listening E N of
        (Inl e, N) \<Rightarrow> emit (NodeError (error_text e)) N
      | (Inr _, N) \<Rightarrow>
          node_loop E is (emit (Started (peer_text E (nd_self N)) (en_org_id (nd_enrollment N))) N))"

end
