(* ===== verification/Gate.thy ===== *)
theory Gate
  imports Node Additions
begin

text \<open>
  Lemmas on the node: what each handler leaves alone, the trust-gate invariant \<open>gate_ok\<close>, the rows a
  step can add to the log, and the chunks of a broadcast.
\<close>

section \<open>Frames\<close>

lemma act_fields [simp]:
  "nd_db (act a N) = nd_db N" "nd_enrollment (act a N) = nd_enrollment N" "nd_cfg (act a N) = nd_cfg N"
  "nd_self (act a N) = nd_self N" "authed (act a N) = authed N" "greeted (act a N) = greeted N"
  "readonly_origins (act a N) = readonly_origins N" "deny (act a N) = deny N"
  "listen_addrs (act a N) = listen_addrs N" "external_addrs (act a N) = external_addrs N"
  "acts (act a N) = acts N @ [a]" "is_authed (act a N) p = is_authed N p"
  by (simp_all add: act_def is_authed_def)

lemma node_now_eq:
  "node_now E N = (wall E (reads (clock (nd_db N))),
     N\<lparr>nd_db := (nd_db N)\<lparr>clock := (clock (nd_db N))\<lparr>reads := Suc (reads (clock (nd_db N)))\<rparr>\<rparr>\<rparr>)"
  by (simp add: node_now_def now_ms_def Let_def)

text \<open>What a handler may change besides the replica and the actions.\<close>

definition same_peers :: "node \<Rightarrow> node \<Rightarrow> bool" where
  "same_peers N M \<longleftrightarrow> authed M = authed N \<and> greeted M = greeted N \<and> deny M = deny N
     \<and> readonly_origins M = readonly_origins N \<and> nd_enrollment M = nd_enrollment N
     \<and> nd_cfg M = nd_cfg N \<and> nd_self M = nd_self N"

lemma same_peers_refl [simp]: "same_peers N N"
  by (simp add: same_peers_def)

lemma same_peers_trans: "same_peers A B \<Longrightarrow> same_peers B C \<Longrightarrow> same_peers A C"
  by (simp add: same_peers_def)

lemma same_peers_act [simp]: "same_peers N (act a M) = same_peers N M"
  by (simp add: same_peers_def)

lemma same_peers_act_left [simp]: "same_peers (act a N) M = same_peers N M"
  by (simp add: same_peers_def)

lemma same_peers_db [simp]: "same_peers N (M\<lparr>nd_db := d\<rparr>) = same_peers N M"
  by (simp add: same_peers_def)

lemma same_peers_fold: "(\<And>x M. same_peers M (f x M)) \<Longrightarrow> same_peers N (fold f xs N)"
  by (induction xs arbitrary: N) (simp, metis fold_simps(2) same_peers_trans)

lemma fold_act: "fold (\<lambda>x. act (f x)) xs N = N\<lparr>acts := acts N @ List.map f xs\<rparr>"
  by (induction xs arbitrary: N) (simp_all add: act_def)

lemma same_peers_broadcast [simp]: "same_peers N (broadcast E chs N)"
  unfolding broadcast_def
  by (rule same_peers_fold)
     (simp add: broadcast_chunk_def fold_act same_peers_def Let_def split: option.split)

lemma same_peers_flush_and_push [simp]: "same_peers N (flush_and_push E N)"
proof -
  have "same_peers N ((broadcast E chs (act a (N\<lparr>nd_db := d\<rparr>)))\<lparr>nd_db := d'\<rparr>)" for chs a d d'
    using same_peers_broadcast [of "act a (N\<lparr>nd_db := d\<rparr>)" E chs]
    by (simp add: same_peers_def)
  then show ?thesis
    by (simp add: flush_and_push_def Let_def split: prod.split sum.split)
qed

lemma same_peers_request_sync [simp]: "same_peers N (request_sync E p N)"
  by (simp add: request_sync_def split: sum.split)

lemma same_peers_request_all [simp]: "same_peers N (request_sync_from_all E N)"
  unfolding request_sync_from_all_def using same_peers_fold [of "request_sync E"] by simp

lemma same_peers_node_apply [simp]: "same_peers N (snd (node_apply E p chs N))"
  by (simp add: node_apply_def Let_def split: prod.split)

lemma same_peers_discovered: "same_peers N (on_discovered ps N)"
  by (induction ps N rule: on_discovered.induct) (auto simp: Let_def intro: same_peers_trans)

section \<open>Relations every step respects\<close>

text \<open>
  A reflexive and transitive relation that contains what the handlers do to the peers, one clause per
  kind of change, contains every turn of the loop.  It is interpreted on the trust-gate invariant below
  and on the node's own membership.
\<close>

locale node_relation =
  fixes E :: "'a node_env_scheme"
    and R :: "node \<Rightarrow> node \<Rightarrow> bool"
  assumes related_trans: "R A B \<Longrightarrow> R B C \<Longrightarrow> R A C"
    and related_same: "same_peers N M \<Longrightarrow> R N M"
    and related_accept: "R N (snd (accept_peer E p cert crl rep N))"
    and related_deny: "R N (N\<lparr>deny := x\<rparr>)"
    and related_greeted: "R N (N\<lparr>greeted := g\<rparr>)"
    and related_closed: "R N (N\<lparr>authed := tbl_del p (authed N)\<rparr>)"
begin

lemma related_act: "R N M \<Longrightarrow> R N (act a M)"
  by (rule related_trans [of N M]) (simp_all add: related_same)

lemma related_refl: "R N N"
  by (simp add: related_same)

lemma answer_related: "R N (snd (answer E p r N))"
proof (cases r)
  case (HelloReq proto cert crl rep)
  obtain res M where acc: "accept_peer E p cert crl rep N = (res, M)" by fastforce
  have "R N M" using related_accept [of N p cert crl rep] acc by simp
  with HelloReq acc show ?thesis
    by (auto simp: refuse_def related_refl related_deny split: sum.split intro: related_trans)
next
  case (SyncReq vv lim)
  then show ?thesis by (auto simp: Let_def related_refl split: sum.split)
next
  case (PushReq chs)
  then show ?thesis using related_same [OF same_peers_node_apply, of N E p chs]
    by (auto simp: related_refl split: prod.split)
qed

lemma response_related: "R N (on_response E p r N)"
proof (cases r)
  case (HelloResp proto cert crl rep)
  obtain res M where acc: "accept_peer E p cert crl rep N = (res, M)" by fastforce
  have "R N M" using related_accept [of N p cert crl rep] acc by simp
  moreover have "R M (request_sync E p M)" by (rule related_same) simp
  ultimately show ?thesis
    using HelloResp acc by (auto simp: reject_peer_def split: sum.split intro: related_act related_refl related_trans)
next
  case (SyncResp chs more)
  let ?M = "if chs \<noteq> [] then snd (node_apply E p chs N) else N"
  have "R N ?M" by (simp add: related_same)
  moreover have "R N (request_sync E p ?M)"
    by (rule related_trans [OF \<open>R N ?M\<close>], rule related_same) (rule same_peers_request_sync)
  moreover have "on_response E p r N = (if more then request_sync E p ?M else ?M)"
    by (simp add: SyncResp Let_def)
  ultimately show ?thesis by (cases more) (simp_all del: on_response.simps)
qed (simp_all add: reject_peer_def related_act related_refl)

lemma swarm_related: "R N (on_swarm_event E ev N)"
proof (cases ev)
  case (ConnectionEstablished p)
  then show ?thesis
    using related_act [OF related_greeted, of N] by (simp add: related_refl)
next
  case (ConnectionClosed p left)
  let ?M = "N\<lparr>greeted := List.filter (\<lambda>q. q \<noteq> p) (greeted N)\<rparr>"
  have "R ?M (?M\<lparr>authed := tbl_del p (authed ?M)\<rparr>)" by (rule related_closed)
  then have "R N (?M\<lparr>authed := tbl_del p (authed ?M)\<rparr>)" by (rule related_trans [OF related_greeted])
  then have "R N (N\<lparr>greeted := List.filter (\<lambda>q. q \<noteq> p) (greeted N),
      authed := tbl_del p (authed N)\<rparr>)" by simp
  with ConnectionClosed show ?thesis by (simp add: Let_def related_act related_refl)
next
  case (Request p r)
  then show ?thesis
    using answer_related [of N p r] by (cases "answer E p r N") (simp add: on_request_def related_act)
next
  case (Response p r)
  then show ?thesis using response_related by (simp del: on_response.simps)
next
  case (ResponseSent p)
  then show ?thesis
    by (auto simp: on_response_sent_def reject_peer_def related_refl related_deny
        intro!: related_act split: option.split)
next
  case (Gossip p data)
  have "same_peers N (on_gossip E p data N)" by (simp add: on_gossip_def split: option.split)
  then have "R N (on_gossip E p data N)" by (rule related_same)
  with Gossip show ?thesis by simp
next
  case (Discovered ps)
  then show ?thesis by (simp add: related_same same_peers_discovered)
next
  case (Identified p addrs)
  have "same_peers N (fold (\<lambda>a. act (KadAdd p a)) addrs N)" by (rule same_peers_fold) simp
  then have "R N (fold (\<lambda>a. act (KadAdd p a)) addrs N)" by (rule related_same)
  with Identified show ?thesis by simp
qed (simp_all add: Let_def related_same same_peers_def)

lemma step: "R N (node_step E i N)"
proof (cases i)
  case (Cmd c)
  then show ?thesis
    by (cases c) (auto simp: Let_def related_refl related_same intro!: related_act split: option.split)
qed (simp_all add: swarm_related related_same)

end

section \<open>The trust gate\<close>

text \<open>Every authenticated peer has shown a certificate of the pinned organisation for its own key.\<close>

definition vouched :: "'a crypto_scheme \<Rightarrow> string \<Rightarrow> peer_id \<Rightarrow> authed_peer \<Rightarrow> bool" where
  "vouched C org p i \<longleftrightarrow>
     (\<exists>cert crl t. cert_verify C cert org (Some p) (Some crl) t = Inr ()
        \<and> ap_user_id i = user_id (claims cert) \<and> ap_role i = claim_role (claims cert))"

definition gate_ok :: "'a env_scheme \<Rightarrow> string \<Rightarrow> node \<Rightarrow> bool" where
  "gate_ok E org N \<longleftrightarrow> en_org_id (nd_enrollment N) = org
     \<and> (\<forall>p i. tbl_get (authed N) p = Some i \<longrightarrow> vouched E org p i
          \<and> (ap_role i = ReadOnly \<longrightarrow> peer_text E p \<in> set (readonly_origins N)))"

lemma gate_ok_same: "same_peers N M \<Longrightarrow> gate_ok E org M = gate_ok E org N"
  by (simp add: gate_ok_def same_peers_def)

lemma accept_peer_refused:
  assumes "accept_peer E p cert crl rep N = (Inl e, M)"
  shows "authed M = authed N" "readonly_origins M = readonly_origins N"
    "nd_enrollment M = snd (merge_crl E crl (nd_enrollment N))"
  using assms
  by (auto simp: accept_peer_def Let_def node_now_eq split_beta split: sum.splits if_splits)

lemma accept_peer_accepted:
  assumes "accept_peer E p cert crl rep N = (Inr u, M)"
  shows "\<exists>t. cert_verify E cert (en_org_id (nd_enrollment N)) (Some p) (Some (en_crl (nd_enrollment M))) t = Inr ()"
    "nd_enrollment M = snd (merge_crl E crl (nd_enrollment N))"
    "readonly_origins M = remember_role E p (claim_role (claims cert)) (readonly_origins N)"
    "\<exists>since. authed M = tbl_put p \<lparr>ap_user_id = user_id (claims cert),
       ap_display_name = display_name (claims cert), ap_role = claim_role (claims cert),
       ap_since_ms = since, ap_replicates = rep\<rparr> (authed N)"
  using assms merge_crl_simps(1) [of E crl "nd_enrollment N"]
  by (cases "fst (merge_crl E crl (nd_enrollment N))"; cases "is_authed N p";
      auto simp: accept_peer_def Let_def node_now_eq split_beta is_authed_def split: sum.splits)+

lemma accept_peer_frame:
  "greeted (snd (accept_peer E p cert crl rep N)) = greeted N"
  "deny (snd (accept_peer E p cert crl rep N)) = deny N"
  "nd_cfg (snd (accept_peer E p cert crl rep N)) = nd_cfg N"
  "nd_self (snd (accept_peer E p cert crl rep N)) = nd_self N"
  by (auto simp: accept_peer_def Let_def node_now_eq split_beta split: sum.split)

lemma accept_peer_db:
  "changes (nd_db (snd (accept_peer E p cert crl rep N))) = changes (nd_db N)"
  "device_id (nd_db (snd (accept_peer E p cert crl rep N))) = device_id (nd_db N)"
  "log_ok (nd_db (snd (accept_peer E p cert crl rep N))) = log_ok (nd_db N)"
  by (auto simp: accept_peer_def Let_def node_now_eq split_beta save_enrollment_def set_meta_def
      record_peer_def log_ok_def data_ok_def split: sum.split)

text \<open>Two devices of one text do not exist: the text of a PeerId can be read back.\<close>

lemma peer_text_inject: "crypto_laws C \<Longrightarrow> peer_text C p = peer_text C q \<longleftrightarrow> p = q"
  unfolding crypto_laws_def by (metis option.inject)

lemma in_remember_role:
  "v \<in> set (remember_role E p r origins) \<longleftrightarrow>
     (if v = peer_text E p then \<not> may_write r else v \<in> set origins)"
  by (auto simp: remember_role_def)

lemma gate_ok_accept:
  assumes "crypto_laws E" "gate_ok E org N" "accept_peer E p cert crl rep N = (res, M)"
  shows "gate_ok E org M"
proof (cases res)
  case (Inl e)
  then show ?thesis
    using assms accept_peer_refused [of E p cert crl rep N e M] merge_crl_simps(1) [of E crl "nd_enrollment N"]
    by (simp add: gate_ok_def)
next
  case (Inr u)
  with assms(3) have acc: "accept_peer E p cert crl rep N = (Inr u, M)" by simp
  note a = accept_peer_accepted [OF this]
  obtain t where t: "cert_verify E cert org (Some p) (Some (en_crl (nd_enrollment M))) t = Inr ()"
    using a(1) assms(2) by (auto simp: gate_ok_def)
  obtain since where au: "authed M = tbl_put p \<lparr>ap_user_id = user_id (claims cert),
       ap_display_name = display_name (claims cert), ap_role = claim_role (claims cert),
       ap_since_ms = since, ap_replicates = rep\<rparr> (authed N)"
    using a(4) by blast
  have "vouched E org q i \<and> (ap_role i = ReadOnly \<longrightarrow> peer_text E q \<in> set (readonly_origins M))"
    if "tbl_get (authed M) q = Some i" for q i
  proof (cases "q = p")
    case True
    with that au have i: "i = \<lparr>ap_user_id = user_id (claims cert),
       ap_display_name = display_name (claims cert), ap_role = claim_role (claims cert),
       ap_since_ms = since, ap_replicates = rep\<rparr>" by (simp add: tbl_get_put)
    with t have "vouched E org q i" unfolding vouched_def True by fastforce
    moreover have "ap_role i = ReadOnly \<longrightarrow> peer_text E q \<in> set (readonly_origins M)"
      by (auto simp: a(3) in_remember_role True i may_write_def)
    ultimately show ?thesis by blast
  next
    case False
    with that au have "tbl_get (authed N) q = Some i" by (simp add: tbl_get_put)
    with assms(2) have "vouched E org q i" "ap_role i = ReadOnly \<longrightarrow> peer_text E q \<in> set (readonly_origins N)"
      by (auto simp: gate_ok_def)
    with False show ?thesis by (simp add: a(3) in_remember_role peer_text_inject [OF assms(1)])
  qed
  then show ?thesis
    using assms(2) merge_crl_simps(1) [of E crl "nd_enrollment N"] by (simp add: gate_ok_def a(2))
qed

interpretation gate: node_relation E "\<lambda>N M. crypto_laws E \<longrightarrow> (\<forall>org. gate_ok E org N \<longrightarrow> gate_ok E org M)" for E
proof unfold_locales
  show "crypto_laws E \<longrightarrow> (\<forall>org. gate_ok E org N \<longrightarrow> gate_ok E org (snd (accept_peer E p cert crl rep N)))"
    for N p cert crl rep
    using gate_ok_accept [of E _ N p cert crl rep] by (cases "accept_peer E p cert crl rep N") auto
  show "crypto_laws E \<longrightarrow> (\<forall>org. gate_ok E org N \<longrightarrow> gate_ok E org (N\<lparr>authed := tbl_del p (authed N)\<rparr>))" for N p
    by (auto simp: gate_ok_def tbl_get_del split: if_splits)
  show "crypto_laws E \<longrightarrow> (\<forall>org. gate_ok E org N \<longrightarrow> gate_ok E org M)" if "same_peers N M" for N M
    using gate_ok_same [OF that, of E] by simp
qed (auto simp: gate_ok_def)

lemma gate_ok_step:
  "crypto_laws E \<Longrightarrow> gate_ok E org N \<Longrightarrow> gate_ok E org (node_step E i N)"
  using gate.step [of E N i] by blast

lemma gate_ok_loop: "crypto_laws E \<Longrightarrow> gate_ok E org N \<Longrightarrow> gate_ok E org (fold (node_step E) is N)"
  by (induction "is" arbitrary: N) (simp_all add: gate_ok_step)

section \<open>Rows a step can add\<close>

lemma append_log_rows:
  "c \<in> set (append_log log rs) \<Longrightarrow> c \<in> set log \<or> (\<exists>r\<in>set rs. c = stored_of (sc_seq c) r)"
  by (induction rs arbitrary: log) fastforce+

lemma node_apply_db:
  "nd_db (snd (node_apply E p chs N)) =
     snd (apply_remote E (List.filter (\<lambda>c. cr_origin c \<notin> set (readonly_origins N)) chs) (nd_db N))"
proof -
  have "(if \<exists>c\<in>set chs. cr_origin c \<in> set (readonly_origins N)
         then List.filter (\<lambda>c. cr_origin c \<notin> set (readonly_origins N)) chs else chs) =
      List.filter (\<lambda>c. cr_origin c \<notin> set (readonly_origins N)) chs"
    by (auto intro!: filter_True [symmetric])
  then show ?thesis by (simp add: node_apply_def Let_def split: prod.split)
qed

lemma node_apply_rows:
  assumes "c \<in> set (changes (nd_db (snd (node_apply E p chs N))))"
  shows "c \<in> set (changes (nd_db N)) \<or>
    (\<exists>r\<in>set chs. c = stored_of (sc_seq c) r \<and> cr_origin r \<notin> set (readonly_origins N))"
proof -
  let ?kept = "List.filter (\<lambda>c. cr_origin c \<notin> set (readonly_origins N)) chs"
  have "c \<in> set (changes (nd_db N)) \<or>
      (\<exists>r. r \<in> set (fst (admit E (require_signatures (nd_db N)) ?kept)) \<and> c = stored_of (sc_seq c) r)"
    using addsD [OF adds_apply_remote] assms unfolding node_apply_db .
  then show ?thesis using admit_split [of E "require_signatures (nd_db N)" ?kept] by auto
qed

lemma nd_db_fold_act [simp]: "nd_db (fold (\<lambda>x. act (f x)) xs N) = nd_db N"
  by (simp add: fold_act)

lemma nd_db_broadcast_chunk [simp]: "nd_db (broadcast_chunk E ps c N) = nd_db N"
  by (simp add: broadcast_chunk_def Let_def split: option.split)

lemma nd_db_broadcast [simp]: "nd_db (broadcast E chs N) = nd_db N"
proof -
  have "nd_db (fold (broadcast_chunk E ps) cs N) = nd_db N" for ps cs
    by (induction cs arbitrary: N) simp_all
  then show ?thesis by (simp add: broadcast_def)
qed

lemma changes_mark [simp]: "changes (mark_broadcast n d) = changes d"
  by (simp add: mark_broadcast_def set_meta_def)

lemma flush_and_push_changes:
  "changes (nd_db (flush_and_push E N)) =
     (if replicate_data (nd_cfg N) then changes (snd (flush_local E (nd_db N))) else changes (nd_db N))"
  by (simp add: flush_and_push_def Let_def split: prod.split sum.split)

lemma request_sync_db [simp]: "nd_db (request_sync E p N) = nd_db N"
  by (simp add: request_sync_def split: sum.split)

lemma request_all_db [simp]: "nd_db (request_sync_from_all E N) = nd_db N"
proof -
  have "nd_db (fold (request_sync E) ps N) = nd_db N" for ps
    by (induction ps arbitrary: N) simp_all
  then show ?thesis by (simp add: request_sync_from_all_def)
qed

lemma discovered_db [simp]: "nd_db (on_discovered ps N) = nd_db N"
  by (induction ps N rule: on_discovered.induct) (simp_all add: Let_def)

lemma answer_rows:
  assumes "c \<in> set (changes (nd_db (snd (answer E p r N))))"
  shows "c \<in> set (changes (nd_db N)) \<or> sc_origin c \<notin> set (readonly_origins N)"
proof (cases r)
  case (HelloReq proto cert crl rep)
  then show ?thesis
    using assms accept_peer_db(1) [of E p cert crl rep N]
    by (auto simp: refuse_def split: if_splits prod.splits sum.splits)
next
  case (SyncReq vv lim)
  then show ?thesis using assms by (auto simp: Let_def split: if_splits sum.splits)
next
  case (PushReq chs)
  show ?thesis
  proof (cases "is_authed N p \<and> replicate_data (nd_cfg N)")
    case True
    then have "c \<in> set (changes (nd_db (snd (node_apply E p chs N))))"
      using assms PushReq by (auto split: prod.splits)
    from node_apply_rows [OF this] show ?thesis by (metis sc_origin_stored_of)
  next
    case False
    then have "snd (answer E p r N) = N" using PushReq by auto
    then show ?thesis using assms by simp
  qed
qed

lemma node_step_rows:
  assumes "c \<in> set (changes (nd_db (node_step E i N)))"
  shows "c \<in> set (changes (nd_db N)) \<or> sc_origin c = device_id (nd_db N)
    \<or> sc_origin c \<notin> set (readonly_origins N)"
proof -
  have fl: "c \<in> set (changes (nd_db N)) \<or> sc_origin c = device_id (nd_db N)"
    if "c \<in> set (changes (nd_db (flush_and_push E N)))"
    using that addsD [OF adds_flush_local, of c E "nd_db N"]
    by (auto simp: flush_and_push_changes written_by_def split: if_splits) (metis sc_origin_stored_of)+
  have ap: "c \<in> set (changes (nd_db N)) \<or> sc_origin c \<notin> set (readonly_origins N)"
    if "c \<in> set (changes (nd_db (snd (node_apply E p chs N))))" for p chs
    using node_apply_rows [OF that] by (metis sc_origin_stored_of)
  show ?thesis
  proof (cases i)
    case (Swarm ev)
    show ?thesis
    proof (cases ev)
      case (Request p r)
      then show ?thesis
        using assms Swarm answer_rows [of c E p r N]
        by (cases "answer E p r N") (auto simp: on_request_def)
    next
      case (Response p r)
      have "nd_db (on_response E p r N) = nd_db N \<or> (\<exists>chs. nd_db (on_response E p r N) = nd_db (snd (node_apply E p chs N)))
          \<or> changes (nd_db (on_response E p r N)) = changes (nd_db N)"
      proof (cases r)
        case (HelloResp proto cert crl rep)
        then show ?thesis
          using accept_peer_db(1) [of E p cert crl rep N]
          by (auto simp: reject_peer_def split: prod.splits sum.splits)
      qed (auto simp: Let_def reject_peer_def)
      with assms ap show ?thesis by (auto simp: Swarm Response simp del: on_response.simps)
    next
      case (Gossip p data)
      with assms ap show ?thesis by (auto simp: Swarm on_gossip_def split: if_splits option.splits)
    next
      case (ResponseSent p)
      with assms show ?thesis by (simp add: Swarm on_response_sent_def reject_peer_def split: option.splits)
    qed (use assms in \<open>simp_all add: Swarm Let_def split: if_splits\<close>)
  next
    case (Cmd cm)
    then show ?thesis using assms fl by (cases cm) (auto simp: Let_def split: option.splits)
  qed (use assms fl in auto)
qed

section \<open>Chunks\<close>

definition chunk_acts :: "'a node_env_scheme \<Rightarrow> string \<Rightarrow> peer_id list \<Rightarrow> change_record list \<Rightarrow> action list" where
  "chunk_acts E topic targets chunk =
     List.map (\<lambda>p. SendReq p (PushReq chunk)) targets
     @ (case broadcast_encode E chunk of None \<Rightarrow> [] | Some b \<Rightarrow> [Publish topic b])"

lemma broadcast_chunk_eq:
  "broadcast_chunk E targets chunk N =
     N\<lparr>acts := acts N @ chunk_acts E (changes_topic (en_org_id (nd_enrollment N))) targets chunk\<rparr>"
  by (simp add: broadcast_chunk_def fold_act chunk_acts_def act_def Let_def split: option.split)

lemma broadcast_eq:
  "broadcast E chs N = N\<lparr>acts := acts N @
     concat (List.map (chunk_acts E (changes_topic (en_org_id (nd_enrollment N))) (replicating_peers N))
               (chunks MAX_PUSH_CHANGES chs))\<rparr>"
proof -
  have "fold (broadcast_chunk E ps) cs N = N\<lparr>acts := acts N @
      concat (List.map (chunk_acts E (changes_topic (en_org_id (nd_enrollment N))) ps) cs)\<rparr>" for ps cs
    by (induction cs arbitrary: N) (simp_all add: broadcast_chunk_eq)
  then show ?thesis by (simp add: broadcast_def)
qed

end
