(* ===== verification/Standing.thy ===== *)
theory Standing
  imports Gate
begin

text \<open>
  What ends the standing of a peer: lemmas that every handler of the node keeps who is authenticated and
  who is marked for disconnection, except the closing of a connection and the answer that was sent.
\<close>

definition keeps :: "node \<Rightarrow> node \<Rightarrow> bool" where
  "keeps N M \<longleftrightarrow> (\<forall>q. (is_authed N q \<longrightarrow> is_authed M q) \<and> (tbl_get (deny N) q \<noteq> None \<longrightarrow> tbl_get (deny M) q \<noteq> None))"

lemma keeps_refl [simp]: "keeps N N"
  by (simp add: keeps_def)

lemma keeps_trans: "keeps A B \<Longrightarrow> keeps B C \<Longrightarrow> keeps A C"
  by (simp add: keeps_def)

lemma keeps_same: "same_peers N M \<Longrightarrow> keeps N M"
  by (simp add: keeps_def same_peers_def is_authed_def)

lemma keeps_act [simp]: "keeps N (act a M) = keeps N M"
  by (simp add: keeps_def)

lemma keeps_accept:
  assumes "accept_peer E p cert crl rep N = (res, M)"
  shows "keeps N M"
proof -
  have "deny M = deny N" using accept_peer_frame(2) [of E p cert crl rep N] assms by simp
  moreover have "is_authed M q" if "is_authed N q" for q
    using that assms accept_peer_refused(1) [of E p cert crl rep N] accept_peer_accepted(4) [of E p cert crl rep N]
    by (cases res) (force simp: is_authed_def tbl_get_put)+
  ultimately show ?thesis by (simp add: keeps_def)
qed

text \<open>A greeting renews the revocation list whether or not it is accepted.\<close>

lemma hello_enrollment:
  "nd_enrollment (node_step E (Swarm (Request p (HelloReq PROTOCOL_VERSION cert crl rep))) N) =
     snd (merge_crl E crl (nd_enrollment N))"
proof -
  obtain res M where acc: "accept_peer E p cert crl rep N = (res, M)" by fastforce
  show ?thesis
  proof (cases res)
    case (Inl e)
    then show ?thesis
      using acc accept_peer_refused(3) [of E p cert crl rep N e M] by (simp add: on_request_def refuse_def)
  next
    case (Inr u)
    then show ?thesis
      using acc accept_peer_accepted(2) [of E p cert crl rep N u M] by (simp add: on_request_def)
  qed
qed

text \<open>What a greeting of ours or of the peer comes down to.\<close>

lemma accept_peer_outcome:
  "fst (accept_peer E p cert crl rep N) =
     cert_verify E cert (en_org_id (nd_enrollment N)) (Some p)
       (Some (en_crl (snd (merge_crl E crl (nd_enrollment N))))) (wall E (reads (clock (nd_db N))))"
  "acts (snd (accept_peer E p cert crl rep N)) = acts N \<or> fst (accept_peer E p cert crl rep N) = Inr ()"
  by (auto simp: accept_peer_def Let_def node_now_eq split_beta save_enrollment_def set_meta_def
      split: sum.split)

lemma hello_decides:
  "(let M = node_step E (Swarm (Request p (HelloReq v cert crl rep))) N in
     if v = PROTOCOL_VERSION
        \<and> cert_verify E cert (en_org_id (nd_enrollment N)) (Some p)
            (Some (en_crl (snd (merge_crl E crl (nd_enrollment N))))) (wall E (reads (clock (nd_db N)))) = Inr ()
     then is_authed M p \<and> last (acts M) = SendResp p (hello_resp M)
     else authed M = authed N \<and> (\<exists>reason. acts M = acts N @ [SendResp p (Denied reason)]
            \<and> tbl_get (deny M) p = Some reason))"
proof (cases "v = PROTOCOL_VERSION")
  case True
  obtain res M where acc: "accept_peer E p cert crl rep N = (res, M)" by fastforce
  show ?thesis
  proof (cases res)
    case (Inl e)
    have "authed M = authed N" using acc Inl accept_peer_refused(1) [of E p cert crl rep N e M] by simp
    moreover have "acts M = acts N"
      using acc Inl accept_peer_outcome(2) [of E p cert crl rep N] by simp
    moreover have "cert_verify E cert (en_org_id (nd_enrollment N)) (Some p)
        (Some (en_crl (snd (merge_crl E crl (nd_enrollment N))))) (wall E (reads (clock (nd_db N)))) = Inl e"
      using acc Inl accept_peer_outcome(1) [of E p cert crl rep N] by simp
    ultimately show ?thesis using True acc Inl by (simp add: on_request_def refuse_def tbl_get_put Let_def)
  next
    case (Inr u)
    then have "is_authed M p"
      using acc accept_peer_accepted(4) [of E p cert crl rep N u M] by (auto simp: is_authed_def tbl_get_put)
    moreover have "cert_verify E cert (en_org_id (nd_enrollment N)) (Some p)
        (Some (en_crl (snd (merge_crl E crl (nd_enrollment N))))) (wall E (reads (clock (nd_db N)))) = Inr ()"
      using acc Inr accept_peer_outcome(1) [of E p cert crl rep N] by simp
    ultimately show ?thesis
      using True acc Inr by (simp add: on_request_def hello_resp_def our_hello_def Let_def)
  qed
qed (simp add: on_request_def refuse_def tbl_get_put Let_def)

section \<open>What gives a peer its standing\<close>

text \<open>The greeting of a peer, in its own request or in its answer to ours.\<close>

definition greets :: "peer_id \<Rightarrow> device_cert \<Rightarrow> revocation_list \<Rightarrow> bool \<Rightarrow> input \<Rightarrow> bool" where
  "greets p cert crl rep x \<longleftrightarrow> x = Swarm (Request p (HelloReq PROTOCOL_VERSION cert crl rep))
     \<or> x = Swarm (Response p (HelloResp PROTOCOL_VERSION cert crl rep))"

text \<open>
  A certificate is in force for the peer \<open>p\<close> at time \<open>now\<close>: signed by the organisation's key, made out to the
  key of \<open>p\<close>, not on the revocation list \<open>l\<close>, issued (up to the clock drift that is tolerated) and not expired.
\<close>

definition in_force ::
  "'a crypto_scheme \<Rightarrow> string \<Rightarrow> peer_id \<Rightarrow> revocation_list \<Rightarrow> u64 \<Rightarrow> device_cert \<Rightarrow> bool" where
  "in_force C org p l now cert \<longleftrightarrow>
     org_id_from_public C (cert_org_pub cert) = org \<and> claim_org_id (claims cert) = org
     \<and> ed_verify C (cert_org_pub cert) (cert_signing_bytes (claims cert)) (cert_signature cert)
     \<and> cert_peer_id C cert = Inr p
     \<and> \<not> is_revoked l (serial (claims cert))
     \<and> issued_at_ms (claims cert) \<le> now + MAX_CLOCK_DRIFT_MS \<and> now < expires_at_ms (claims cert)"

text \<open>
  The input \<open>x\<close> earns the peer the standing \<open>i\<close> at the node \<open>M\<close>: it is a greeting of the peer with a
  certificate in force by the node's clock and by its revocation list, which the greeting itself may have
  renewed; user, name and role are those of the certificate.
\<close>

definition vouched_at :: "'a node_env_scheme \<Rightarrow> node \<Rightarrow> peer_id \<Rightarrow> input \<Rightarrow> authed_peer \<Rightarrow> bool" where
  "vouched_at E M p x i \<longleftrightarrow> (\<exists>cert crl rep. greets p cert crl rep x
     \<and> in_force E (en_org_id (nd_enrollment M)) p (en_crl (snd (merge_crl E crl (nd_enrollment M))))
         (wall E (reads (clock (nd_db M)))) cert
     \<and> ap_user_id i = user_id (claims cert) \<and> ap_display_name i = display_name (claims cert)
     \<and> ap_role i = claim_role (claims cert) \<and> ap_replicates i = rep)"

lemma accept_authed:
  assumes "accept_peer E q cert crl rep N = (res, M)" "tbl_get (authed M) p = Some i"
  shows "tbl_get (authed N) p = Some i \<or> res = Inr () \<and> p = q
    \<and> in_force E (en_org_id (nd_enrollment N)) p (en_crl (snd (merge_crl E crl (nd_enrollment N))))
        (wall E (reads (clock (nd_db N)))) cert
    \<and> ap_user_id i = user_id (claims cert) \<and> ap_display_name i = display_name (claims cert)
    \<and> ap_role i = claim_role (claims cert) \<and> ap_replicates i = rep"
proof (cases res)
  case (Inl e)
  then show ?thesis using assms accept_peer_refused(1) [of E q cert crl rep N e M] by simp
next
  case (Inr u)
  with assms(1) have acc: "accept_peer E q cert crl rep N = (Inr u, M)" by simp
  obtain since where au: "authed M = tbl_put q \<lparr>ap_user_id = user_id (claims cert),
       ap_display_name = display_name (claims cert), ap_role = claim_role (claims cert),
       ap_since_ms = since, ap_replicates = rep\<rparr> (authed N)"
    using accept_peer_accepted(4) [OF acc] by blast
  have "cert_verify E cert (en_org_id (nd_enrollment N)) (Some q)
      (Some (en_crl (snd (merge_crl E crl (nd_enrollment N))))) (wall E (reads (clock (nd_db N)))) = Inr ()"
    using acc accept_peer_outcome(1) [of E q cert crl rep N] by simp
  then have "in_force E (en_org_id (nd_enrollment N)) q (en_crl (snd (merge_crl E crl (nd_enrollment N))))
      (wall E (reads (clock (nd_db N)))) cert"
    by (simp add: cert_verify_ok in_force_def)
  then show ?thesis using assms(2) Inr by (auto simp: au tbl_get_put split: if_splits)
qed

text \<open>One turn: a peer keeps its standing unless its last connection closes, or earns it by this input.\<close>

lemma quiet_answer:
  assumes "\<And>p cert crl rep. \<not> greets p cert crl rep (Swarm (Request q r))"
  shows "authed (snd (answer E q r N)) = authed N" "readonly_origins (snd (answer E q r N)) = readonly_origins N"
    "nd_enrollment (snd (answer E q r N)) = nd_enrollment N"
proof -
  have "authed (snd (answer E q r N)) = authed N \<and> readonly_origins (snd (answer E q r N)) = readonly_origins N
    \<and> nd_enrollment (snd (answer E q r N)) = nd_enrollment N"
  proof (cases r)
    case (HelloReq v cert crl rep)
    then have "v \<noteq> PROTOCOL_VERSION" using assms [of q cert crl rep] by (auto simp: greets_def)
    with HelloReq show ?thesis by (simp add: refuse_def)
  next
    case (PushReq chs)
    then show ?thesis
      using same_peers_node_apply [of N E q chs] by (auto simp: same_peers_def split: prod.split)
  qed (auto simp: Let_def split: sum.split)
  then show "authed (snd (answer E q r N)) = authed N" "readonly_origins (snd (answer E q r N)) = readonly_origins N"
    "nd_enrollment (snd (answer E q r N)) = nd_enrollment N"
    by blast+
qed

lemma quiet_response:
  assumes "\<And>p cert crl rep. \<not> greets p cert crl rep (Swarm (Response q r))"
  shows "authed (on_response E q r N) = authed N" "readonly_origins (on_response E q r N) = readonly_origins N"
    "nd_enrollment (on_response E q r N) = nd_enrollment N"
proof -
  have "authed (on_response E q r N) = authed N \<and> readonly_origins (on_response E q r N) = readonly_origins N
    \<and> nd_enrollment (on_response E q r N) = nd_enrollment N"
  proof (cases r)
    case (HelloResp v cert crl rep)
    then have "v \<noteq> PROTOCOL_VERSION" using assms [of q cert crl rep] by (auto simp: greets_def)
    with HelloResp show ?thesis by (simp add: reject_peer_def)
  next
    case (SyncResp chs more)
    have "same_peers N (request_sync E q (snd (node_apply E q chs N)))"
      by (rule same_peers_trans [OF same_peers_node_apply same_peers_request_sync])
    with SyncResp same_peers_node_apply [of N E q chs] same_peers_request_sync [of N E q]
    show ?thesis by (simp add: Let_def same_peers_def)
  qed (simp_all add: reject_peer_def)
  then show "authed (on_response E q r N) = authed N" "readonly_origins (on_response E q r N) = readonly_origins N"
    "nd_enrollment (on_response E q r N) = nd_enrollment N"
    by blast+
qed

lemma quiet_step:
  assumes "\<And>p cert crl rep. \<not> greets p cert crl rep x"
  shows "readonly_origins (node_step E x N) = readonly_origins N" "nd_enrollment (node_step E x N) = nd_enrollment N"
    "(\<And>p n. x \<noteq> Swarm (ConnectionClosed p n)) \<Longrightarrow> authed (node_step E x N) = authed N"
proof -
  have "readonly_origins (node_step E x N) = readonly_origins N \<and> nd_enrollment (node_step E x N) = nd_enrollment N
    \<and> ((\<forall>p n. x \<noteq> Swarm (ConnectionClosed p n)) \<longrightarrow> authed (node_step E x N) = authed N)"
  proof (cases x)
    case (Swarm ev)
    show ?thesis
    proof (cases ev)
      case (Request p r)
      with Swarm quiet_answer [OF assms [unfolded Swarm Request], of E N] show ?thesis
        by (auto simp: on_request_def split: prod.split)
    next
      case (Response p r)
      with Swarm quiet_response [OF assms [unfolded Swarm Response], of E N] show ?thesis
        by (simp del: on_response.simps)
    next
      case (Gossip p data)
      have "same_peers N (on_gossip E p data N)" by (simp add: on_gossip_def split: option.split)
      with Swarm Gossip show ?thesis by (simp add: same_peers_def)
    next
      case (Discovered ps)
      with Swarm same_peers_discovered [of N ps] show ?thesis by (simp add: same_peers_def)
    qed (auto simp: Swarm Let_def fold_act act_def on_response_sent_def reject_peer_def split: option.split)
  next
    case (Cmd c)
    then show ?thesis
      using same_peers_flush_and_push [of N E] same_peers_request_all [of N E]
      by (cases c) (auto simp: Let_def same_peers_def split: option.split)
  next
    case FlushTick
    then show ?thesis using same_peers_flush_and_push [of N E] by (simp add: same_peers_def)
  next
    case SyncTick
    then show ?thesis using same_peers_request_all [of N E] by (simp add: same_peers_def)
  qed
  then show "readonly_origins (node_step E x N) = readonly_origins N" "nd_enrollment (node_step E x N) = nd_enrollment N"
    "(\<And>p n. x \<noteq> Swarm (ConnectionClosed p n)) \<Longrightarrow> authed (node_step E x N) = authed N" by blast+
qed

text \<open>The enrolment changes only by a greeting with a revocation list that is newer than the node's.\<close>

definition brings_news :: "'a crypto_scheme \<Rightarrow> enrollment \<Rightarrow> input \<Rightarrow> bool" where
  "brings_news C en x \<longleftrightarrow> (\<exists>p cert crl rep. greets p cert crl rep x \<and> fst (merge_crl C crl en))"

lemma merge_crl_old: "\<not> fst (merge_crl C crl en) \<Longrightarrow> snd (merge_crl C crl en) = en"
  by (simp add: merge_crl_def split: if_splits)

lemma enrollment_step:
  assumes "\<not> brings_news E (nd_enrollment N) x"
  shows "nd_enrollment (node_step E x N) = nd_enrollment N"
proof (cases "\<exists>q cert crl rep. greets q cert crl rep x")
  case True
  then obtain q cert crl rep where g: "greets q cert crl rep x" by blast
  then have old: "snd (merge_crl E crl (nd_enrollment N)) = nd_enrollment N"
    using assms merge_crl_old unfolding brings_news_def by blast
  obtain res M where acc: "accept_peer E q cert crl rep N = (res, M)" by fastforce
  have "nd_enrollment M = nd_enrollment N"
    using acc old accept_peer_refused(3) [of E q cert crl rep N _ M] accept_peer_accepted(2) [of E q cert crl rep N _ M]
    by (cases res) auto
  then show ?thesis
    using g acc same_peers_request_sync [of M E q]
    by (cases res) (auto simp: greets_def on_request_def refuse_def reject_peer_def same_peers_def)
qed (use quiet_step(2) [of x E N] in blast)

lemma authed_step:
  assumes "tbl_get (authed (node_step E x N)) p = Some i"
  shows "tbl_get (authed N) p = Some i \<and> x \<noteq> Swarm (ConnectionClosed p 0) \<or> vouched_at E N p x i"
proof -
  consider q n where "x = Swarm (ConnectionClosed q n)" | q cert crl rep where "greets q cert crl rep x"
    | "\<And>p n. x \<noteq> Swarm (ConnectionClosed p n)" "\<And>p cert crl rep. \<not> greets p cert crl rep x" by blast
  then show ?thesis
  proof cases
    case 1
    then show ?thesis using assms by (auto simp: Let_def tbl_get_del split: if_splits)
  next
    case 2
    obtain res M where acc: "accept_peer E q cert crl rep N = (res, M)" by fastforce
    have "authed (node_step E x N) = authed M"
      using 2 acc same_peers_request_sync [of M E q]
      by (cases res) (auto simp: greets_def on_request_def refuse_def reject_peer_def same_peers_def)
    with assms have "tbl_get (authed M) p = Some i" by simp
    with accept_authed [OF acc this] 2 show ?thesis by (auto simp: vouched_at_def greets_def)
  next
    case 3
    then show ?thesis using assms quiet_step(3) [of x E N] by simp
  qed
qed

text \<open>Over a run: the greeting that earned a peer its standing, since when its connection has not closed.\<close>

lemma authed_run:
  assumes "authed N = []" "tbl_get (authed (fold (node_step E) is N)) p = Some i"
  shows "\<exists>pre x post. is = pre @ x # post \<and> vouched_at E (fold (node_step E) pre N) p x i
    \<and> Swarm (ConnectionClosed p 0) \<notin> set post"
  using assms(2)
proof (induction "is" rule: rev_induct)
  case Nil
  then show ?case by (simp add: assms(1))
next
  case (snoc x "is")
  from snoc.prems have "tbl_get (authed (node_step E x (fold (node_step E) is N))) p = Some i" by simp
  from authed_step [OF this] show ?case
  proof
    assume a: "tbl_get (authed (fold (node_step E) is N)) p = Some i \<and> x \<noteq> Swarm (ConnectionClosed p 0)"
    with snoc.IH obtain pre y post where "is = pre @ y # post" "vouched_at E (fold (node_step E) pre N) p y i"
      "Swarm (ConnectionClosed p 0) \<notin> set post" by blast
    with a show ?thesis by (intro exI [of _ pre] exI [of _ y] exI [of _ "post @ [x]"]) auto
  qed (intro exI [of _ "is"] exI [of _ x] exI [of _ "[]"], simp)
qed

section \<open>Screened authors\<close>

lemma node_step_device: "device_id (nd_db (node_step E x N)) = device_id (nd_db N)"
proof -
  have ap: "device_id (nd_db (snd (node_apply E p chs N))) = device_id (nd_db N)" for p chs
    unfolding node_apply_db using adds_handle [OF adds_apply_remote] by blast
  have fl: "device_id (nd_db (flush_and_push E N)) = device_id (nd_db N)"
    using adds_handle [OF adds_flush_local, of E "nd_db N"]
    by (auto simp: flush_and_push_def Let_def mark_broadcast_def set_meta_def split: prod.split sum.split)
  have ac: "accept_peer E p cert crl rep N = (res, M) \<Longrightarrow> device_id (nd_db M) = device_id (nd_db N)"
    for p cert crl rep res M
    using accept_peer_db(2) [of E p cert crl rep N] by simp
  show ?thesis
  proof (cases x)
    case (Swarm ev)
    show ?thesis
    proof (cases ev)
      case (Request p r)
      have "node_apply E p chs N = (y, M) \<Longrightarrow> device_id (nd_db M) = device_id (nd_db N)" for chs y M
        using ap [of p chs] by simp
      then have "device_id (nd_db (snd (answer E p r N))) = device_id (nd_db N)"
        by (cases r) (auto simp: refuse_def Let_def dest: ac split: prod.split sum.split)
      with Swarm Request show ?thesis by (auto simp: on_request_def split: prod.split)
    next
      case (Response p r)
      have "device_id (nd_db (on_response E p r N)) = device_id (nd_db N)"
        by (cases r) (auto simp: Let_def reject_peer_def ap dest: ac split: prod.split sum.split)
      with Swarm Response show ?thesis by (simp del: on_response.simps)
    next
      case (Gossip p data)
      with Swarm ap show ?thesis by (simp add: on_gossip_def split: option.split)
    qed (simp_all add: Swarm Let_def on_response_sent_def reject_peer_def split: option.split)
  next
    case (Cmd c)
    with fl show ?thesis by (cases c) (auto simp: Let_def split: option.split)
  qed (simp_all add: fl)
qed

text \<open>An author stays screened until its device shows a certificate that lets it write.\<close>

lemma screened_accept:
  assumes "crypto_laws E" "peer_text E p \<in> set (readonly_origins N)" "accept_peer E q cert crl rep N = (res, M)"
    "q = p \<longrightarrow> \<not> may_write (claim_role (claims cert))"
  shows "peer_text E p \<in> set (readonly_origins M)"
  using assms(2-4) accept_peer_refused(2) [of E q cert crl rep N] accept_peer_accepted(3) [of E q cert crl rep N]
  by (cases res) (auto simp: in_remember_role peer_text_inject [OF assms(1)])

definition shows_writer :: "peer_id \<Rightarrow> input \<Rightarrow> bool" where
  "shows_writer p x \<longleftrightarrow> (\<exists>cert crl rep. greets p cert crl rep x \<and> may_write (claim_role (claims cert)))"

lemma screened_step:
  assumes "crypto_laws E" "peer_text E p \<in> set (readonly_origins N)" "\<not> shows_writer p x"
  shows "peer_text E p \<in> set (readonly_origins (node_step E x N))"
proof (cases "\<exists>q cert crl rep. greets q cert crl rep x")
  case True
  then obtain q cert crl rep where g: "greets q cert crl rep x" by blast
  obtain res M where acc: "accept_peer E q cert crl rep N = (res, M)" by fastforce
  have "readonly_origins (node_step E x N) = readonly_origins M"
    using g acc same_peers_request_sync [of M E q]
    by (cases res) (auto simp: greets_def on_request_def refuse_def reject_peer_def same_peers_def)
  moreover have "q = p \<longrightarrow> \<not> may_write (claim_role (claims cert))" using assms(3) g by (auto simp: shows_writer_def)
  ultimately show ?thesis using screened_accept [OF assms(1,2) acc] by simp
next
  case False
  then show ?thesis using assms(2) quiet_step(1) [of x E N] by simp
qed

text \<open>As long as an author is screened, none of its records enters the log of another device.\<close>

lemma screened_run:
  assumes "crypto_laws E" "peer_text E p \<in> set (readonly_origins N)" "device_id (nd_db N) \<noteq> peer_text E p"
    "\<forall>x\<in>set is. \<not> shows_writer p x"
    "c \<in> set (changes (nd_db (fold (node_step E) is N)))" "sc_origin c = peer_text E p"
  shows "c \<in> set (changes (nd_db N))"
  using assms
proof (induction "is" arbitrary: N)
  case (Cons x "is")
  have x: "\<not> shows_writer p x" "\<forall>y\<in>set is. \<not> shows_writer p y" using Cons.prems(4) by simp_all
  have "device_id (nd_db (node_step E x N)) \<noteq> peer_text E p"
    using Cons.prems(3) by (simp only: node_step_device not_False_eq_True)
  moreover have "c \<in> set (changes (nd_db (fold (node_step E) is (node_step E x N))))"
    using Cons.prems(5) by (simp only: fold_simps(2))
  ultimately have "c \<in> set (changes (nd_db (node_step E x N)))"
    using Cons.IH [OF assms(1) screened_step [OF assms(1) Cons.prems(2) x(1)] _ x(2)] assms(6) by blast
  from node_step_rows [OF this] show ?case using Cons.prems(2,3,6) by metis
qed simp

section \<open>What ends it\<close>

lemma keeps_answer: "keeps N (snd (answer E p r N))"
proof (cases r)
  case (HelloReq v cert crl rep)
  obtain res M where acc: "accept_peer E p cert crl rep N = (res, M)" by fastforce
  have "keeps K (snd (refuse p reason K))" for reason K
    by (simp add: keeps_def refuse_def is_authed_def tbl_get_put)
  with keeps_accept [OF acc] HelloReq acc show ?thesis
    by (auto split: sum.split intro: keeps_trans)
next
  case (PushReq chs)
  then show ?thesis using keeps_same [OF same_peers_node_apply, of N E p chs] by (auto split: prod.split)
qed (auto simp: Let_def split: sum.split)

lemma keeps_response: "keeps N (on_response E p r N)"
proof (cases r)
  case (HelloResp v cert crl rep)
  obtain res M where acc: "accept_peer E p cert crl rep N = (res, M)" by fastforce
  have "keeps M (request_sync E p M)" by (rule keeps_same) simp
  with keeps_accept [OF acc] HelloResp acc show ?thesis
    by (auto simp: reject_peer_def split: sum.split intro: keeps_trans)
next
  case (SyncResp chs more)
  have "same_peers N (request_sync E p (snd (node_apply E p chs N)))"
    by (rule same_peers_trans [OF same_peers_node_apply same_peers_request_sync])
  with SyncResp show ?thesis by (auto simp: Let_def intro: keeps_same)
qed (simp_all add: reject_peer_def)

lemma keeps_quiet:
  assumes "\<And>p n. i \<noteq> Swarm (ConnectionClosed p n)" "\<And>p. i \<noteq> Swarm (ResponseSent p)"
  shows "keeps N (node_step E i N)"
proof (cases i)
  case (Swarm ev)
  show ?thesis
  proof (cases ev)
    case (Request p r)
    with Swarm keeps_answer [of N E p r] show ?thesis by (auto simp: on_request_def split: prod.split)
  next
    case (Response p r)
    with Swarm keeps_response show ?thesis by (simp del: on_response.simps)
  next
    case (Gossip p data)
    have "same_peers N (on_gossip E p data N)" by (simp add: on_gossip_def split: option.split)
    with Swarm Gossip show ?thesis by (simp add: keeps_same)
  next
    case (Discovered ps)
    with Swarm show ?thesis by (simp add: keeps_same [OF same_peers_discovered])
  qed (use assms Swarm in \<open>auto simp: Let_def fold_act keeps_def is_authed_def act_def\<close>)
next
  case (Cmd c)
  then show ?thesis by (cases c) (auto simp: Let_def keeps_same split: option.split)
qed (simp_all add: keeps_same)

lemma step_keeps_authed:
  assumes "is_authed N q" "i \<noteq> Swarm (ConnectionClosed q 0)"
  shows "is_authed (node_step E i N) q"
proof -
  consider p n where "i = Swarm (ConnectionClosed p n)" | p where "i = Swarm (ResponseSent p)"
    | "\<And>p n. i \<noteq> Swarm (ConnectionClosed p n)" "\<And>p. i \<noteq> Swarm (ResponseSent p)" by blast
  then show ?thesis
  proof cases
    case 1
    then show ?thesis using assms by (auto simp: Let_def is_authed_def tbl_get_del)
  next
    case 2
    then show ?thesis using assms by (simp add: on_response_sent_def reject_peer_def is_authed_def split: option.split)
  next
    case 3
    then show ?thesis using assms(1) keeps_quiet unfolding keeps_def by blast
  qed
qed

lemma step_keeps_deny:
  assumes "tbl_get (deny N) q \<noteq> None" "i \<noteq> Swarm (ResponseSent q)"
  shows "tbl_get (deny (node_step E i N)) q \<noteq> None"
proof -
  consider p n where "i = Swarm (ConnectionClosed p n)" | p where "i = Swarm (ResponseSent p)"
    | "\<And>p n. i \<noteq> Swarm (ConnectionClosed p n)" "\<And>p. i \<noteq> Swarm (ResponseSent p)" by blast
  then show ?thesis
  proof cases
    case 1
    then show ?thesis using assms by (auto simp: Let_def)
  next
    case 2
    then show ?thesis using assms by (auto simp: on_response_sent_def reject_peer_def tbl_get_del split: option.split)
  next
    case 3
    then show ?thesis using assms(1) keeps_quiet unfolding keeps_def by blast
  qed
qed

lemma run_keeps_deny:
  "tbl_get (deny N) q \<noteq> None \<Longrightarrow> Swarm (ResponseSent q) \<notin> set is
     \<Longrightarrow> tbl_get (deny (fold (node_step E) is N)) q \<noteq> None"
proof (induction "is" arbitrary: N)
  case (Cons i "is")
  then have "tbl_get (deny (node_step E i N)) q \<noteq> None" using step_keeps_deny [of N q i E] by fastforce
  with Cons show ?case by simp
qed simp

end
