(* ===== verification/NodeSamples.thy ===== *)
theory NodeSamples
  imports Standing Samples
begin

text \<open>
  Concrete nodes, on which the properties of the node and of the seed server are instantiated: the
  environment of \<open>Samples\<close> with addresses and encodings, a node of device \<open>[2]\<close> in the organisation
  with key \<open>[1]\<close>, certificates for its members, and the state after it authenticated a read-only peer.
\<close>

definition toy_node_env :: node_env where
  "toy_node_env = env.extend toy_env
     \<lparr>addr_text = (\<lambda>a. []), addr_parse = (\<lambda>s. Some [Transport s]), dial_error = (\<lambda>a. None),
      listen_error = (\<lambda>a. None), subscribe_error = (\<lambda>t. None), on_android = False, tcp_error = None,
      dns_error = None, relay_client_error = None, gossip_config_error = None, gossipsub_error = None,
      mdns_error = None, behaviour_error_text = (\<lambda>t. t), enrollment_json = (\<lambda>e. []),
      cert_json = (\<lambda>c. []),
      broadcast_encode = (\<lambda>chs. if chs = [a_record] then Some [1] else None),
      broadcast_decode = (\<lambda>b. if b = [1] then Some [a_record] else None)\<rparr>"

definition toy_config :: node_config where
  "toy_config = \<lparr>cf_listen = [], cf_bootstrap = [], enable_mdns = True, enable_relay_client = True,
     enable_relay_server = False, kad_server = False, replicate_data = True, sync_interval_ms = 20000,
     flush_interval_ms = 750, idle_connection_timeout_s = 60\<rparr>"

definition toy_cert :: "u8 \<Rightarrow> role \<Rightarrow> device_cert" where
  "toy_cert k r = issue_cert toy_node_env [1] (toy_public [k]) ''u'' ''d'' r (ucast k) 1000000 0"

definition toy_enrollment :: enrollment where
  "toy_enrollment = \<lparr>en_org_id = org_id toy_node_env [1], en_org_name = ''org'', en_cert = toy_cert 2 Member,
     en_crl = crl_empty (org_id toy_node_env [1]), en_bootstrap = []\<rparr>"

definition toy_node :: node where
  "toy_node = \<lparr>nd_db = small ''a'', nd_enrollment = toy_enrollment, nd_cfg = toy_config,
     nd_self = toy_public [2], authed = [], greeted = [], readonly_origins = [], deny = [],
     listen_addrs = [], external_addrs = [], acts = []\<rparr>"

definition hello_from :: "u8 \<Rightarrow> role \<Rightarrow> input" where
  "hello_from k r = Swarm (Request (toy_public [k])
     (HelloReq 1 (toy_cert k r) (crl_empty (org_id toy_node_env [1])) True))"

lemma toy_node_env_laws: "crypto_laws toy_node_env"
  using toy_env_laws by (simp add: crypto_laws_def toy_node_env_def env.defs toy_env_def crypto.defs toy_crypto_def)

lemma toy_cert_simps:
  "serial (claims (toy_cert k r)) = ucast k" "claim_role (claims (toy_cert k r)) = r"
  "user_id (claims (toy_cert k r)) = ''u''" "display_name (claims (toy_cert k r)) = ''d''"
  by (simp_all add: toy_cert_def issue_cert_def Let_def)

lemma toy_cert_ok:
  assumes "t < 1000000"
  shows "cert_verify toy_node_env (toy_cert k r) (org_id toy_node_env [1]) (Some (toy_public [k])) None t = Inr ()"
  using assms
  by (simp add: cert_verify_ok toy_cert_def issue_cert_def Let_def org_id_def org_id_from_public_def
      cert_peer_id_def device_pub_to_peer_id_def ed25519_public_def toy_node_env_def env.defs toy_env_def
      crypto.defs toy_crypto_def sat_add_def MAX_CLOCK_DRIFT_MS_def)

lemma toy_crl: "merge_crl toy_node_env (crl_empty (org_id toy_node_env [1])) toy_enrollment = (False, toy_enrollment)"
  by (simp add: merge_crl_def crl_empty_def)

lemma toy_wall: "wall toy_node_env n = 1000 + word_of_nat n" "reads (clock (small dev)) = 0"
  by (simp_all add: toy_node_env_def toy_env_def env.defs crypto.defs toy_crypto_def small_def
      replica_file.defs new_clock_def)

lemma toy_accepted:
  "fst (accept_peer toy_node_env (toy_public [k]) (toy_cert k r) (crl_empty (org_id toy_node_env [1])) rep toy_node)
     = Inr ()"
  "authed (snd (accept_peer toy_node_env (toy_public [k]) (toy_cert k r) (crl_empty (org_id toy_node_env [1])) rep toy_node))
     = [(toy_public [k], \<lparr>ap_user_id = ''u'', ap_display_name = ''d'', ap_role = r, ap_since_ms = 1001,
          ap_replicates = rep\<rparr>)]"
proof -
  have "cert_verify toy_node_env (toy_cert k r) (en_org_id toy_enrollment) (Some (toy_public [k]))
      (Some (en_crl toy_enrollment)) 1000 = Inr ()"
    using toy_cert_ok [of 1000 k r]
    by (simp add: cert_verify_crl toy_enrollment_def is_revoked_def crl_empty_def binary_search_iff)
  then show
    "fst (accept_peer toy_node_env (toy_public [k]) (toy_cert k r) (crl_empty (org_id toy_node_env [1])) rep toy_node)
     = Inr ()"
    "authed (snd (accept_peer toy_node_env (toy_public [k]) (toy_cert k r) (crl_empty (org_id toy_node_env [1])) rep toy_node))
     = [(toy_public [k], \<lparr>ap_user_id = ''u'', ap_display_name = ''d'', ap_role = r, ap_since_ms = 1001,
          ap_replicates = rep\<rparr>)]"
    by (simp_all add: accept_peer_def toy_node_def toy_crl node_now_eq toy_wall toy_cert_simps is_authed_def Let_def)
qed

lemma toy_hello_authed:
  "authed (node_step toy_node_env (hello_from k r) toy_node) =
     [(toy_public [k], \<lparr>ap_user_id = ''u'', ap_display_name = ''d'', ap_role = r, ap_since_ms = 1001,
        ap_replicates = True\<rparr>)]"
  using toy_accepted [of k r True]
  by (auto simp: hello_from_def on_request_def PROTOCOL_VERSION_def split: prod.split sum.split)

lemma toy_validate: "validate toy_node_env toy_enrollment [2] 5 = Inr ()"
  using toy_cert_ok [of 5 2 Member]
  by (simp add: validate_def cert_verify_crl toy_enrollment_def is_revoked_def crl_empty_def binary_search_iff
      device_peer_id_def toy_node_env_def env.defs toy_env_def crypto.defs toy_crypto_def)

lemma toy_self: "device_peer_id toy_node_env sk = toy_public sk"
  by (simp add: device_peer_id_def toy_node_env_def env.defs toy_env_def crypto.defs toy_crypto_def)

lemma toy_roles: "db_readonly_origins (small dev) = []"
  by (simp add: db_readonly_origins_def devices_with_role_def small_def notes_file_def empty_file_def
      replica_file.defs)

lemma toy_swarm: "\<exists>swarm idle. build_swarm toy_node_env sk cfg = Inr (swarm, idle)"
  using build_swarm_works [of toy_node_env sk cfg] by (auto simp: toy_node_env_def env.defs toy_env_def
      crypto.defs toy_crypto_def)

lemma toy_spawn: "spawn toy_node_env toy_config [2] toy_enrollment (small ''a'') 5 = Inr toy_node"
  using toy_validate toy_self toy_roles toy_swarm by (auto simp: spawn_ok toy_node_def)

definition strict_node :: node where
  "strict_node = toy_node\<lparr>nd_db := (small ''a'')\<lparr>require_signatures := True\<rparr>\<rparr>"

definition readonly_peer :: authed_peer where
  "readonly_peer = \<lparr>ap_user_id = ''u'', ap_display_name = ''d'', ap_role = ReadOnly, ap_since_ms = 1001,
     ap_replicates = True\<rparr>"

definition screening_node :: node where
  "screening_node = toy_node\<lparr>authed := [(toy_public [4], readonly_peer)],
     readonly_origins := [peer_text toy_node_env (toy_public [4])]\<rparr>"

lemma screening_gate: "gate_ok toy_node_env (org_id toy_node_env [1]) screening_node"
proof -
  have "cert_verify toy_node_env (toy_cert 4 ReadOnly) (org_id toy_node_env [1]) (Some (toy_public [4]))
      (Some (crl_empty [])) 5 = Inr ()"
    using toy_cert_ok [of 5 4 ReadOnly]
    by (simp add: cert_verify_crl is_revoked_def crl_empty_def binary_search_iff)
  then have "vouched toy_node_env (org_id toy_node_env [1]) (toy_public [4]) readonly_peer"
    unfolding vouched_def
    by (intro exI [of _ "toy_cert 4 ReadOnly"] exI [of _ "crl_empty []"] exI [of _ 5])
       (simp add: toy_cert_simps readonly_peer_def)
  then show ?thesis by (simp add: gate_ok_def screening_node_def toy_node_def toy_enrollment_def)
qed

lemma small_room: "clock_room (flush_budget (small dev)) (clock (small dev))"
  by (simp add: flush_budget_def small_def notes_file_def empty_file_def replica_file.defs clock_room_def
      new_clock_def hlc_zero_def collapse_def keys_budget_def)

definition revoking_list :: revocation_list where
  "revoking_list = sign_crl toy_node_env [1] [4] 9"

end
