(* ===== verification/Draining.thy ===== *)
theory Draining
  imports Gate Syncing
begin

text \<open>
  The outbox of a node: what one flush that finds nothing new still announces, and that repeating it
  empties the outbox while every replicating peer is sent each record once.
\<close>

text \<open>The records a list of actions pushes to one peer.\<close>

definition pushed_to :: "peer_id \<Rightarrow> action list \<Rightarrow> change_record list" where
  "pushed_to p as = concat (List.map (\<lambda>a. case a of SendReq q (PushReq chs) \<Rightarrow> if q = p then chs else [] | _ \<Rightarrow> []) as)"

lemma pushed_to_append [simp]: "pushed_to p (as @ bs) = pushed_to p as @ pushed_to p bs"
  by (simp add: pushed_to_def)

lemma pushed_to_quiet [simp]:
  "pushed_to p [] = []" "pushed_to p (Emit ev # as) = pushed_to p as" "pushed_to p (Publish t b # as) = pushed_to p as"
  by (simp_all add: pushed_to_def)

lemma pushed_to_targets:
  assumes "distinct ps"
  shows "pushed_to p (List.map (\<lambda>q. SendReq q (PushReq chs)) ps) = (if p \<in> set ps then chs else [])"
  using assms by (induction ps) (auto simp: pushed_to_def)

lemma pushed_to_chunk:
  "distinct ps \<Longrightarrow> pushed_to p (chunk_acts E topic ps chs) = (if p \<in> set ps then chs else [])"
  by (simp add: chunk_acts_def pushed_to_targets split: option.split)

lemma pushed_to_chunks:
  assumes "distinct ps" "p \<in> set ps"
  shows "pushed_to p (concat (List.map (chunk_acts E topic ps) cs)) = concat cs"
  using assms by (induction cs) (simp_all add: pushed_to_chunk)

text \<open>A node with nothing staged whose unannounced records can all be read.\<close>

definition settled :: "node \<Rightarrow> bool" where
  "settled N \<longleftrightarrow> replicate_data (nd_cfg N) \<and> distinct (List.map fst (authed N)) \<and> local_ops (nd_db N) = []
     \<and> log_ok (nd_db N) \<and> seq_fits (nd_db N) \<and> (\<forall>c\<in>set (pending (nd_db N)). \<exists>r. decode_change c = Inr r)"

lemma replicating_distinct: "distinct (List.map fst (authed N)) \<Longrightarrow> distinct (replicating_peers N)"
  by (auto simp: replicating_peers_def distinct_map intro: inj_on_subset)

lemma settled_flush:
  assumes "settled N" "p \<in> set (replicating_peers N)"
  shows "settled (flush_and_push E N) \<and> replicating_peers (flush_and_push E N) = replicating_peers N
    \<and> pending (nd_db (flush_and_push E N)) = drop 500 (pending (nd_db N))
    \<and> (\<exists>as. acts (flush_and_push E N) = acts N @ as
         \<and> List.map (stored_of 0) (pushed_to p as) = List.map content (take 500 (pending (nd_db N))))"
proof -
  let ?d = "nd_db N"
  have s: "replicate_data (nd_cfg N)" "distinct (List.map fst (authed N))" "local_ops ?d = []" "log_ok ?d" "seq_fits ?d"
    using assms(1) by (simp_all add: settled_def)
  have "\<forall>c\<in>set (take 500 (pending ?d)). \<exists>r. decode_change c = Inr r \<and> True"
    using assms(1) by (auto simp: settled_def dest: in_set_takeD)
  from decode_changes_all [OF this] obtain chs high where page: "unbroadcast_local ?d MAX_SYNC_CHANGES = Inr (chs, high)"
    by (auto simp: unbroadcast_local_def unbroadcast_rows_pending MAX_SYNC_CHANGES_def Let_def)
  note mark = pending_mark [OF s(4,5) page]
  have flush: "flush_local E ?d = (Inr [], ?d)" by (simp add: flush_local_def s(3))
  show ?thesis
  proof (cases "chs = []")
    case True
    then have "take 500 (pending ?d) = []" using mark(2) by (simp add: MAX_SYNC_CHANGES_def)
    then have "pending ?d = []" by simp
    moreover have "flush_and_push E N = N"
      using True s(1) page by (simp add: flush_and_push_def flush Let_def)
    ultimately show ?thesis using assms(1) by simp
  next
    case False
    let ?as = "Emit (LocalChanges (word_of_nat (length chs))) #
      concat (List.map (chunk_acts E (changes_topic (en_org_id (nd_enrollment N))) (replicating_peers N))
                (chunks MAX_PUSH_CHANGES chs))"
    have step: "flush_and_push E N = N\<lparr>acts := acts N @ ?as, nd_db := mark_broadcast high ?d\<rparr>"
      using False s(1) page
      by (simp add: flush_and_push_def flush broadcast_eq act_def replicating_peers_def Let_def)
    have "pushed_to p ?as = chs"
      using pushed_to_chunks [OF replicating_distinct [OF s(2)] assms(2), of E] concat_chunks [of MAX_PUSH_CHANGES chs]
      by (simp add: MAX_PUSH_CHANGES_def)
    then have pushed: "List.map (stored_of 0) (pushed_to p ?as) = List.map content (take 500 (pending ?d))"
      using mark(2) by (simp add: MAX_SYNC_CHANGES_def)
    have "settled (flush_and_push E N)"
      using assms(1) mark(1)
      by (auto simp: step settled_def mark_broadcast_def set_meta_def log_ok_def data_ok_def seq_fits_def
          MAX_SYNC_CHANGES_def dest: in_set_dropD)
    moreover have "replicating_peers (flush_and_push E N) = replicating_peers N"
      by (simp add: step replicating_peers_def)
    moreover have "pending (nd_db (flush_and_push E N)) = drop 500 (pending ?d)"
      using mark(1) by (simp add: step MAX_SYNC_CHANGES_def)
    moreover have "acts (flush_and_push E N) = acts N @ ?as" by (simp add: step)
    ultimately show ?thesis using pushed by blast
  qed
qed

lemma drain_rounds:
  assumes "settled N" "p \<in> set (replicating_peers N)"
  shows "settled ((flush_and_push E ^^ n) N) \<and> replicating_peers ((flush_and_push E ^^ n) N) = replicating_peers N
    \<and> pending (nd_db ((flush_and_push E ^^ n) N)) = drop (n * 500) (pending (nd_db N))
    \<and> (\<exists>as. acts ((flush_and_push E ^^ n) N) = acts N @ as
         \<and> List.map (stored_of 0) (pushed_to p as) = List.map content (take (n * 500) (pending (nd_db N))))"
proof (induction n)
  case (Suc n)
  let ?N = "(flush_and_push E ^^ n) N"
  from Suc obtain as where as: "acts ?N = acts N @ as"
    "List.map (stored_of 0) (pushed_to p as) = List.map content (take (n * 500) (pending (nd_db N)))" by blast
  have "settled ?N" "p \<in> set (replicating_peers ?N)" using Suc assms(2) by simp_all
  note one = settled_flush [OF this, of E]
  then obtain bs where bs: "acts (flush_and_push E ?N) = acts ?N @ bs"
    "List.map (stored_of 0) (pushed_to p bs) = List.map content (take 500 (pending (nd_db ?N)))" by blast
  have pend: "pending (nd_db ?N) = drop (n * 500) (pending (nd_db N))" using Suc by blast
  have "take (Suc n * 500) (pending (nd_db N)) =
      take (n * 500) (pending (nd_db N)) @ take 500 (drop (n * 500) (pending (nd_db N)))"
    by (simp add: take_add [symmetric] add.commute)
  then have "List.map (stored_of 0) (pushed_to p (as @ bs)) = List.map content (take (Suc n * 500) (pending (nd_db N)))"
    using as(2) bs(2) pend by simp
  moreover have "acts (flush_and_push E ?N) = acts N @ as @ bs" using as(1) bs(1) by simp
  ultimately show ?case using one Suc pend by (auto simp: add.commute)
qed (use assms in simp)

end
