(* ===== verification/NodeProperties.thy ===== *)
theory NodeProperties
  imports NodeSamples Syncing Draining
begin

text \<open>
  The properties of the node, each with an instance on the nodes of \<open>NodeSamples\<close>: a node of device \<open>[2]\<close> in the organisation with
  key \<open>[1]\<close>, a member device \<open>[3]\<close> and a read-only device \<open>[4]\<close>.
\<close>

section \<open>The trust gate\<close>

text \<open>C2: Every peer a node counts as authenticated, after any sequence of events, commands and timers,
  has greeted it in that sequence over its present connection, with a certificate that was in force when the
  greeting came in: signed by the pinned organisation, made out to the key of that connection, not on the
  revocation list the node then held (renewed by the greeting, if that brought a newer one), issued and not
  expired by the node's clock.  It is listed with the user, name and role of that certificate; if the role
  is read-only, the node screens its records.\<close>

theorem only_vouched_peers_are_authenticated:
  assumes "crypto_laws E" "spawn E cfg sk enr d now = Inr N"
    "tbl_get (authed (fold (node_step E) is N)) p = Some i"
  shows "(\<exists>pre x post cert crl rep. is = pre @ x # post \<and> Swarm (ConnectionClosed p 0) \<notin> set post
      \<and> (x = Swarm (Request p (HelloReq PROTOCOL_VERSION cert crl rep))
         \<or> x = Swarm (Response p (HelloResp PROTOCOL_VERSION cert crl rep)))
      \<and> (let M = fold (node_step E) pre N in
          in_force E (en_org_id enr) p (en_crl (snd (merge_crl E crl (nd_enrollment M))))
            (wall E (reads (clock (nd_db M)))) cert)
      \<and> ap_user_id i = user_id (claims cert) \<and> ap_display_name i = display_name (claims cert)
      \<and> ap_role i = claim_role (claims cert) \<and> ap_replicates i = rep)
    \<and> (ap_role i \<noteq> ReadOnly \<or> peer_text E p \<in> set (readonly_origins (fold (node_step E) is N)))"
proof
  have none: "authed N = []" using assms(2) by (auto simp: spawn_ok)
  then have gate: "gate_ok E (en_org_id enr) N" using assms(2) by (auto simp: spawn_ok gate_ok_def)
  then show "ap_role i \<noteq> ReadOnly \<or> peer_text E p \<in> set (readonly_origins (fold (node_step E) is N))"
    using gate_ok_loop [OF assms(1) gate, of "is"] assms(3) unfolding gate_ok_def by blast
  obtain pre x post where split: "is = pre @ x # post" "Swarm (ConnectionClosed p 0) \<notin> set post"
    and v: "vouched_at E (fold (node_step E) pre N) p x i"
    using authed_run [OF none assms(3)] by blast
  have "en_org_id (nd_enrollment (fold (node_step E) pre N)) = en_org_id enr"
    using gate_ok_loop [OF assms(1) gate, of pre] by (simp add: gate_ok_def)
  with v split show "\<exists>pre x post cert crl rep. is = pre @ x # post \<and> Swarm (ConnectionClosed p 0) \<notin> set post
      \<and> (x = Swarm (Request p (HelloReq PROTOCOL_VERSION cert crl rep))
         \<or> x = Swarm (Response p (HelloResp PROTOCOL_VERSION cert crl rep)))
      \<and> (let M = fold (node_step E) pre N in
          in_force E (en_org_id enr) p (en_crl (snd (merge_crl E crl (nd_enrollment M))))
            (wall E (reads (clock (nd_db M)))) cert)
      \<and> ap_user_id i = user_id (claims cert) \<and> ap_display_name i = display_name (claims cert)
      \<and> ap_role i = claim_role (claims cert) \<and> ap_replicates i = rep"
    unfolding vouched_at_def greets_def Let_def by metis
qed

theorem only_vouched_peers_are_authenticated_witness:
  "\<exists>cert. in_force toy_node_env (org_id toy_node_env [1]) (toy_public [4]) (crl_empty (org_id toy_node_env [1])) 1000 cert
      \<and> claim_role (claims cert) = ReadOnly"
proof -
  have "tbl_get (authed (fold (node_step toy_node_env) [hello_from 4 ReadOnly] toy_node)) (toy_public [4]) =
      Some \<lparr>ap_user_id = ''u'', ap_display_name = ''d'', ap_role = ReadOnly, ap_since_ms = 1001, ap_replicates = True\<rparr>"
    using toy_hello_authed [of 4 ReadOnly] by simp
  from only_vouched_peers_are_authenticated [OF toy_node_env_laws toy_spawn this]
  obtain cert crl rep where "hello_from 4 ReadOnly = Swarm (Request (toy_public [4]) (HelloReq PROTOCOL_VERSION cert crl rep))"
    "in_force toy_node_env (en_org_id toy_enrollment) (toy_public [4])
       (en_crl (snd (merge_crl toy_node_env crl (nd_enrollment toy_node)))) (wall toy_node_env (reads (clock (nd_db toy_node)))) cert"
    "ReadOnly = claim_role (claims cert)"
    by (auto simp: Cons_eq_append_conv Let_def hello_from_def)
  moreover have "en_org_id toy_enrollment = org_id toy_node_env [1]"
    "en_crl (snd (merge_crl toy_node_env (crl_empty (org_id toy_node_env [1])) toy_enrollment)) = crl_empty (org_id toy_node_env [1])"
    "nd_enrollment toy_node = toy_enrollment" "nd_db toy_node = small ''a''"
    by (simp_all only: toy_crl) (simp_all add: toy_enrollment_def toy_node_def)
  ultimately show ?thesis by (auto simp: hello_from_def toy_wall)
qed

text \<open>A greeting decides membership exactly: the peer is authenticated if it speaks our version and its
  certificate passes every check against the revocation list the greeting itself may have renewed;
  otherwise it is told so, marked for disconnection, and no peer's standing changes.\<close>

theorem greeting_decides_membership:
  "(let M = node_step E (Swarm (Request p (HelloReq v cert crl rep))) N in
     if v = PROTOCOL_VERSION
        \<and> cert_verify E cert (en_org_id (nd_enrollment N)) (Some p)
            (Some (en_crl (snd (merge_crl E crl (nd_enrollment N))))) (wall E (reads (clock (nd_db N)))) = Inr ()
     then is_authed M p \<and> last (acts M) = SendResp p (hello_resp M)
     else authed M = authed N \<and> (\<exists>reason. acts M = acts N @ [SendResp p (Denied reason)]
            \<and> tbl_get (deny M) p = Some reason))"
  by (rule hello_decides)

text \<open>A peer that has not been authenticated is neither served nor listened to: its pull and its
  push are answered with a denial, its announcement with nothing, and the replica stays as it is.\<close>

theorem strangers_are_denied:
  assumes "\<not> is_authed N p"
  shows "node_step E (Swarm (Request p (SyncReq vv lim))) N = act (SendResp p (Denied ''say hello first'')) N
    \<and> node_step E (Swarm (Request p (PushReq chs))) N = act (SendResp p (Denied ''say hello first'')) N
    \<and> node_step E (Swarm (Gossip p data)) N = N"
  using assms by (simp_all add: on_request_def on_gossip_def)

theorem strangers_are_denied_witness:
  "node_step toy_node_env (Swarm (Request (toy_public [9]) (PushReq [a_record]))) toy_node =
     act (SendResp (toy_public [9]) (Denied ''say hello first'')) toy_node"
  using strangers_are_denied [of toy_node "toy_public [9]" toy_node_env] by (simp add: is_authed_def toy_node_def)

text \<open>C8: Responses are not gated: a device that never showed a certificate and answers our greeting with
  a page of records it signed itself has them merged, even by a replica that requires signatures.\<close>

theorem stranger_response_is_applied:
  assumes "\<not> is_authed N p" "log_ok (nd_db N)" "r \<in> set chs"
    "admissible E (require_signatures (nd_db N)) r" "cr_origin r \<notin> set (readonly_origins N)"
  shows "record_key r \<in> change_key ` set (changes (nd_db (node_step E (Swarm (Response p (SyncResp chs False))) N)))"
proof -
  let ?kept = "List.filter (\<lambda>c. cr_origin c \<notin> set (readonly_origins N)) chs"
  have "nd_db (node_step E (Swarm (Response p (SyncResp chs False))) N) = snd (apply_remote E ?kept (nd_db N))"
    using assms(3) by (auto simp: node_apply_db)
  moreover have "r \<in> set (admitted E ?kept (nd_db N))" using assms(3-5) by (simp add: admit_admissible)
  ultimately show ?thesis using applied_keys [OF apply_remote_state [OF assms(2), of E ?kept]] by simp
qed

theorem stranger_response_is_applied_witness:
  "\<exists>r. \<not> is_authed strict_node (toy_public [9]) \<and> record_key r \<in> change_key ` set (changes (nd_db
     (node_step toy_node_env (Swarm (Response (toy_public [9]) (SyncResp [r] False))) strict_node)))"
proof -
  let ?r = "a_record\<lparr>cr_origin := peer_text toy_node_env (device_peer_id toy_node_env [9])\<rparr>"
  obtain sg where sg: "verify_author toy_node_env (?r\<lparr>cr_sig := sg\<rparr>) = Inr ()"
    using sign_with_verifies [OF toy_node_env_laws, of ?r "[9]"] by auto
  have named: "peer_text toy_node_env (toy_public [9]) \<noteq> []"
    by (simp add: toy_node_env_def env.defs toy_env_def crypto.defs toy_crypto_def bytes_str_def)
  have au: "\<not> is_authed strict_node (toy_public [9])"
    by (simp add: is_authed_def strict_node_def toy_node_def)
  have ok: "log_ok (nd_db strict_node)"
    using small_ok(1) [of "''a''"] by (simp add: strict_node_def node_ok_def log_ok_def data_ok_def)
  have "admissible toy_node_env (require_signatures (nd_db strict_node)) (?r\<lparr>cr_sig := sg\<rparr>)"
    using sg named by (simp add: admissible_def toy_self a_record_def)
  moreover have "cr_origin (?r\<lparr>cr_sig := sg\<rparr>) \<notin> set (readonly_origins strict_node)"
    by (simp add: strict_node_def toy_node_def)
  ultimately show ?thesis
    using stranger_response_is_applied [OF au ok, of "?r\<lparr>cr_sig := sg\<rparr>" "[?r\<lparr>cr_sig := sg\<rparr>]" toy_node_env] au
    by (metis list.set_intros(1))
qed

section \<open>Read-only devices\<close>

text \<open>C19: While a node counts a peer as authenticated with a read-only role, and from then on until that
  peer greets it with the certificate of a writer, connected or not, no record that names the peer's device
  as its author enters the log, from whomever and by whatever way it comes: push, announcement, or answer to
  a pull.  (A node that never met the device itself knows nothing of its role and is not spoken of here.)\<close>

theorem readonly_records_stay_out:
  assumes "crypto_laws E" "spawn E cfg sk enr d now = Inr N0" "N = fold (node_step E) before N0"
    "tbl_get (authed N) p = Some i" "ap_role i = ReadOnly" "device_id (nd_db N) \<noteq> peer_text E p"
    "\<forall>x\<in>set after. \<not> shows_writer p x"
    "c \<in> set (changes (nd_db (fold (node_step E) after N)))" "sc_origin c = peer_text E p"
  shows "c \<in> set (changes (nd_db N))"
proof -
  have "gate_ok E (en_org_id enr) N0" using assms(2) by (auto simp: spawn_ok gate_ok_def)
  then have "gate_ok E (en_org_id enr) N" using gate_ok_loop [OF assms(1)] assms(3) by blast
  then have "peer_text E p \<in> set (readonly_origins N)" using assms(4,5) by (auto simp: gate_ok_def)
  from screened_run [OF assms(1) this assms(6-9)] show ?thesis .
qed

text \<open>A read-only device greets, disconnects, and a member hands over one of its records.\<close>

theorem readonly_records_stay_out_witness:
  "\<not> (\<exists>c\<in>set (changes (nd_db (fold (node_step toy_node_env)
       [Swarm (ConnectionClosed (toy_public [4]) 0), hello_from 3 Member,
        Swarm (Request (toy_public [3]) (PushReq [a_record\<lparr>cr_origin := peer_text toy_node_env (toy_public [4])\<rparr>]))]
       (fold (node_step toy_node_env) [hello_from 4 ReadOnly] toy_node)))).
         sc_origin c = peer_text toy_node_env (toy_public [4]))"
proof -
  let ?N = "fold (node_step toy_node_env) [hello_from 4 ReadOnly] toy_node"
  have au: "tbl_get (authed ?N) (toy_public [4]) =
      Some \<lparr>ap_user_id = ''u'', ap_display_name = ''d'', ap_role = ReadOnly, ap_since_ms = 1001, ap_replicates = True\<rparr>"
    using toy_hello_authed [of 4 ReadOnly] by simp
  have db: "nd_db toy_node = small ''a''" by (simp add: toy_node_def)
  have "device_id (nd_db ?N) = ''a''"
    using node_step_device [of toy_node_env "hello_from 4 ReadOnly" toy_node]
    by (simp add: db small_def replica_file.defs del: node_step.simps)
  moreover have "peer_text toy_node_env (toy_public [4]) \<noteq> ''a''"
    by (simp add: toy_node_env_def env.defs toy_env_def crypto.defs toy_crypto_def bytes_str_def toy_public_def)
  ultimately have dev: "device_id (nd_db ?N) \<noteq> peer_text toy_node_env (toy_public [4])" by simp
  obtain res M where acc: "accept_peer toy_node_env (toy_public [4]) (toy_cert 4 ReadOnly)
      (crl_empty (org_id toy_node_env [1])) True toy_node = (res, M)" by fastforce
  have "changes (nd_db M) = []"
    using accept_peer_db(1) [of toy_node_env "toy_public [4]" "toy_cert 4 ReadOnly" _ True toy_node]
    by (metis acc db small_ok(2) snd_conv)
  then have "changes (nd_db ?N) = []"
    by (simp add: hello_from_def on_request_def PROTOCOL_VERSION_def refuse_def acc split: sum.split)
  moreover have "toy_public [4] \<noteq> toy_public [3]" by (simp add: toy_public_def)
  then have "\<forall>x\<in>set [Swarm (ConnectionClosed (toy_public [4]) 0), hello_from 3 Member,
        Swarm (Request (toy_public [3]) (PushReq [a_record\<lparr>cr_origin := peer_text toy_node_env (toy_public [4])\<rparr>]))].
      \<not> shows_writer (toy_public [4]) x"
    by (auto simp: shows_writer_def greets_def hello_from_def)
  from readonly_records_stay_out [OF toy_node_env_laws toy_spawn refl au _ dev this]
  have "c \<in> set (changes (nd_db ?N))"
    if "c \<in> set (changes (nd_db (fold (node_step toy_node_env)
       [Swarm (ConnectionClosed (toy_public [4]) 0), hello_from 3 Member,
        Swarm (Request (toy_public [3]) (PushReq [a_record\<lparr>cr_origin := peer_text toy_node_env (toy_public [4])\<rparr>]))] ?N)))"
      "sc_origin c = peer_text toy_node_env (toy_public [4])" for c
    using that by simp
  ultimately show ?thesis by (metis empty_iff list.set(1))
qed

section \<open>Replication\<close>

text \<open>A pull is answered with a bounded page: at most \<open>limit\<close> and at most 500 records, exactly the first
  ones missing from the asker's version vector in log order, and when the page says there is no more,
  nothing missing was left out.\<close>

theorem pull_answer_is_a_page:
  assumes "is_authed N p" "replicate_data (nd_cfg N)" "log_ok (nd_db N)" "servable E req (nd_db N)"
  shows "\<exists>chs more. node_step E (Swarm (Request p (SyncReq vv lim))) N = act (SendResp p (SyncResp chs more)) N
    \<and> length chs \<le> unat lim \<and> length chs \<le> 500
    \<and> List.map (stored_of 0) chs = List.map content (take (min (unat lim) 500) (missing_rows (nd_db N) vv))
    \<and> (more \<or> List.map (stored_of 0) chs = List.map content (missing_rows (nd_db N) vv))"
proof -
  let ?n = "min (unat lim) MAX_SYNC_CHANGES" and ?m = "missing_rows (nd_db N) vv"
  obtain chs where chs: "changes_since (nd_db N) vv ?n = Inr chs"
    using changes_since_served [OF assms(4)] by blast
  have "\<forall>c\<in>set (take ?n ?m). decodable c"
    using assms(3) by (auto dest!: in_set_takeD simp: missing_rows_def log_ok_def data_ok_def rows_ok_def)
  with chs have rows: "List.map content (take ?n ?m) = List.map (stored_of 0) chs"
    unfolding changes_since_def by (intro decode_changes_rows)
  then have len: "length chs = min (length ?m) ?n" by (metis length_map length_take)
  have "node_step E (Swarm (Request p (SyncReq vv lim))) N =
      act (SendResp p (SyncResp chs (length chs = ?n))) N"
    using assms(1,2) chs by (simp add: on_request_def Let_def)
  moreover have "length chs = ?n \<or> take ?n ?m = ?m" using len by auto
  ultimately show ?thesis
    using rows len by (intro exI conjI) (auto simp: MAX_SYNC_CHANGES_def)
qed

theorem pull_answer_is_a_page_witness:
  "\<exists>chs more. node_step toy_node_env (Swarm (Request (toy_public [4]) (SyncReq [] 1)))
        (screening_node\<lparr>nd_db := a_flushed\<rparr>)
      = act (SendResp (toy_public [4]) (SyncResp chs more)) (screening_node\<lparr>nd_db := a_flushed\<rparr>)
    \<and> List.map (stored_of 0) chs = [stored_of 0 a_record]"
proof -
  let ?N = "screening_node\<lparr>nd_db := a_flushed\<rparr>"
  have c: "changes a_flushed = [stored_of 1 a_record]" by (simp add: sample_states)
  have n: "is_authed ?N (toy_public [4])" "replicate_data (nd_cfg ?N)" "log_ok (nd_db ?N)"
    using sample_nodes_ok(1)
    by (simp_all add: is_authed_def screening_node_def toy_node_def toy_config_def node_ok_def)
  have "servable toy_node_env False (nd_db ?N)"
    by (simp add: servable_def c decode_change_stored_of admissible_def a_record_def value_ok_def)
  note page = pull_answer_is_a_page [OF n this, where vv = "[]" and lim = 1]
  have "to_hex (cr_hlc a_record) \<noteq> []" by (simp add: to_hex_neq_Nil)
  then have "missing_rows a_flushed [] = [stored_of 1 a_record]"
    by (simp add: missing_rows_def c asked_above_def)
  then have m: "List.map content (take (min (unat (1 :: u32)) 500) (missing_rows (nd_db ?N) [])) = [stored_of 0 a_record]"
    by (simp add: content_def stored_of_def)
  show ?thesis using page unfolding m by (elim exE conjE) (intro exI conjI)
qed

text \<open>A flush announces what it authored: the page of at most 500 unannounced records goes, in chunks
  of at most 200 that together are the page in order, to every replicating peer and to the topic, and
  the mark moves so that exactly the records after the page are left for the next flush.\<close>

theorem flush_announces_a_page:
  assumes "replicate_data (nd_cfg N)" "flush_local E (nd_db N) = (Inr out, d)" "log_ok d" "seq_fits d"
    "unbroadcast_local d MAX_SYNC_CHANGES = Inr (chs, high)" "chs \<noteq> []"
  shows "pending (nd_db (flush_and_push E N)) = drop 500 (pending d)
    \<and> acts (flush_and_push E N) = acts N @ Emit (LocalChanges (word_of_nat (length chs))) #
        concat (List.map (chunk_acts E (changes_topic (en_org_id (nd_enrollment N))) (replicating_peers N))
                  (chunks 200 chs))
    \<and> concat (chunks 200 chs) = chs \<and> (\<forall>c\<in>set (chunks 200 chs). length c \<le> 200)
    \<and> List.map (stored_of 0) chs = List.map content (take 500 (pending d))"
  using assms pending_mark [OF assms(3-5)] concat_chunks [of 200 chs] chunks_length [of _ 200 chs]
  by (auto simp add: flush_and_push_def broadcast_eq replicating_peers_def MAX_SYNC_CHANGES_def
      MAX_PUSH_CHANGES_def Let_def)

theorem flush_announces_a_page_witness:
  "acts (flush_and_push toy_node_env (screening_node\<lparr>nd_db := a_flushed\<rparr>)) =
     [Emit (LocalChanges 1), SendReq (toy_public [4]) (PushReq [a_record]),
      Publish (''orgsync/'' @ org_id toy_node_env [1] @ ''/changes'') [1]]"
proof -
  let ?N = "screening_node\<lparr>nd_db := a_flushed\<rparr>"
  have c: "changes a_flushed = [stored_of 1 a_record]" "local_ops a_flushed = []" "meta a_flushed = []"
    "device_id a_flushed = ''a''" by (simp_all add: sample_states)
  then have p: "watermark a_flushed = 0" "pending a_flushed = [stored_of 1 a_record]"
    by (simp_all add: watermark_def get_meta_def pending_def a_record_def)
  have "decode_change (stored_of 1 a_record) = Inr a_record"
    by (simp add: decode_change_stored_of a_record_def value_ok_def)
  then have u: "unbroadcast_local a_flushed MAX_SYNC_CHANGES = Inr ([a_record], 1)"
    by (simp add: unbroadcast_local_def unbroadcast_rows_pending p MAX_SYNC_CHANGES_def)
  have l: "log_ok a_flushed" "seq_fits a_flushed"
    using sample_nodes_ok(1) by (simp_all add: node_ok_def seq_fits_def c)
  have f: "flush_local toy_node_env (nd_db ?N) = (Inr [], a_flushed)" by (simp add: flush_local_def c)
  have r: "replicate_data (nd_cfg ?N)" by (simp add: screening_node_def toy_node_def toy_config_def)
  have "chunks 200 [a_record] = [[a_record]]" by (simp add: chunks.simps)
  then show ?thesis
    using flush_announces_a_page [OF r f l u]
    by (simp add: chunk_acts_def replicating_peers_def screening_node_def toy_node_def toy_enrollment_def
        readonly_peer_def toy_node_env_def env.defs crypto.defs toy_env_def toy_crypto_def changes_topic_def)
qed

text \<open>C29: Once nothing is staged, a number of flushes that covers the unannounced records in pages of 500
  empties the outbox, and by then every peer that replicates has been sent each of these records exactly
  once, in the order of the log.\<close>

theorem repeated_flushes_drain_the_outbox:
  assumes "settled N" "p \<in> set (replicating_peers N)" "length (pending (nd_db N)) \<le> n * 500"
  shows "pending (nd_db ((flush_and_push E ^^ n) N)) = []
    \<and> (\<exists>as. acts ((flush_and_push E ^^ n) N) = acts N @ as
         \<and> List.map (stored_of 0) (pushed_to p as) = List.map content (pending (nd_db N)))"
  using drain_rounds [OF assms(1,2), of n E] assms(3) by simp

theorem repeated_flushes_drain_the_outbox_witness:
  "\<exists>as. acts ((flush_and_push toy_node_env ^^ 1) (screening_node\<lparr>nd_db := a_flushed\<rparr>)) = as
     \<and> List.map (stored_of 0) (pushed_to (toy_public [4]) as) = [content (stored_of 1 a_record)]"
proof -
  let ?N = "screening_node\<lparr>nd_db := a_flushed\<rparr>"
  have c: "changes a_flushed = [stored_of 1 a_record]" "local_ops a_flushed = []" "meta a_flushed = []"
    "device_id a_flushed = ''a''" by (simp_all add: sample_states)
  then have p: "pending a_flushed = [stored_of 1 a_record]"
    by (simp add: watermark_def get_meta_def pending_def a_record_def)
  have "decode_change (stored_of 1 a_record) = Inr a_record"
    by (simp add: decode_change_stored_of a_record_def value_ok_def)
  then have "settled ?N"
    using sample_nodes_ok(1)
    by (simp add: settled_def p c node_ok_def seq_fits_def screening_node_def toy_node_def toy_config_def)
  moreover have "toy_public [4] \<in> set (replicating_peers ?N)"
    by (simp add: replicating_peers_def screening_node_def readonly_peer_def)
  moreover have "acts ?N = []" by (simp add: screening_node_def toy_node_def)
  ultimately show ?thesis
    using repeated_flushes_drain_the_outbox [of ?N "toy_public [4]" 1 toy_node_env] by (simp add: p del: funpow.simps)
qed

section \<open>Limits of the protocol\<close>

text \<open>C40: A page made only of records the node screens is asked for again, word for word: neither the
  replica nor its version vector moves, so against a peer whose next 500 missing records are of a
  read-only author the pull never gets past them.\<close>

theorem screened_page_is_requested_again:
  assumes "\<forall>c\<in>set chs. cr_origin c \<in> set (readonly_origins N)" "replicate_data (nd_cfg N)"
    "tbl_get (authed N) p = Some i" "ap_replicates i" "version_vector (nd_db N) = Inr vv"
  shows "node_step E (Swarm (Response p (SyncResp chs True))) N =
    act (SendReq p (SyncReq vv (word_of_nat MAX_SYNC_CHANGES))) N"
proof -
  have "List.filter (\<lambda>c. cr_origin c \<notin> set (readonly_origins N)) chs = []"
    using assms(1) by (simp add: filter_empty_conv)
  moreover have "apply_remote E [] d = (no_outcome, d)" for d
    by (simp add: apply_remote_def no_outcome_def)
  ultimately have "chs \<noteq> [] \<Longrightarrow> snd (node_apply E p chs N) = N"
    using assms(1) by (cases chs) (simp_all add: node_apply_def no_outcome_def)
  then show ?thesis using assms(2-5) by (simp add: request_sync_def)
qed

theorem screened_page_is_requested_again_witness:
  "node_step toy_node_env (Swarm (Response (toy_public [4])
       (SyncResp [a_record\<lparr>cr_origin := peer_text toy_node_env (toy_public [4])\<rparr>] True))) screening_node =
     act (SendReq (toy_public [4]) (SyncReq [] 500)) screening_node"
proof -
  have "version_vector (nd_db screening_node) = Inr []"
    by (simp add: screening_node_def toy_node_def small_def notes_file_def empty_file_def replica_file.defs
        version_vector_def)
  moreover have "replicate_data (nd_cfg screening_node)"
    "tbl_get (authed screening_node) (toy_public [4]) = Some readonly_peer" "ap_replicates readonly_peer"
    "set (readonly_origins screening_node) = {peer_text toy_node_env (toy_public [4])}"
    by (simp_all add: screening_node_def toy_node_def toy_config_def readonly_peer_def)
  ultimately show ?thesis
    using screened_page_is_requested_again [of "[a_record\<lparr>cr_origin := peer_text toy_node_env (toy_public [4])\<rparr>]"
        screening_node "toy_public [4]" readonly_peer "[]" toy_node_env]
    by (simp add: MAX_SYNC_CHANGES_def)
qed

text \<open>Only the closing of its last connection ends the standing of a peer.  In particular a node that
  learns of a revocation refuses the next greeting of the revoked device but keeps treating it as
  authenticated while it stays connected.\<close>

theorem only_disconnection_ends_standing:
  assumes "is_authed N q" "Swarm (ConnectionClosed q 0) \<notin> set is"
  shows "is_authed (fold (node_step E) is N) q"
  using assms
proof (induction "is" arbitrary: N)
  case (Cons i "is")
  then have "is_authed (node_step E i N) q" using step_keeps_authed [of N q i E] by fastforce
  with Cons show ?case by simp
qed simp

theorem only_disconnection_ends_standing_witness:
  "let M = node_step toy_node_env (Swarm (Request (toy_public [3])
             (HelloReq PROTOCOL_VERSION (toy_cert 3 Member) revoking_list True))) screening_node
   in is_authed M (toy_public [4]) \<and> is_revoked (en_crl (nd_enrollment M)) (serial (claims (toy_cert 4 ReadOnly)))"
proof -
  let ?i = "Swarm (Request (toy_public [3]) (HelloReq PROTOCOL_VERSION (toy_cert 3 Member) revoking_list True))"
  have "is_authed screening_node (toy_public [4])" by (simp add: is_authed_def screening_node_def)
  then have "is_authed (fold (node_step toy_node_env) [?i] screening_node) (toy_public [4])"
    by (rule only_disconnection_ends_standing) simp
  moreover have "snd (merge_crl toy_node_env revoking_list toy_enrollment) = toy_enrollment\<lparr>en_crl := revoking_list\<rparr>"
    using sign_crl_verifies [OF toy_node_env_laws, of "[1]" "[4]" 9]
    by (simp add: merge_crl_def toy_enrollment_def crl_empty_def revoking_list_def sign_crl_simps)
  moreover have "nd_enrollment screening_node = toy_enrollment" by (simp add: screening_node_def toy_node_def)
  ultimately show ?thesis
    using hello_enrollment [of toy_node_env "toy_public [3]" "toy_cert 3 Member" revoking_list True screening_node]
    by (simp add: Let_def revoking_list_def is_revoked_sign_crl toy_cert_simps del: node_step.simps)
qed

text \<open>A refusal outlives its connection: only an answer that was sent clears the mark.  If the connection
  breaks before that, the first answer to a later greeting, accepted or not, ends the new connection.\<close>

theorem refusal_outlives_connection:
  assumes "tbl_get (deny N) p \<noteq> None" "Swarm (ResponseSent p) \<notin> set is"
  shows "last (acts (node_step E (Swarm (ResponseSent p)) (fold (node_step E) is N))) = Disconnect p"
  using run_keeps_deny [OF assms, of E] by (auto simp: on_response_sent_def reject_peer_def)

theorem refusal_outlives_connection_witness:
  "last (acts (node_step toy_node_env (Swarm (ResponseSent (toy_public [3])))
      (fold (node_step toy_node_env) [Swarm (ConnectionClosed (toy_public [3]) 0), hello_from 3 Member]
         (toy_node\<lparr>deny := [(toy_public [3], ''certificate has been revoked'')]\<rparr>)))) = Disconnect (toy_public [3])"
  by (rule refusal_outlives_connection) (simp_all add: hello_from_def)

end
