(* ===== verification/Organisation.thy ===== *)
theory Organisation
  imports Gate Network Syncing
begin

text \<open>
  An organisation of running nodes.  Each member is a \<open>node\<close> of the runtime with its replica; what the
  nodes ask of the network ends up on \<open>wire\<close>.  A node may be handed any input whatever: late, repeated,
  misdirected, made up, or from an outsider with a key of its own.  \<open>D\<close> are the devices of the
  organisation; all that is assumed of an input is that nobody but such a device signs in its name, so that
  a record which names it and verifies was once on the wire (\<open>unforged\<close>).  Every such system is a network
  of replicas in the sense of \<open>Network\<close>, so that the theorems on replicas hold of the nodes that run.
\<close>

section \<open>Records in transit\<close>

text \<open>The records an action hands to the network, and those an input brings to a node.\<close>

fun carried :: "'a node_env_scheme \<Rightarrow> action \<Rightarrow> change_record list" where
  "carried E (SendReq p (PushReq chs)) = chs"
| "carried E (SendResp p (SyncResp chs rest)) = chs"
| "carried E (Publish topic data) = (case broadcast_decode E data of None \<Rightarrow> [] | Some chs \<Rightarrow> chs)"
| "carried E a = []"

fun arriving :: "'a node_env_scheme \<Rightarrow> input \<Rightarrow> change_record list" where
  "arriving E (Swarm (Request p (PushReq chs))) = chs"
| "arriving E (Swarm (Response p (SyncResp chs rest))) = chs"
| "arriving E (Swarm (Gossip p data)) = (case broadcast_decode E data of None \<Rightarrow> [] | Some chs \<Rightarrow> chs)"
| "arriving E i = []"

text \<open>What one node encodes for the topic, every node decodes to the same records.\<close>

definition codec_agrees :: "'a node_env_scheme set \<Rightarrow> bool" where
  "codec_agrees Es \<longleftrightarrow> (\<forall>E\<in>Es. \<forall>E'\<in>Es. \<forall>chs b.
     broadcast_encode E chs = Some b \<longrightarrow> broadcast_decode E' b = Some chs)"

section \<open>The system\<close>

record organisation =
  members :: "(string \<times> node) list"
  wire :: "action list"

definition set_member :: "string \<Rightarrow> node \<Rightarrow> organisation \<Rightarrow> organisation" where
  "set_member dev n G = G\<lparr>members := tbl_put dev n (members G)\<rparr>"

definition founded :: organisation where
  "founded = \<lparr>members = [], wire = []\<rparr>"

text \<open>Every record a node ever handed to the network.\<close>

definition published :: "'a node_env_scheme \<Rightarrow> organisation \<Rightarrow> change_record set" where
  "published E G = (\<Union>a\<in>set (wire G). set (carried E a))"

text \<open>
  \<open>App\<close> is a statement on another connection to the file, whose edits the node's next flush finds staged;
  \<open>Execute\<close> is \<open>Db::execute\<close>, by which the clients write, with its own flush; \<open>Call\<close> any other call on the
  handle.  A turn, like \<open>Execute\<close>, starts with a clock that has stamps left for one flush.
\<close>

inductive org_step :: "'a node_env_scheme set \<Rightarrow> string set \<Rightarrow> organisation \<Rightarrow> organisation \<Rightarrow> bool" for Es D where
  Boot: "\<lbrakk>dev \<in> D; tbl_get (members G) dev = None; unused file; E \<in> Es; open_file E file dev key = Inr d0;
     device_id d0 = dev; (bookkeep E)\<^sup>*\<^sup>* d0 d; spawn E cfg sk enr d now = Inr n\<rbrakk>
     \<Longrightarrow> org_step Es D G (set_member dev n G)"
| Reboot: "\<lbrakk>tbl_get (members G) dev = Some n0; E \<in> Es;
     open_file E (replica_file.truncate (nd_db n0)) dev key = Inr d0;
     device_id d0 = dev; (bookkeep E)\<^sup>*\<^sup>* d0 d; spawn E cfg sk enr d now = Inr n\<rbrakk>
     \<Longrightarrow> org_step Es D G (set_member dev n G)"
| Listen: "\<lbrakk>tbl_get (members G) dev = Some n0; E \<in> Es; start_listening E n0 = (res, n);
     acts n = acts n0 @ as\<rbrakk>
     \<Longrightarrow> org_step Es D G ((set_member dev n G)\<lparr>wire := wire G @ as\<rparr>)"
| App: "\<lbrakk>tbl_get (members G) dev = Some n0; E \<in> Es; apply_writes E ws (nd_db n0) = Inr d\<rbrakk>
     \<Longrightarrow> org_step Es D G (set_member dev (n0\<lparr>nd_db := d\<rparr>) G)"
| Execute: "\<lbrakk>tbl_get (members G) dev = Some n0; E \<in> Es;
     \<forall>d1. apply_writes E ws (nd_db n0) = Inr d1 \<longrightarrow> clock_room (flush_budget d1) (clock d1);
     execute E ws (nd_db n0) = (res, d)\<rbrakk>
     \<Longrightarrow> org_step Es D G (set_member dev (n0\<lparr>nd_db := d\<rparr>) G)"
| Call: "\<lbrakk>tbl_get (members G) dev = Some n0; E \<in> Es; bookkeep E (nd_db n0) d\<rbrakk>
     \<Longrightarrow> org_step Es D G (set_member dev (n0\<lparr>nd_db := d\<rparr>) G)"
| Turn: "\<lbrakk>tbl_get (members G) dev = Some n0; E \<in> Es;
     unforged E D (published E G) (nd_db n0) (arriving E i);
     clock_room (flush_budget (nd_db n0)) (clock (nd_db n0)); n = node_step E i n0;
     acts n = acts n0 @ as\<rbrakk>
     \<Longrightarrow> org_step Es D G ((set_member dev n G)\<lparr>wire := wire G @ as\<rparr>)"

inductive org_reachable :: "'a node_env_scheme set \<Rightarrow> string set \<Rightarrow> organisation \<Rightarrow> bool" for Es D where
  Founded: "org_reachable Es D founded"
| Step: "org_reachable Es D G \<Longrightarrow> org_step Es D G H \<Longrightarrow> org_reachable Es D H"

section \<open>A turn of a node is a run of its replica\<close>

inductive db_calls ::
  "'x env_scheme \<Rightarrow> string set \<Rightarrow> change_record set \<Rightarrow> db \<Rightarrow> change_record list \<Rightarrow> db \<Rightarrow> bool" for E D K where
  Done: "db_calls E D K d [] d"
| Kept: "bookkeep E d d1 \<Longrightarrow> db_calls E D K d1 out d2 \<Longrightarrow> db_calls E D K d out d2"
| Applied: "unforged E D K d rs \<Longrightarrow> apply_remote E rs d = (res, d1) \<Longrightarrow> db_calls E D K d1 out d2
     \<Longrightarrow> db_calls E D K d out d2"
| Written: "apply_writes E ws d = Inr d1 \<Longrightarrow> db_calls E D K d1 out d2 \<Longrightarrow> db_calls E D K d out d2"
| Flushed: "clock_room (flush_budget d) (clock d) \<Longrightarrow> flush_local E d = (Inr rs, d1)
     \<Longrightarrow> db_calls E D K d1 out d2 \<Longrightarrow> db_calls E D K d (rs @ out) d2"
| Failed: "flush_local E d = (Inl e, d1) \<Longrightarrow> db_calls E D K d1 out d2 \<Longrightarrow> db_calls E D K d out d2"

text \<open>Calls on one replica of a network are steps of the network.\<close>

definition moved :: "network \<Rightarrow> string \<Rightarrow> db \<Rightarrow> network \<Rightarrow> bool" where
  "moved R dev d S \<longleftrightarrow> (\<forall>x. tbl_get (nodes S) x = (if x = dev then Some d else tbl_get (nodes R) x))
     \<and> set (sent R) \<subseteq> set (sent S)"

lemma moved_trans: "moved R dev d S \<Longrightarrow> moved S dev e T \<Longrightarrow> moved R dev e T"
  by (auto simp: moved_def)

lemma moved_refl: "tbl_get (nodes R) dev = Some d \<Longrightarrow> moved R dev d R"
  by (simp add: moved_def)

lemma moved_get: "moved R dev d S \<Longrightarrow> tbl_get (nodes S) dev = Some d"
  by (simp add: moved_def)

lemma moved_set_node: "moved R dev d (send rs (set_node dev d R))" "moved R dev d (set_node dev d R)"
  by (auto simp: moved_def set_node_def send_def tbl_get_put)

lemma moved_then:
  assumes "reachable Es D S" "moved R dev d S" "K \<subseteq> set (sent R)"
    "\<And>S. reachable Es D S \<Longrightarrow> tbl_get (nodes S) dev = Some d \<Longrightarrow> K \<subseteq> set (sent S)
       \<Longrightarrow> \<exists>T. reachable Es D T \<and> moved S dev e T"
  shows "\<exists>T. reachable Es D T \<and> moved R dev e T"
proof -
  have "K \<subseteq> set (sent S)" using assms(2,3) by (auto simp: moved_def)
  from assms(4) [OF assms(1) moved_get [OF assms(2)] this] moved_trans [OF assms(2)]
  show ?thesis by blast
qed

lemma db_calls_moved:
  assumes "db_calls E D K d out d'" "E \<in> Es" "reachable Es D R" "tbl_get (nodes R) dev = Some d"
    "K \<subseteq> set (sent R)"
  shows "\<exists>S. reachable Es D S \<and> moved R dev d' S"
  using assms
proof (induction arbitrary: R rule: db_calls.induct)
  case (Done d)
  then show ?case using moved_refl by blast
next
  case (Kept d d1 out d2)
  have "reachable Es D (set_node dev d1 R)"
    using Kept.prems Kept.hyps(1) by (blast intro: reachable.Step net_step.Bookkeep)
  from moved_then [OF this moved_set_node(2) Kept.prems(4) Kept.IH [OF Kept.prems(1)]] show ?case .
next
  case (Applied d rs res d1 out d2)
  have "unforged E D (set (sent R)) d rs" using Applied.hyps(1) Applied.prems(4) by (rule unforged_mono)
  then have "reachable Es D (set_node dev d1 R)"
    using Applied.prems Applied.hyps(2) by (blast intro: reachable.Step net_step.Deliver)
  from moved_then [OF this moved_set_node(2) Applied.prems(4) Applied.IH [OF Applied.prems(1)]] show ?case .
next
  case (Written ws d d1 out d2)
  have "reachable Es D (set_node dev d1 R)"
    using Written.prems Written.hyps(1) by (blast intro: reachable.Step net_step.Write)
  from moved_then [OF this moved_set_node(2) Written.prems(4) Written.IH [OF Written.prems(1)]] show ?case .
next
  case (Flushed d rs d1 out d2)
  have "reachable Es D (send rs (set_node dev d1 R))"
    using Flushed.prems Flushed.hyps(1,2) by (blast intro: reachable.Step net_step.Flush)
  from moved_then [OF this moved_set_node(1) Flushed.prems(4) Flushed.IH [OF Flushed.prems(1)]] show ?case .
next
  case (Failed d e d1 out d2)
  have "reachable Es D (set_node dev d1 R)"
    using Failed.prems Failed.hyps(1) by (blast intro: reachable.Step net_step.Flush_failed)
  from moved_then [OF this moved_set_node(2) Failed.prems(4) Failed.IH [OF Failed.prems(1)]] show ?case .
qed

lemma kept_calls: "(bookkeep E)\<^sup>*\<^sup>* d d' \<Longrightarrow> db_calls E D K d [] d'"
  by (induction rule: converse_rtranclp_induct) (auto intro: db_calls.intros)

lemma bookkeep_moved:
  assumes "(bookkeep E)\<^sup>*\<^sup>* d d'" "E \<in> Es" "reachable Es D R" "tbl_get (nodes R) dev = Some d"
  shows "\<exists>S. reachable Es D S \<and> moved R dev d' S"
  using db_calls_moved [OF kept_calls [OF assms(1), of D "{}"] assms(2-4)] by simp

text \<open>
  A turn: the replica moves by such calls, and every record the node hands to the network stands in the
  log it ends with.
\<close>

definition listed :: "db \<Rightarrow> change_record \<Rightarrow> bool" where
  "listed d r \<longleftrightarrow> stored_of 0 r \<in> content ` set (changes d)"

fun backs :: "'a node_env_scheme \<Rightarrow> db \<Rightarrow> action \<Rightarrow> bool" where
  "backs E d (SendReq p (PushReq chs)) \<longleftrightarrow> list_all (listed d) chs"
| "backs E d (SendResp p (SyncResp chs rest)) \<longleftrightarrow> list_all (listed d) chs"
| "backs E d (Publish topic b) \<longleftrightarrow> (\<exists>chs. broadcast_encode E chs = Some b \<and> list_all (listed d) chs)"
| "backs E d a \<longleftrightarrow> True"

definition turned :: "'a node_env_scheme \<Rightarrow> string set \<Rightarrow> change_record set \<Rightarrow> node \<Rightarrow> node \<Rightarrow> bool" where
  "turned E D K N M \<longleftrightarrow> (\<exists>out. db_calls E D K (nd_db N) out (nd_db M))
     \<and> (\<exists>as. acts M = acts N @ as \<and> list_all (backs E (nd_db M)) as)"

lemma turned_refl [simp]: "turned E D K N N"
  by (auto simp: turned_def intro: db_calls.Done)

lemma turned_acts:
  assumes "turned E D K N M" "nd_db L = nd_db M" "acts L = acts M @ as" "list_all (backs E (nd_db M)) as"
  shows "turned E D K N L"
  using assms by (auto simp: turned_def)

lemma turned_act: "turned E D K N M \<Longrightarrow> backs E (nd_db M) a \<Longrightarrow> turned E D K N (act a M)"
  by (rule turned_acts [of E D K N M "act a M" "[a]"]) simp_all

lemma turned_same: "nd_db M = nd_db N \<Longrightarrow> acts M = acts N \<Longrightarrow> turned E D K N M"
  using turned_acts [of E D K N N M "[]"] by simp

lemma turned_hello: "turned E D K N M \<Longrightarrow> turned E D K N (act (SendResp p (hello_resp L)) M)"
  by (rule turned_act) (simp_all add: hello_resp_def our_hello_def)

lemma turned_request_sync: "turned E D K N M \<Longrightarrow> turned E D K N (request_sync E p M)"
  by (auto simp: request_sync_def intro: turned_act split: sum.split)

lemma turned_fold:
  "(\<And>x M. turned E D K N M \<Longrightarrow> turned E D K N (f x M)) \<Longrightarrow> turned E D K N M \<Longrightarrow> turned E D K N (fold f xs M)"
  by (induction xs arbitrary: M) simp_all

lemma turned_request_all: "turned E D K N (request_sync_from_all E N)"
  by (simp add: request_sync_from_all_def turned_fold turned_request_sync)

lemma kept_now: "(bookkeep E)\<^sup>*\<^sup>* d (nd_db N) \<Longrightarrow> (bookkeep E)\<^sup>*\<^sup>* d (nd_db (snd (node_now E N)))"
  by (auto simp: node_now_eq intro: rtranclp.rtrancl_into_rtrancl bookkeep.Read)

lemma accept_peer_kept: "(bookkeep E)\<^sup>*\<^sup>* (nd_db N) (nd_db (snd (accept_peer E p cert crl rep N)))"
proof -
  have read: "(bookkeep E)\<^sup>*\<^sup>* d (e\<lparr>clock := (clock e)\<lparr>reads := n\<rparr>\<rparr>)" if "(bookkeep E)\<^sup>*\<^sup>* d e" for d e n
    using that by (rule rtranclp.rtrancl_into_rtrancl) (rule bookkeep.Read)
  have peer: "(bookkeep E)\<^sup>*\<^sup>* d (record_peer q u n rl ser cj w e)" if "(bookkeep E)\<^sup>*\<^sup>* d e"
    for d e q u n rl ser cj w
    using that by (rule rtranclp.rtrancl_into_rtrancl) (rule bookkeep.Peer)
  have meta: "(bookkeep E)\<^sup>*\<^sup>* d (set_meta k v d)" for d k v
    by (rule r_into_rtranclp) (rule bookkeep.Meta)
  note kept = read peer meta
  show ?thesis
    by (auto simp: accept_peer_def Let_def node_now_eq split_beta save_enrollment_def intro!: kept split: sum.split)
qed

lemma turned_accept: "turned E D K N (snd (accept_peer E p cert crl rep N))"
proof -
  have calls: "\<exists>out. db_calls E D K (nd_db N) out (nd_db (snd (accept_peer E p cert crl rep N)))"
    using kept_calls [OF accept_peer_kept] by blast
  have "\<exists>as. acts (snd (accept_peer E p cert crl rep N)) = acts N @ as
      \<and> list_all (backs E d) as" for d
    by (auto simp: accept_peer_def Let_def node_now_eq split_beta split: sum.split)
  with calls show ?thesis by (simp add: turned_def)
qed

lemma turned_apply:
  assumes "unforged E D K (nd_db N) chs"
  shows "turned E D K N (snd (node_apply E p chs N))"
proof -
  let ?kept = "List.filter (\<lambda>c. cr_origin c \<notin> set (readonly_origins N)) chs"
  have "unforged E D K (nd_db N) ?kept" by (rule unforged_sub [OF assms]) auto
  then have "db_calls E D K (nd_db N) [] (nd_db (snd (node_apply E p chs N)))"
    unfolding node_apply_db by (rule db_calls.Applied [OF _ prod.collapse [symmetric] db_calls.Done])
  moreover have "\<exists>as. acts (snd (node_apply E p chs N)) = acts N @ as \<and> list_all (backs E d) as" for d
    by (auto simp: node_apply_def Let_def split: prod.split)
  ultimately show ?thesis unfolding turned_def by blast
qed

lemma served_listed:
  "log_ok d \<Longrightarrow> changes_since d vv limit = Inr rs \<Longrightarrow> list_all (listed d) rs"
  using changes_since_rows [of d vv limit rs] by (simp add: list_all_iff listed_def log_ok_def)

lemma unbroadcast_listed:
  assumes "log_ok d" "unbroadcast_local d limit = Inr (rs, high)"
  shows "list_all (listed d) rs"
proof -
  let ?rows = "take limit (pending d)"
  have sub: "set ?rows \<subseteq> set (changes d)" by (auto dest!: in_set_takeD simp: pending_def)
  have "decode_changes ?rows = Inr rs"
    using assms(2) by (auto simp: unbroadcast_local_def unbroadcast_rows_pending Let_def split: sum.splits)
  moreover have "\<forall>c\<in>set ?rows. decodable c"
    using sub assms(1) by (auto simp: log_ok_def data_ok_def rows_ok_def)
  ultimately have "List.map content ?rows = List.map (stored_of 0) rs" by (rule decode_changes_rows)
  then have "content ` set ?rows = stored_of 0 ` set rs" by (metis list.set_map)
  with sub have "stored_of 0 ` set rs \<subseteq> content ` set (changes d)" by (metis image_mono)
  then show ?thesis by (auto simp: list_all_iff listed_def)
qed

lemma backs_broadcast:
  assumes "list_all (listed d) chs"
  shows "\<exists>as. acts (broadcast E chs N) = acts N @ as \<and> list_all (backs E d) as"
proof -
  have "list_all (backs E d) (chunk_acts E topic ps c)" if "set c \<subseteq> set chs" for topic ps c
  proof -
    have "list_all (listed d) c" using assms that by (auto simp: list_all_iff)
    then show ?thesis by (auto simp: chunk_acts_def list.pred_map comp_def list.pred_True split: option.split)
  qed
  moreover have "set c \<subseteq> set chs" if "c \<in> set (chunks MAX_PUSH_CHANGES chs)" for c
  proof -
    have "set c \<subseteq> set (concat (chunks MAX_PUSH_CHANGES chs))" using that by auto
    then show ?thesis by (simp add: concat_chunks MAX_PUSH_CHANGES_def)
  qed
  ultimately have "list_all (backs E d) (chunk_acts E topic ps c)"
    if "c \<in> set (chunks MAX_PUSH_CHANGES chs)" for topic ps c
    using that by blast
  then have "list_all (backs E d) (concat (List.map (chunk_acts E topic ps) (chunks MAX_PUSH_CHANGES chs)))" for topic ps
    unfolding list_all_iff by simp
  then show ?thesis by (simp add: broadcast_eq)
qed

lemma turned_flush:
  assumes "node_ok (nd_db N)" "clock_room (flush_budget (nd_db N)) (clock (nd_db N))"
  shows "turned E D K N (flush_and_push E N)"
proof (cases "replicate_data (nd_cfg N)")
  case on: True
  obtain res d where fl: "flush_local E (nd_db N) = (res, d)" by fastforce
  show ?thesis
  proof (cases res)
    case (Inl e)
    have "turned E D K N (N\<lparr>nd_db := d\<rparr>)"
      using db_calls.Failed [OF fl [unfolded Inl] db_calls.Done] by (auto simp: turned_def)
    with on fl Inl show ?thesis by (simp add: flush_and_push_def turned_act)
  next
    case (Inr out)
    have ok: "log_ok d"
      using flush_local_ok(1) [of "nd_db N" E out d] assms fl Inr by (simp add: node_ok_def flushed_def)
    have call: "\<exists>out. db_calls E D K (nd_db N) out e" if "db_calls E D K d [] e" for e
      using db_calls.Flushed [OF assms(2) fl [unfolded Inr] that] by blast
    have "turned E D K N (N\<lparr>nd_db := d\<rparr>)" using call [OF db_calls.Done] by (auto simp: turned_def)
    moreover have "turned E D K N ((broadcast E chs (act (Emit (LocalChanges n)) (N\<lparr>nd_db := d\<rparr>)))\<lparr>nd_db := mark_broadcast high d\<rparr>)"
      if "unbroadcast_local d MAX_SYNC_CHANGES = Inr (chs, high)" for chs high n
    proof -
      have "db_calls E D K d [] (mark_broadcast high d)"
        by (rule db_calls.Kept [OF bookkeep.Mark db_calls.Done])
      note c = call [OF this]
      have "list_all (listed (mark_broadcast high d)) chs"
        using unbroadcast_listed [OF ok that] by (simp add: listed_def list_all_iff)
      from backs_broadcast [OF this, of E "act (Emit (LocalChanges n)) (N\<lparr>nd_db := d\<rparr>)"] c
      show ?thesis by (auto simp: turned_def)
    qed
    ultimately show ?thesis
      using on fl Inr by (auto simp: flush_and_push_def Let_def intro: turned_act split: sum.split)
  qed
qed (simp add: flush_and_push_def)

lemma turned_answer:
  assumes "log_ok (nd_db N)" "\<And>chs. r = PushReq chs \<Longrightarrow> unforged E D K (nd_db N) chs"
  shows "turned E D K N (on_request E p r N)"
proof (cases r)
  case (HelloReq v cert crl rep)
  obtain res M where acc: "accept_peer E p cert crl rep N = (res, M)" by fastforce
  have M: "turned E D K N M" using turned_accept [of E D K N p cert crl rep] acc by simp
  then have "turned E D K N (M\<lparr>deny := x\<rparr>)" for x
    by (rule turned_acts [where as = "[]"]) simp_all
  moreover have "turned E D K N (N\<lparr>deny := x\<rparr>)" for x by (rule turned_same) simp_all
  ultimately show ?thesis
    using M HelloReq acc by (auto simp: on_request_def refuse_def intro: turned_act turned_hello split: sum.split)
next
  case (SyncReq vv lim)
  then show ?thesis
    using served_listed [OF assms(1)]
    by (auto simp: on_request_def Let_def intro!: turned_act split: sum.split)
next
  case (PushReq chs)
  then show ?thesis
    using turned_apply [OF assms(2) [OF PushReq], of p]
    by (auto simp: on_request_def intro: turned_act split: prod.split)
qed

lemma turned_response:
  assumes "\<And>chs rest. r = SyncResp chs rest \<Longrightarrow> unforged E D K (nd_db N) chs"
  shows "turned E D K N (on_response E p r N)"
proof (cases r)
  case (HelloResp v cert crl rep)
  obtain res M where acc: "accept_peer E p cert crl rep N = (res, M)" by fastforce
  have "turned E D K N M" using turned_accept [of E D K N p cert crl rep] acc by simp
  then show ?thesis
    using HelloResp acc by (auto simp: reject_peer_def intro!: turned_act turned_request_sync split: sum.split)
next
  case (SyncResp chs rest)
  then show ?thesis
    using turned_apply [OF assms [OF SyncResp], of p] by (auto simp: Let_def intro: turned_request_sync)
qed (auto simp: reject_peer_def intro!: turned_act)

lemma turned_step:
  assumes "node_ok (nd_db N)" "clock_room (flush_budget (nd_db N)) (clock (nd_db N))"
    "unforged E D K (nd_db N) (arriving E i)"
  shows "turned E D K N (node_step E i N)"
proof (cases i)
  case (Swarm ev)
  have log: "log_ok (nd_db N)" using assms(1) by (simp add: node_ok_def)
  show ?thesis
  proof (cases ev)
    case (ConnectionEstablished p)
    have "turned E D K N (N\<lparr>greeted := g\<rparr>)" for g by (rule turned_same) simp_all
    then have "turned E D K N (act (SendReq p (hello_req L)) (N\<lparr>greeted := g\<rparr>))" for g L
      by (rule turned_act) (simp add: hello_req_def our_hello_def)
    with Swarm ConnectionEstablished show ?thesis by simp
  next
    case (ConnectionClosed p left)
    have "turned E D K N (N\<lparr>greeted := g, authed := a\<rparr>)" for g a by (rule turned_same) simp_all
    with Swarm ConnectionClosed show ?thesis by (auto simp: Let_def intro: turned_act)
  next
    case (Request p r)
    have "turned E D K N (on_request E p r N)"
      using assms(3) log by (intro turned_answer) (auto simp: Swarm Request)
    with Swarm Request show ?thesis by simp
  next
    case (Response p r)
    have "turned E D K N (on_response E p r N)"
      using assms(3) by (intro turned_response) (auto simp: Swarm Response)
    with Swarm Response show ?thesis by (simp del: on_response.simps)
  next
    case (ResponseSent p)
    have "turned E D K N (N\<lparr>deny := x\<rparr>)" for x by (rule turned_same) simp_all
    with Swarm ResponseSent show ?thesis
      by (auto simp: on_response_sent_def reject_peer_def intro!: turned_act split: option.split)
  next
    case (Gossip p data)
    have "turned E D K N (on_gossip E p data N)"
      using assms(3) by (auto simp: on_gossip_def Swarm Gossip intro!: turned_apply split: option.split)
    with Swarm Gossip show ?thesis by simp
  next
    case (Discovered ps)
    have "turned E D K N M \<Longrightarrow> turned E D K N (on_discovered ps M)" for M
      by (induction ps M rule: on_discovered.induct) (simp_all add: Let_def turned_act)
    with Swarm Discovered show ?thesis by simp
  next
    case (Identified p addrs)
    have "turned E D K N (fold (\<lambda>a. act (KadAdd p a)) addrs N)"
      by (rule turned_fold) (auto intro: turned_act)
    with Swarm Identified show ?thesis by simp
  next
    case (NewListenAddr a)
    have "turned E D K N (act (Emit ev) N)" for ev by (simp add: turned_act)
    then have "turned E D K N ((act (Emit ev) N)\<lparr>listen_addrs := l\<rparr>)" for ev l
      by (rule turned_acts [where as = "[]"]) simp_all
    with Swarm NewListenAddr show ?thesis by (auto simp: Let_def turned_act)
  next
    case (ExternalAddrConfirmed a)
    have "turned E D K N (N\<lparr>external_addrs := x\<rparr>)" for x by (rule turned_same) simp_all
    with Swarm ExternalAddrConfirmed show ?thesis by simp
  qed (simp add: Swarm)
next
  case (Cmd c)
  then show ?thesis
    using turned_flush [OF assms(1,2)]
    by (cases c) (auto simp: turned_request_all Let_def intro!: turned_act split: option.split)
qed (simp_all add: turned_flush assms turned_request_all)

lemma turned_listen: "turned E D K N M \<Longrightarrow> turned E D K N (snd (listen_all E as M))"
  by (induction E as M rule: listen_all.induct) (auto simp: Let_def turned_act split: option.split)

lemma turned_dial: "turned E D K N M \<Longrightarrow> turned E D K N (dial_bootstrap E a M)"
  by (auto simp: dial_bootstrap_def Let_def intro!: turned_act split: option.split prod.split)

lemma turned_start: "turned E D K N (snd (start_listening E N))"
proof (cases "listen_all E (cf_listen (nd_cfg N)) N")
  case (Pair res M)
  then have "turned E D K N M" using turned_listen [of E D K N N "cf_listen (nd_cfg N)"] by simp
  then show ?thesis
    using Pair by (auto simp: start_listening_def Let_def intro!: turned_fold turned_dial turned_act
        split: sum.split option.split)
qed

section \<open>The system is a network of replicas\<close>

definition shadows :: "'a node_env_scheme set \<Rightarrow> string set \<Rightarrow> organisation \<Rightarrow> network \<Rightarrow> bool" where
  "shadows Es D G R \<longleftrightarrow> reachable Es D R
     \<and> (\<forall>dev. tbl_get (nodes R) dev = map_option nd_db (tbl_get (members G) dev))
     \<and> (\<forall>E\<in>Es. \<forall>r\<in>published E G. cr_origin r \<in> D \<longrightarrow> r \<in> set (sent R))"

lemma shadows_get: "shadows Es D G R \<Longrightarrow> tbl_get (members G) dev = Some n \<Longrightarrow> tbl_get (nodes R) dev = Some (nd_db n)"
  by (simp add: shadows_def)

lemma shadows_moved:
  assumes "shadows Es D G R" "reachable Es D S" "moved R dev (nd_db n) S"
  shows "shadows Es D (set_member dev n G) S"
  using assms unfolding shadows_def moved_def set_member_def by (auto simp: tbl_get_put published_def)

lemma listed_sent:
  assumes "reachable Es D R" "tbl_get (nodes R) dev = Some d" "listed d r" "cr_origin r \<in> D"
  shows "r \<in> set (sent R)"
proof -
  have "stored_of 0 r \<in> own_rows D d" using assms(3,4) by (simp add: own_rows_iff listed_def)
  then have "stored_of 0 r \<in> stored_of 0 ` set (sent R)"
    using net_okD(3) [OF reachable_ok [OF assms(1)] assms(2)] by blast
  then show ?thesis by (auto simp: stored_of_inject)
qed

lemma backs_payload:
  assumes "codec_agrees Es" "E \<in> Es" "E' \<in> Es" "backs E d a"
  shows "\<forall>r\<in>set (carried E' a). listed d r"
proof (cases "(E, d, a)" rule: backs.cases)
  case (3 F d topic b)
  then show ?thesis using assms by (auto simp: codec_agrees_def list_all_iff)
qed (use assms(4) in \<open>auto simp: list_all_iff\<close>)

lemma shadows_turned:
  assumes "codec_agrees Es" "shadows Es D G R" "tbl_get (members G) dev = Some n0" "E \<in> Es"
    "turned E D K n0 n" "K \<subseteq> set (sent R)" "acts n = acts n0 @ as"
  shows "\<exists>S. shadows Es D ((set_member dev n G)\<lparr>wire := wire G @ as\<rparr>) S"
proof -
  obtain out where calls: "db_calls E D K (nd_db n0) out (nd_db n)" and b: "list_all (backs E (nd_db n)) as"
    using assms(5,7) by (auto simp: turned_def)
  obtain S where S: "reachable Es D S" "moved R dev (nd_db n) S"
    using db_calls_moved [OF calls assms(4) _ shadows_get [OF assms(2,3)] assms(6)] assms(2)
    by (auto simp: shadows_def)
  have sh: "shadows Es D (set_member dev n G) S" by (rule shadows_moved [OF assms(2) S])
  have "r \<in> set (sent S)" if "E' \<in> Es" "a \<in> set as" "r \<in> set (carried E' a)" "cr_origin r \<in> D" for E' a r
    using backs_payload [OF assms(1,4) that(1), of "nd_db n" a] b that(2-4)
      listed_sent [OF S(1) moved_get [OF S(2)]] by (auto simp: list_all_iff)
  with sh have "shadows Es D ((set_member dev n G)\<lparr>wire := wire G @ as\<rparr>) S"
    by (auto simp: shadows_def set_member_def published_def)
  then show ?thesis by blast
qed

lemma shadows_step:
  assumes "codec_agrees Es" "org_step Es D G H" "shadows Es D G R"
  shows "\<exists>S. shadows Es D H S"
  using assms(2)
proof cases
  case (Boot dev fl E key d0 d cfg sk enr now n)
  have none: "tbl_get (nodes R) dev = None" using Boot assms(3) by (simp add: shadows_def)
  have db: "nd_db n = d" using Boot(9) by (auto simp: spawn_ok)
  have "net_step Es D R (set_node dev d0 R)" using Boot(2) none Boot(4-7) by (rule net_step.Create)
  then have "reachable Es D (set_node dev d0 R)"
    using assms(3) by (auto simp: shadows_def intro: reachable.Step)
  from moved_then [OF this moved_set_node(2), of "{}" d] bookkeep_moved [OF Boot(8,5)] 
  obtain S where "reachable Es D S" "moved R dev d S" by auto
  with shadows_moved [OF assms(3)] db Boot(1) show ?thesis by blast
next
  case (Reboot dev n0 E key d0 d cfg sk enr now n)
  have db: "nd_db n = d" using Reboot(7) by (auto simp: spawn_ok)
  have "net_step Es D R (set_node dev d0 R)"
    using shadows_get [OF assms(3) Reboot(2)] Reboot(3-5) by (rule net_step.Restart)
  then have "reachable Es D (set_node dev d0 R)"
    using assms(3) by (auto simp: shadows_def intro: reachable.Step)
  from moved_then [OF this moved_set_node(2), of "{}" d] bookkeep_moved [OF Reboot(6,3)] 
  obtain S where "reachable Es D S" "moved R dev d S" by auto
  with shadows_moved [OF assms(3)] db Reboot(1) show ?thesis by blast
next
  case (Listen dev n0 E res n as)
  have "turned E D {} n0 n" using turned_start [of E D "{}" n0] Listen by simp
  from shadows_turned [OF assms(1,3) Listen(2,3) this _ Listen(5)] Listen(1) show ?thesis by simp
next
  case (App dev n0 E ws d)
  have "net_step Es D R (set_node dev d R)"
    using shadows_get [OF assms(3) App(2)] App(3,4) by (rule net_step.Write)
  then have "reachable Es D (set_node dev d R)"
    using assms(3) by (auto simp: shadows_def intro: reachable.Step)
  from shadows_moved [OF assms(3) this, of dev "n0\<lparr>nd_db := d\<rparr>"] moved_set_node(2) [of R dev d] App(1)
  show ?thesis by auto
next
  case (Execute dev n0 E ws res d)
  have "\<exists>out. db_calls E D {} (nd_db n0) out d"
  proof (cases "apply_writes E ws (nd_db n0)")
    case (Inl e)
    with Execute(5) have "d = nd_db n0" by (simp add: execute_def)
    then show ?thesis using db_calls.Done by blast
  next
    case (Inr d1)
    obtain x d2 where fl: "flush_local E d1 = (x, d2)" by fastforce
    with Execute(5) Inr have d: "d = d2" by (cases x) (simp_all add: execute_def)
    have room: "clock_room (flush_budget d1) (clock d1)" using Execute(4) Inr by blast
    have "\<exists>out. db_calls E D {} d1 out d2"
      using fl room by (cases x) (blast intro: db_calls.Done db_calls.Failed db_calls.Flushed)+
    then show ?thesis using db_calls.Written [OF Inr] d by blast
  qed
  then obtain out where "db_calls E D {} (nd_db n0) out d" by blast
  from db_calls_moved [OF this Execute(3) _ shadows_get [OF assms(3) Execute(2)]] assms(3)
  obtain S where S: "reachable Es D S" "moved R dev d S" by (auto simp: shadows_def)
  then show ?thesis using shadows_moved [OF assms(3) S(1), of dev "n0\<lparr>nd_db := d\<rparr>"] Execute(1) by auto
next
  case (Call dev n0 E d)
  have "net_step Es D R (set_node dev d R)"
    using shadows_get [OF assms(3) Call(2)] Call(3,4) by (rule net_step.Bookkeep)
  then have "reachable Es D (set_node dev d R)"
    using assms(3) by (auto simp: shadows_def intro: reachable.Step)
  from shadows_moved [OF assms(3) this, of dev "n0\<lparr>nd_db := d\<rparr>"] moved_set_node(2) [of R dev d] Call(1)
  show ?thesis by auto
next
  case (Turn dev n0 E i n as)
  have "node_ok (nd_db n0)"
    using net_okD(1) [OF reachable_ok shadows_get [OF assms(3) Turn(2)]] assms(3) by (auto simp: shadows_def)
  moreover have "unforged E D (set (sent R)) (nd_db n0) (arriving E i)"
    using Turn(3,4) assms(3) unfolding shadows_def unforged_def by blast
  ultimately have "turned E D (set (sent R)) n0 n" using turned_step Turn(5,6) by blast
  then show ?thesis
    using shadows_turned [OF assms(1,3) Turn(2,3)] Turn(1,7) by simp
qed

lemma org_reachable_shadow:
  assumes "codec_agrees Es" "org_reachable Es D G"
  shows "\<exists>R. shadows Es D G R"
  using assms(2)
proof (induction rule: org_reachable.induct)
  case Founded
  show ?case by (auto simp: shadows_def founded_def start_def published_def intro!: exI [of _ start] reachable.Start)
next
  case (Step G H)
  then show ?case using shadows_step [OF assms(1)] by blast
qed

end
