(* ===== verification/Conversations.thy ===== *)
theory Conversations
  imports Standing Syncing "HOL-Library.While_Combinator"
begin

text \<open>
  A conversation of two nodes over one connection: the node that was told of the connection greets, and
  every response it gets makes it ask again or stop.  The exchange of a request for its response is
  iterated until the asking node has nothing outstanding; that this happens, and that the replica has
  caught up by then, is shown with \<open>while_option\<close> and the number of records still missing.
\<close>

section \<open>Exchanges\<close>

text \<open>The request for \<open>p\<close> that a turn from \<open>N\<close> to \<open>M\<close> ends with.\<close>

definition last_request :: "peer_id \<Rightarrow> node \<Rightarrow> node \<Rightarrow> req option" where
  "last_request p N M =
     (case rev (drop (length (acts N)) (acts M)) of
        SendReq q r # _ \<Rightarrow> if q = p then Some r else None
      | _ \<Rightarrow> None)"

text \<open>The request travels to the other node, which answers it, and the answer travels back.\<close>

definition exchange ::
  "'a node_env_scheme \<Rightarrow> 'a node_env_scheme \<Rightarrow> node \<times> node \<times> req option \<Rightarrow> node \<times> node \<times> req option" where
  "exchange EA EB = (\<lambda>(A, B, out).
     case out of
       None \<Rightarrow> (A, B, None)
     | Some r \<Rightarrow>
         (let resp = fst (answer EB (nd_self A) r B);
              A' = node_step EA (Swarm (Response (nd_self B) resp)) A
          in (A', node_step EB (Swarm (Request (nd_self A) r)) B, last_request (nd_self B) A A')))"

definition converse ::
  "'a node_env_scheme \<Rightarrow> 'a node_env_scheme \<Rightarrow> node \<times> node \<times> req option \<Rightarrow> (node \<times> node \<times> req option) option" where
  "converse EA EB = while_option (\<lambda>(A, B, out). out \<noteq> None) (exchange EA EB)"

text \<open>The node \<open>A\<close> learns of its connection to \<open>B\<close>.\<close>

definition connected :: "'a node_env_scheme \<Rightarrow> node \<Rightarrow> node \<Rightarrow> node \<times> node \<times> req option" where
  "connected EA A B =
     (let A' = node_step EA (Swarm (ConnectionEstablished (nd_self B))) A
      in (A', B, last_request (nd_self B) A A'))"

lemma last_request_act:
  assumes "acts M = acts N @ as"
  shows "last_request p N (act (SendReq p r) M) = Some r" "last_request p N (act (Emit ev) M) = None"
  using assms by (simp_all add: last_request_def)

lemma last_request_none: "acts M = acts N \<Longrightarrow> last_request p N M = None"
  by (simp add: last_request_def)

section \<open>One page\<close>

text \<open>
  The state in which \<open>A\<close> pulls from \<open>B\<close>: both have accepted each other, \<open>B\<close> can serve its whole log,
  and \<open>A\<close> screens none of its authors.
\<close>

definition pulling :: "'a env_scheme \<Rightarrow> node \<Rightarrow> node \<Rightarrow> bool" where
  "pulling E A B \<longleftrightarrow> replicate_data (nd_cfg A) \<and> replicate_data (nd_cfg B) \<and> is_authed B (nd_self A)
     \<and> (\<exists>i. tbl_get (authed A) (nd_self B) = Some i \<and> ap_replicates i)
     \<and> log_ok (nd_db A) \<and> log_ok (nd_db B) \<and> no_gap (nd_db A) (nd_db B)
     \<and> servable E (require_signatures (nd_db A)) (nd_db B)
     \<and> (\<forall>c\<in>set (changes (nd_db B)). sc_origin c \<notin> set (readonly_origins A))"

lemma pulling_same:
  "pulling E A B \<Longrightarrow> same_peers A A' \<Longrightarrow> nd_db A' = nd_db A \<Longrightarrow> same_peers B B' \<Longrightarrow> nd_db B' = nd_db B
     \<Longrightarrow> pulling E A' B'"
  by (simp add: pulling_def same_peers_def is_authed_def)

lemma request_sync_asks:
  assumes "pulling E A B" "acts A = acts N @ as"
  shows "\<exists>vv. version_vector (nd_db A) = Inr vv
    \<and> last_request (nd_self B) N (request_sync E' (nd_self B) A) = Some (SyncReq vv 500)"
proof -
  obtain vv where vv: "version_vector (nd_db A) = Inr vv"
    using version_vector_spec [of "nd_db A"] assms(1) by (auto simp: pulling_def)
  then have "request_sync E' (nd_self B) A = act (SendReq (nd_self B) (SyncReq vv 500)) A"
    using assms(1) by (auto simp: request_sync_def pulling_def MAX_SYNC_CHANGES_def)
  with vv last_request_act(1) [OF assms(2)] show ?thesis by simp
qed

lemma decode_changes_length: "decode_changes cs = Inr rs \<Longrightarrow> length rs = length cs"
  by (induction cs arbitrary: rs) (auto split: sum.splits)

text \<open>The node takes in a page whose authors it does not screen.\<close>

lemma node_takes_page:
  assumes "\<forall>r\<in>set chs. cr_origin r \<notin> set (readonly_origins A)"
    and M: "M = (if chs \<noteq> [] then snd (node_apply E p chs A) else A)"
  shows "nd_db M = snd (apply_remote E chs (nd_db A))" "same_peers A M"
    "\<exists>as. acts M = acts A @ as" "last_request q A M = None"
proof -
  have "List.filter (\<lambda>c. cr_origin c \<notin> set (readonly_origins A)) chs = chs"
    using assms(1) by (simp add: filter_id_conv)
  moreover have "apply_remote E [] d = (no_outcome, d)" for d
    by (simp add: apply_remote_def no_outcome_def)
  ultimately show "nd_db M = snd (apply_remote E chs (nd_db A))" by (simp add: M node_apply_db)
  show "same_peers A M" by (simp add: M)
  have "acts M = acts A \<or> (\<exists>ev. acts M = acts A @ [Emit ev])"
    by (auto simp: M node_apply_def Let_def split: prod.split)
  then show "\<exists>as. acts M = acts A @ as" "last_request q A M = None" by (auto simp: last_request_def)
qed

lemma exchange_page:
  assumes "pulling EA A B" "version_vector (nd_db A) = Inr vv"
  shows "\<exists>A' B' out. exchange EA EB (A, B, Some (SyncReq vv 500)) = (A', B', out)
    \<and> pulling EA A' B' \<and> nd_db B' = nd_db B
    \<and> (\<exists>chs. nd_db A' = snd (apply_remote EA chs (nd_db A))
         \<and> stored_of 0 ` set chs \<subseteq> content ` set (changes (nd_db B)))
    \<and> unheld (nd_db A') (nd_db B) = drop 500 (unheld (nd_db A) (nd_db B))
    \<and> (if length (unheld (nd_db A) (nd_db B)) < 500 then out = None
       else \<exists>vv'. version_vector (nd_db A') = Inr vv' \<and> out = Some (SyncReq vv' 500))"
proof -
  let ?d = "nd_db A" and ?p = "nd_db B"
  have ok: "log_ok ?d" "log_ok ?p" "no_gap ?d ?p" "servable EA (require_signatures ?d) ?p"
    "is_authed B (nd_self A)" "replicate_data (nd_cfg B)"
    "\<forall>c\<in>set (changes ?p). sc_origin c \<notin> set (readonly_origins A)"
    using assms(1) by (simp_all add: pulling_def)
  obtain chs where chs: "changes_since ?p vv 500 = Inr chs" "\<forall>r\<in>set chs. admissible EA (require_signatures ?d) r"
    using changes_since_served [OF ok(4)] by blast
  have listed: "stored_of 0 ` set chs \<subseteq> content ` set (changes ?p)"
    using changes_since_rows [OF _ chs(1)] ok(2) by (auto simp: log_ok_def)
  have unscreened: "\<forall>r\<in>set chs. cr_origin r \<notin> set (readonly_origins A)"
  proof
    fix r assume "r \<in> set chs"
    then have "stored_of 0 r \<in> content ` set (changes ?p)" using listed by blast
    then obtain c where c: "c \<in> set (changes ?p)" "stored_of 0 r = content c" by blast
    from c(2) have "cr_origin r = sc_origin c" by (metis content_fields(7) sc_origin_stored_of)
    with c(1) ok(7) show "cr_origin r \<notin> set (readonly_origins A)" by simp
  qed
  have "missing_rows ?p vv = unheld ?d ?p"
    using missing_unheld [OF ok(1,3)] version_vector_spec [OF ok(1)] assms(2) by auto
  then have len: "length chs = min 500 (length (unheld ?d ?p))"
    using chs(1) decode_changes_length by (fastforce simp: changes_since_def)
  define full where "full \<longleftrightarrow> length chs = 500"
  have ans: "answer EB (nd_self A) (SyncReq vv 500) B = (SyncResp chs full, B)"
    using ok(5,6) chs(1) by (simp add: MAX_SYNC_CHANGES_def full_def)
  define M where "M = (if chs \<noteq> [] then snd (node_apply EA (nd_self B) chs A) else A)"
  note took = node_takes_page [OF unscreened M_def]
  note page = pull_page [OF ok(1-3) assms(2) chs took(1)]
  define A' where "A' = (if full then request_sync EA (nd_self B) M else M)"
  have A': "node_step EA (Swarm (Response (nd_self B) (SyncResp chs full))) A = A'"
    by (simp add: A'_def M_def Let_def)
  define B' where "B' = act (SendResp (nd_self A) (SyncResp chs full)) B"
  have B': "node_step EB (Swarm (Request (nd_self A) (SyncReq vv 500))) B = B'"
    by (simp only: node_step.simps on_swarm_event.simps on_request_def ans B'_def split: prod.split) simp
  have same: "same_peers A A'" "nd_db A' = nd_db M" "same_peers B B'" "nd_db B' = nd_db B"
    using took(2) by (auto simp: A'_def B'_def intro: same_peers_trans)
  have "pulling EA M B"
    using assms(1) took(2) page(1,2,4) by (simp add: pulling_def same_peers_def is_authed_def)
  then have M: "pulling EA M B" "pulling EA A' B'"
    using same by (auto simp: A'_def intro: pulling_same)
  have ex: "exchange EA EB (A, B, Some (SyncReq vv 500)) = (A', B', last_request (nd_self B) A A')"
    by (simp only: exchange_def prod.case option.case ans fst_conv A' B' Let_def)
  have "if length (unheld ?d ?p) < 500 then last_request (nd_self B) A A' = None
      else \<exists>vv'. version_vector (nd_db A') = Inr vv' \<and> last_request (nd_self B) A A' = Some (SyncReq vv' 500)"
  proof (cases "length (unheld ?d ?p) < 500")
    case True
    then have "\<not> full" using len by (simp add: full_def)
    with True took(4) show ?thesis by (simp add: A'_def)
  next
    case False
    then have "full" using len by (simp add: full_def)
    with False request_sync_asks [OF M(1)] took(3) show ?thesis by (auto simp: A'_def)
  qed
  moreover have "nd_db B' = nd_db B" "unheld (nd_db A') ?p = drop 500 (unheld ?d ?p)"
    "nd_db A' = snd (apply_remote EA chs ?d)"
    using same page(3) took(1) by simp_all
  ultimately show ?thesis using ex M(2) listed by blast
qed

section \<open>The whole conversation\<close>

text \<open>
  What holds between two exchanges while \<open>A\<close> pulls the log \<open>p\<close>, and the number of records still to come.
\<close>

definition paging :: "'a env_scheme \<Rightarrow> db \<Rightarrow> node \<times> node \<times> req option \<Rightarrow> bool" where
  "paging E p = (\<lambda>(A, B, out). pulling E A B \<and> nd_db B = p
     \<and> (case out of None \<Rightarrow> unheld (nd_db A) p = []
        | Some r \<Rightarrow> \<exists>vv. version_vector (nd_db A) = Inr vv \<and> r = SyncReq vv 500))"

definition to_come :: "db \<Rightarrow> node \<times> node \<times> req option \<Rightarrow> nat" where
  "to_come p = (\<lambda>(A, B, out). case out of None \<Rightarrow> 0 | Some r \<Rightarrow> Suc (length (unheld (nd_db A) p)))"

lemma paging_step:
  assumes "paging EA p s" "(\<lambda>(A, B, out). out \<noteq> None) s"
  shows "paging EA p (exchange EA EB s) \<and> to_come p (exchange EA EB s) < to_come p s"
proof -
  obtain A B vv where at: "s = (A, B, Some (SyncReq vv 500))" and A: "pulling EA A B" "nd_db B = p"
    "version_vector (nd_db A) = Inr vv"
    using assms by (auto simp: paging_def split: prod.splits option.splits)
  obtain A' B' out where ex: "exchange EA EB (A, B, Some (SyncReq vv 500)) = (A', B', out)"
    and A': "pulling EA A' B'" "nd_db B' = p" "unheld (nd_db A') p = drop 500 (unheld (nd_db A) p)"
    and more: "if length (unheld (nd_db A) p) < 500 then out = None
      else \<exists>vv'. version_vector (nd_db A') = Inr vv' \<and> out = Some (SyncReq vv' 500)"
    using exchange_page [OF A(1,3), of EB] unfolding A(2) by blast
  show ?thesis
  proof (cases "length (unheld (nd_db A) p) < 500")
    case True
    then show ?thesis using A' more by (simp add: at ex paging_def to_come_def)
  next
    case False
    then obtain vv' where "version_vector (nd_db A') = Inr vv'" "out = Some (SyncReq vv' 500)"
      using more by auto
    with False A' show ?thesis by (simp add: at ex paging_def to_come_def)
  qed
qed

lemma pages_end:
  assumes "paging EA p s"
  shows "\<exists>A' B'. converse EA EB s = Some (A', B', None) \<and> paging EA p (A', B', None)"
proof -
  have "\<exists>t. converse EA EB s = Some t"
    unfolding converse_def
    by (rule measure_while_option_Some [where P = "paging EA p" and f = "to_come p"])
       (rule paging_step, assumption+, rule assms)
  then obtain t where t: "converse EA EB s = Some t" by blast
  have "paging EA p t"
    by (rule while_option_rule [where P = "paging EA p", OF _ t [unfolded converse_def] assms])
       (rule conjunct1 [OF paging_step])
  moreover have "\<not> (\<lambda>(A, B, out). out \<noteq> None) t" by (rule while_option_stop [OF t [unfolded converse_def]])
  moreover obtain A' B' out where "t = (A', B', out)" by (cases t)
  ultimately show ?thesis using t by simp
qed

lemma accept_peer_replica:
  "vv_rows (nd_db (snd (accept_peer E p cert crl rep N))) = vv_rows (nd_db N)"
  "require_signatures (nd_db (snd (accept_peer E p cert crl rep N))) = require_signatures (nd_db N)"
  "app (nd_db (snd (accept_peer E p cert crl rep N))) = app (nd_db N)"
  "tables (nd_db (snd (accept_peer E p cert crl rep N))) = tables (nd_db N)"
  by (auto simp: accept_peer_def Let_def node_now_eq split_beta save_enrollment_def set_meta_def
      record_peer_def split: sum.split)

text \<open>\<open>admits E N p cert crl\<close>: a greeting with this certificate and revocation list would be accepted now.\<close>

definition admits :: "'a env_scheme \<Rightarrow> node \<Rightarrow> peer_id \<Rightarrow> device_cert \<Rightarrow> revocation_list \<Rightarrow> bool" where
  "admits E N p cert crl \<longleftrightarrow>
     cert_verify E cert (en_org_id (nd_enrollment N)) (Some p)
       (Some (en_crl (snd (merge_crl E crl (nd_enrollment N))))) (wall E (reads (clock (nd_db N)))) = Inr ()"

lemma admits_accepted:
  assumes "admits E N p cert crl"
  shows "\<exists>M. accept_peer E p cert crl rep N = (Inr (), M)"
  using accept_peer_outcome(1) [of E p cert crl rep N] assms
  by (cases "accept_peer E p cert crl rep N") (simp add: admits_def)

lemma accept_peer_acts: "\<exists>as. acts (snd (accept_peer E p cert crl rep N)) = acts N @ as"
  by (auto simp: accept_peer_def Let_def node_now_eq split_beta split: sum.split)

text \<open>
  \<open>A\<close> and \<open>B\<close> would accept each other's greeting, replicate, and \<open>A\<close> is free of gaps with respect to
  \<open>B\<close>, whose records it admits and does not screen.
\<close>

definition ready :: "'a node_env_scheme \<Rightarrow> 'a node_env_scheme \<Rightarrow> node \<Rightarrow> node \<Rightarrow> bool" where
  "ready EA EB A B \<longleftrightarrow>
     (let a = nd_enrollment A; b = nd_enrollment B; crl = en_crl (snd (merge_crl EB (en_crl a) b))
      in replicate_data (nd_cfg A) \<and> replicate_data (nd_cfg B) \<and> nd_self B \<notin> set (greeted A)
         \<and> admits EB B (nd_self A) (en_cert a) (en_crl a) \<and> admits EA A (nd_self B) (en_cert b) crl
         \<and> log_ok (nd_db A) \<and> log_ok (nd_db B) \<and> no_gap (nd_db A) (nd_db B)
         \<and> servable EA (require_signatures (nd_db A)) (nd_db B)
         \<and> (\<forall>c\<in>set (changes (nd_db B)). sc_origin c \<notin>
              set (remember_role EA (nd_self B) (claim_role (claims (en_cert b))) (readonly_origins A))))"

lemma handshake:
  assumes "ready EA EB A B"
  shows "\<exists>A0 A' B' vv. connected EA A B = (A0, B, Some (hello_req A))
    \<and> exchange EA EB (A0, B, Some (hello_req A)) = (A', B', Some (SyncReq vv 500))
    \<and> pulling EA A' B' \<and> version_vector (nd_db A') = Inr vv
    \<and> changes (nd_db A') = changes (nd_db A) \<and> changes (nd_db B') = changes (nd_db B)
    \<and> app (nd_db A') = app (nd_db A) \<and> tables (nd_db A') = tables (nd_db A)"
proof -
  let ?a = "nd_self A" and ?b = "nd_self B" and ?ea = "nd_enrollment A"
  let ?eb = "snd (merge_crl EB (en_crl ?ea) (nd_enrollment B))"
  have r: "replicate_data (nd_cfg A)" "replicate_data (nd_cfg B)" "?b \<notin> set (greeted A)"
    "admits EB B ?a (en_cert ?ea) (en_crl ?ea)" "admits EA A ?b (en_cert (nd_enrollment B)) (en_crl ?eb)"
    "log_ok (nd_db A)" "log_ok (nd_db B)" "no_gap (nd_db A) (nd_db B)"
    "servable EA (require_signatures (nd_db A)) (nd_db B)"
    "\<forall>c\<in>set (changes (nd_db B)). sc_origin c \<notin>
       set (remember_role EA ?b (claim_role (claims (en_cert (nd_enrollment B)))) (readonly_origins A))"
    using assms by (simp_all add: ready_def Let_def)
  define A0 where "A0 = act (SendReq ?b (hello_req A)) (A\<lparr>greeted := insort_insert ?b (greeted A)\<rparr>)"
  have conn: "connected EA A B = (A0, B, Some (hello_req A))"
    using r(3) by (simp add: connected_def A0_def last_request_def)
  obtain B1 where B1: "accept_peer EB ?a (en_cert ?ea) (en_crl ?ea) True B = (Inr (), B1)"
    using admits_accepted [OF r(4)] by blast
  have eb: "nd_enrollment B1 = ?eb" "en_cert ?eb = en_cert (nd_enrollment B)"
    using accept_peer_accepted(2) [OF B1] merge_crl_simps by simp_all
  have "admits EA A0 ?b (en_cert (nd_enrollment B)) (en_crl ?eb)"
    using r(5) by (simp add: admits_def A0_def)
  then obtain A1 where A1: "accept_peer EA ?b (en_cert (nd_enrollment B)) (en_crl ?eb) True A0 = (Inr (), A1)"
    using admits_accepted by blast
  note fB = accept_peer_db [of EB ?a "en_cert ?ea" "en_crl ?ea" True B]
    accept_peer_replica [of EB ?a "en_cert ?ea" "en_crl ?ea" True B]
    accept_peer_frame [of EB ?a "en_cert ?ea" "en_crl ?ea" True B]
  note fA = accept_peer_db [of EA ?b "en_cert (nd_enrollment B)" "en_crl ?eb" True A0]
    accept_peer_replica [of EA ?b "en_cert (nd_enrollment B)" "en_crl ?eb" True A0]
    accept_peer_frame [of EA ?b "en_cert (nd_enrollment B)" "en_crl ?eb" True A0]
  have A0: "nd_db A0 = nd_db A" "nd_cfg A0 = nd_cfg A" "nd_self A0 = ?a" "readonly_origins A0 = readonly_origins A"
    by (simp_all add: A0_def)
  have ans: "answer EB ?a (hello_req A) B = (hello_resp B1, B1)"
    using B1 r(1) by (simp add: hello_req_def our_hello_def)
  have resp: "hello_resp B1 = HelloResp PROTOCOL_VERSION (en_cert (nd_enrollment B)) (en_crl ?eb) True"
    using eb fB(10) B1 r(2) by (simp add: hello_resp_def our_hello_def)
  define A' where "A' = request_sync EA ?b A1"
  define B' where "B' = act (SendResp ?a (hello_resp B1)) B1"
  have turnA: "node_step EA (Swarm (Response ?b (hello_resp B1))) A0 = A'"
    using A1 by (simp add: resp A'_def)
  have turnB: "node_step EB (Swarm (Request ?a (hello_req A))) B = B'"
    by (simp only: node_step.simps on_swarm_event.simps on_request_def ans B'_def split: prod.split) simp
  have ex: "exchange EA EB (A0, B, Some (hello_req A)) = (A', B', last_request ?b A0 A')"
    by (simp only: exchange_def prod.case option.case A0(3) ans fst_conv turnA turnB Let_def)
  have pull: "pulling EA A1 B'"
  proof -
    have "is_authed B1 ?a" "\<exists>i. tbl_get (authed A1) ?b = Some i \<and> ap_replicates i"
      using accept_peer_accepted(4) [OF B1] accept_peer_accepted(4) [OF A1]
      by (auto simp: is_authed_def tbl_get_put)
    moreover have "nd_cfg A1 = nd_cfg A" "nd_self A1 = ?a" "nd_cfg B1 = nd_cfg B" "nd_self B1 = ?b"
      using fA(10,11) fB(10,11) A1 B1 A0 by simp_all
    moreover have "changes (nd_db A1) = changes (nd_db A)" "vv_rows (nd_db A1) = vv_rows (nd_db A)"
      "log_ok (nd_db A1) = log_ok (nd_db A)"
      "require_signatures (nd_db A1) = require_signatures (nd_db A)"
      using fA(1,3-5) A1 A0 by simp_all
    moreover have "changes (nd_db B1) = changes (nd_db B)" "log_ok (nd_db B1) = log_ok (nd_db B)"
      using fB(1,3) B1 by simp_all
    moreover have "readonly_origins A1 =
        remember_role EA ?b (claim_role (claims (en_cert (nd_enrollment B)))) (readonly_origins A)"
      using accept_peer_accepted(3) [OF A1] A0 by simp
    ultimately show ?thesis
      using r(1,2,6-10) by (simp add: pulling_def B'_def no_gap_def servable_def)
  qed
  obtain as where "acts A1 = acts A0 @ as"
    using accept_peer_acts [of EA ?b "en_cert (nd_enrollment B)" "en_crl ?eb" True A0] A1 by auto
  from request_sync_asks [OF pull this, of EA] obtain vv where vv: "version_vector (nd_db A1) = Inr vv"
    "last_request (nd_self B') A0 (request_sync EA (nd_self B') A1) = Some (SyncReq vv 500)" by blast
  have self: "nd_self B' = ?b" using fB(11) B1 by (simp add: B'_def)
  have "same_peers A1 A'" "nd_db A' = nd_db A1" by (simp_all add: A'_def)
  then have "pulling EA A' B'" using pulling_same [OF pull] by simp
  moreover have "changes (nd_db A') = changes (nd_db A)" "changes (nd_db B') = changes (nd_db B)"
    "app (nd_db A') = app (nd_db A)" "tables (nd_db A') = tables (nd_db A)"
    using fA(1,6,7) fB(1) A1 B1 A0(1) by (simp_all add: A'_def B'_def)
  ultimately show ?thesis
    using conn ex vv self by (auto simp: A'_def)
qed

end
