(* ===== verification/Meeting.thy ===== *)
theory Meeting
  imports Conversations Visible
begin

text \<open>
  The view of a table through a conversation of two nodes: what the asking node pulls, it shows.
\<close>

lemma applied_content_sub:
  assumes "log_ok d" "apply_remote E chs d = (out, d')"
  shows "content ` set (changes d') \<subseteq> content ` set (changes d) \<union> stored_of 0 ` set chs"
proof -
  have "changes d' = append_log (changes d) (new_records E chs d)"
    using applied_state_fields(2) [OF apply_remote_state [OF assms(1), of E chs]] assms(2) by simp
  then have "content ` set (changes d') = content ` set (changes d) \<union> stored_of 0 ` set (new_records E chs d)"
    using append_log_content [of "changes d" "new_records E chs d"] by (metis list.set_map set_append)
  then show ?thesis using new_records_sub admitted_sub by blast
qed

lemma values_fit_both:
  assumes "values_fit E ok spec (l1 @ l2)" "content ` set l \<subseteq> content ` set l1 \<union> content ` set l2"
  shows "values_fit E ok spec l"
  using assms(2) by (intro values_fit_content [OF assms(1)]) (simp add: image_Un)

lemma viewing_page:
  assumes "viewing E ok spec info d" "values_fit E ok spec p" "stored_of 0 ` set chs \<subseteq> content ` set p"
  shows "viewing E ok spec info (snd (apply_remote E chs d))"
proof -
  obtain out d' where d': "apply_remote E chs d = (out, d')" by fastforce
  have d: "log_ok d" "values_fit E ok spec (changes d)" using assms(1) by (simp_all add: viewing_def)
  have "values_fit E ok spec (changes d @ p)" using d(2) assms(2) by (auto simp: values_fit_def)
  then have "values_fit E ok spec (changes d')"
    using applied_content_sub [OF d(1) d'] assms(3) by (elim values_fit_both) blast
  with viewing_apply [OF assms(1) d'] show ?thesis by (simp add: d')
qed

text \<open>While \<open>A\<close> pulls, its table shows what its log holds so far.\<close>

definition watching :: "'a env_scheme \<Rightarrow> (string \<Rightarrow> sql_value \<Rightarrow> bool) \<Rightarrow> table_spec \<Rightarrow> (string \<times> int) list \<Rightarrow> db
    \<Rightarrow> node \<times> node \<times> req option \<Rightarrow> bool" where
  "watching E ok spec info p = (\<lambda>(A, B, out). paging E p (A, B, out) \<and> viewing E ok spec info (nd_db A))"

lemma watching_step:
  assumes "watching EA ok spec info p s" "(\<lambda>(A, B, out). out \<noteq> None) s" "values_fit EA ok spec (changes p)"
  shows "watching EA ok spec info p (exchange EA EB s)"
proof -
  obtain A B vv where at: "s = (A, B, Some (SyncReq vv 500))" and A: "pulling EA A B" "nd_db B = p"
    "version_vector (nd_db A) = Inr vv" and view: "viewing EA ok spec info (nd_db A)"
    and page: "paging EA p s"
    using assms by (auto simp: watching_def paging_def split: prod.splits option.splits)
  obtain A' B' out chs where ex: "exchange EA EB (A, B, Some (SyncReq vv 500)) = (A', B', out)"
    and chs: "nd_db A' = snd (apply_remote EA chs (nd_db A))" "stored_of 0 ` set chs \<subseteq> content ` set (changes p)"
    using exchange_page [OF A(1,3), of EB] unfolding A(2) by blast
  have "paging EA p (exchange EA EB s)" using paging_step [OF page] assms(2) by blast
  moreover have "viewing EA ok spec info (nd_db A')"
    unfolding chs(1) by (rule viewing_page [OF view assms(3) chs(2)])
  ultimately show ?thesis by (simp add: watching_def at ex)
qed

lemma pages_shown:
  assumes "watching EA ok spec info p s" "values_fit EA ok spec (changes p)"
  shows "\<exists>A' B'. converse EA EB s = Some (A', B', None) \<and> watching EA ok spec info p (A', B', None)"
proof -
  have "paging EA p s" using assms(1) by (cases s) (simp add: watching_def)
  from pages_end [OF this] obtain A' B' where t: "converse EA EB s = Some (A', B', None)" by blast
  have "watching EA ok spec info p (A', B', None)"
    by (rule while_option_rule [where P = "watching EA ok spec info p", OF _ t [unfolded converse_def] assms(1)])
       (rule watching_step [OF _ _ assms(2)])
  with t show ?thesis by blast
qed

lemma meeting_shows:
  assumes "ready EA EB A B" "viewing EA ok spec info (nd_db A)" "values_fit EA ok spec (changes (nd_db B))"
  shows "\<exists>A' B'. converse EA EB (connected EA A B) = Some (A', B', None)
    \<and> change_key ` set (changes (nd_db B)) \<subseteq> change_key ` set (changes (nd_db A'))
    \<and> changes (nd_db B') = changes (nd_db B) \<and> viewing EA ok spec info (nd_db A')"
proof -
  obtain A0 A1 B1 vv where conn: "connected EA A B = (A0, B, Some (hello_req A))"
    and first: "exchange EA EB (A0, B, Some (hello_req A)) = (A1, B1, Some (SyncReq vv 500))"
    and pull: "pulling EA A1 B1" "version_vector (nd_db A1) = Inr vv" "changes (nd_db B1) = changes (nd_db B)"
    and same: "changes (nd_db A1) = changes (nd_db A)" "app (nd_db A1) = app (nd_db A)" "tables (nd_db A1) = tables (nd_db A)"
    using handshake [OF assms(1)] by blast
  have "paging EA (nd_db B1) (A1, B1, Some (SyncReq vv 500))" using pull by (simp add: paging_def)
  moreover have "viewing EA ok spec info (nd_db A1)"
    using pull(1) same by (intro viewing_same [OF assms(2)]) (simp_all add: pulling_def)
  ultimately have "watching EA ok spec info (nd_db B1) (A1, B1, Some (SyncReq vv 500))" by (simp add: watching_def)
  from pages_shown [OF this, of EB] assms(3) obtain A' B' where
    t: "converse EA EB (A1, B1, Some (SyncReq vv 500)) = Some (A', B', None)"
    and w: "watching EA ok spec info (nd_db B1) (A', B', None)" unfolding pull(3) by blast
  have "converse EA EB (connected EA A B) = Some (A', B', None)"
    using t first unfolding conn converse_def by (subst while_option_unfold) simp
  moreover have "unheld (nd_db A') (nd_db B1) = []" "nd_db B' = nd_db B1" "viewing EA ok spec info (nd_db A')"
    using w by (simp_all add: watching_def paging_def)
  ultimately show ?thesis using pull(3) by (metis unheld_Nil_iff)
qed

end
