(* ===== verification/OrganisationProperties.thy ===== *)
theory OrganisationProperties
  imports Organisation Meeting NodeSamples
begin

text \<open>
  The properties of an organisation of running nodes, with an instance: device \<open>a\<close> starts, its
  application writes a row, its flush timer announces the record, and device \<open>b\<close> starts and receives it.
  Then a third device starts, which signs and requires signatures, and a stranger hands it a record that
  it made up in the name of \<open>a\<close>.
\<close>

section \<open>A run\<close>

lemma toy_codec: "codec_agrees {toy_node_env}"
  by (simp add: codec_agrees_def toy_node_env_def env.defs toy_env_def crypto.defs toy_crypto_def)

lemma toy_names: "same_names toy_node_env toy_env"
  by (simp add: same_names_def toy_node_env_def env.defs toy_env_def crypto.defs toy_crypto_def)

lemmas toy_node_env_registers = register_agrees [OF toy_names]
lemmas toy_node_env_opens = from_connection_agrees [OF toy_names]

lemma toy_node_env_runs:
  "apply_writes toy_node_env [WInsert ''n'' a_note] (new_node ''a'') = apply_writes toy_env [WInsert ''n'' a_note] (new_node ''a'')"
  unfolding new_node_eq by code_simp

lemma toy_node_env_flushes: "flush_local toy_node_env a_written = flush_local toy_env a_written"
  unfolding sample_flushed unfolding a_written_eq by code_simp

lemma toy_node_env_applies:
  "apply_remote toy_node_env a_records (new_node ''b'') = apply_remote toy_env a_records (new_node ''b'')"
  unfolding sample_records new_node_eq by code_simp

lemma new_node_clock: "clock (new_node ''b'') = new_clock" "local_ops (new_node ''b'') = []"
  by (simp_all add: sample_states)

lemma new_node_roles: "db_readonly_origins (new_node ''a'') = []" "db_readonly_origins (new_node ''b'') = []"
  unfolding new_node_eq by code_simp+

definition node_on :: "db \<Rightarrow> node" where
  "node_on d = toy_node\<lparr>nd_db := d\<rparr>"

lemma spawn_on:
  "db_readonly_origins d = [] \<Longrightarrow> spawn toy_node_env toy_config [2] toy_enrollment d 5 = Inr (node_on d)"
  using toy_validate toy_self toy_swarm by (auto simp: spawn_ok node_on_def toy_node_def)

text \<open>The devices of the organisation, the third named by its key.\<close>

definition third :: string where
  "third = peer_text toy_node_env (device_peer_id toy_node_env [2])"

definition devices :: "string set" where
  "devices = {''a'', ''b'', third}"

lemma third_length: "length third = 32"
  by (simp add: third_def toy_self) (simp add: toy_node_env_def env.defs toy_env_def crypto.defs toy_crypto_def bytes_str_def)

lemma third_other: "third \<noteq> ''a''" "third \<noteq> ''b''"
proof -
  have "length ''a'' \<noteq> 32" "length ''b'' \<noteq> 32" by simp_all
  then show "third \<noteq> ''a''" "third \<noteq> ''b''" using third_length by metis+
qed

lemma boot_toy:
  assumes "tbl_get (members G) dev = None" "dev = ''a'' \<or> dev = ''b''" "org_reachable {toy_node_env} devices G"
  shows "org_reachable {toy_node_env} devices (set_member dev (node_on (new_node dev)) G)"
proof -
  have "unused notes_file" by (simp add: unused_def notes_file_def empty_file_def)
  moreover have "open_file toy_node_env notes_file dev None = Inr (opened_node dev)"
    using assms(2) the_db_ok [OF open_a] the_db_ok [OF open_b]
    by (auto simp: open_file_def opened_node_def toy_node_env_opens)
  moreover have "device_id (opened_node dev) = dev" using assms(2) open_id by auto
  moreover have "bookkeep toy_node_env (opened_node dev) (new_node dev)"
    using bookkeep.Register [of toy_node_env "opened_node dev" "''n''" "''k''"] assms(2)
    by (auto simp: toy_node_env_registers new_node_def opened_node_def [symmetric])
  moreover have "spawn toy_node_env toy_config [2] toy_enrollment (new_node dev) 5 = Inr (node_on (new_node dev))"
    using assms(2) new_node_roles by (auto intro: spawn_on)
  moreover have "dev \<in> devices" using assms(2) by (auto simp: devices_def)
  ultimately have "org_step {toy_node_env} devices G (set_member dev (node_on (new_node dev)) G)"
    using assms(1) by (intro org_step.Boot) auto
  with assms(3) show ?thesis by (rule org_reachable.Step)
qed

text \<open>The nodes after the announcement and after the reception.\<close>

definition announcing :: node where
  "announcing = node_step toy_node_env FlushTick (node_on a_written)"

definition receiving :: node where
  "receiving = node_step toy_node_env (Swarm (Response (toy_public [2]) (SyncResp a_records False)))
     (node_on (new_node ''b''))"

definition run_org :: organisation where
  "run_org = \<lparr>members = [(''a'', announcing), (''b'', receiving)], wire = acts announcing @ acts receiving\<rparr>"

lemma announcing:
  "nd_db announcing = mark_broadcast 1 a_flushed"
  "acts announcing = [Emit (LocalChanges 1), Publish (changes_topic (org_id toy_node_env [1])) [1]]"
proof -
  have c: "changes a_flushed = [stored_of 1 a_record]" "meta a_flushed = []" "device_id a_flushed = ''a''"
    by (simp_all add: sample_states)
  then have p: "watermark a_flushed = 0" "pending a_flushed = [stored_of 1 a_record]"
    by (simp_all add: watermark_def get_meta_def pending_def a_record_def)
  have "decode_change (stored_of 1 a_record) = Inr a_record"
    by (simp add: decode_change_stored_of a_record_def value_ok_def)
  then have u: "unbroadcast_local a_flushed MAX_SYNC_CHANGES = Inr ([a_record], 1)"
    by (simp add: unbroadcast_local_def unbroadcast_rows_pending p MAX_SYNC_CHANGES_def)
  have "chunks 200 [a_record] = [[a_record]]" by (simp add: chunks.simps)
  moreover have "broadcast_encode toy_node_env [a_record] = Some [1]"
    by (simp add: toy_node_env_def env.defs toy_env_def crypto.defs toy_crypto_def)
  ultimately show "nd_db announcing = mark_broadcast 1 a_flushed"
    "acts announcing = [Emit (LocalChanges 1), Publish (changes_topic (org_id toy_node_env [1])) [1]]"
    using u
    by (simp_all add: announcing_def flush_and_push_def node_on_def toy_node_def toy_config_def Let_def
        toy_node_env_flushes sample_flush broadcast_def MAX_PUSH_CHANGES_def broadcast_chunk_def
        replicating_peers_def toy_enrollment_def)
qed

lemma receiving: "nd_db receiving = b_received"
  by (simp add: receiving_def node_apply_db node_on_def toy_node_def sample_records b_received_def
      toy_node_env_applies [unfolded sample_records])

lemma run_org_reachable: "org_reachable {toy_node_env} devices run_org"
proof -
  let ?a = "set_member ''a'' (node_on (new_node ''a'')) founded"
  let ?b = "set_member ''a'' (node_on a_written) ?a"
  let ?c = "(set_member ''a'' announcing ?b)\<lparr>wire := acts announcing\<rparr>"
  let ?d = "set_member ''b'' (node_on (new_node ''b'')) ?c"
  have "org_reachable {toy_node_env} devices ?a"
    by (rule boot_toy) (simp_all add: founded_def org_reachable.Founded [unfolded founded_def])
  moreover have "org_step {toy_node_env} devices ?a (set_member ''a'' ((node_on (new_node ''a''))\<lparr>nd_db := a_written\<rparr>) ?a)"
  proof (rule org_step.App)
    show "tbl_get (members ?a) ''a'' = Some (node_on (new_node ''a''))" by (simp add: set_member_def tbl_get_put)
    have "nd_db (node_on (new_node ''a'')) = new_node ''a''" by (simp add: node_on_def)
    then show "apply_writes toy_node_env [WInsert ''n'' a_note] (nd_db (node_on (new_node ''a''))) = Inr a_written"
      using the_db_ok [OF write_a] by (simp only: toy_node_env_runs a_written_def)
  qed simp
  ultimately have b: "org_reachable {toy_node_env} devices ?b"
    by (simp add: node_on_def org_reachable.Step)
  have "org_step {toy_node_env} devices ?b ((set_member ''a'' announcing ?b)\<lparr>wire := wire ?b @ acts announcing\<rparr>)"
  proof (rule org_step.Turn)
    show "tbl_get (members ?b) ''a'' = Some (node_on a_written)" by (simp add: set_member_def tbl_get_put)
    show "unforged toy_node_env devices (published toy_node_env ?b) (nd_db (node_on a_written)) (arriving toy_node_env FlushTick)"
      by (simp add: unforged_def)
    show "clock_room (flush_budget (nd_db (node_on a_written))) (clock (nd_db (node_on a_written)))"
      using flush_room by (simp add: node_on_def)
    show "announcing = node_step toy_node_env FlushTick (node_on a_written)" by (rule announcing_def)
    show "acts announcing = acts (node_on a_written) @ acts announcing" by (simp add: node_on_def toy_node_def)
  qed simp
  then have c: "org_reachable {toy_node_env} devices ?c"
    using b by (auto simp: set_member_def founded_def intro: org_reachable.Step)
  then have d: "org_reachable {toy_node_env} devices ?d"
    by (rule boot_toy [rotated 2]) (simp_all add: set_member_def founded_def)
  let ?i = "Swarm (Response (toy_public [2]) (SyncResp a_records False))"
  have "org_step {toy_node_env} devices ?d ((set_member ''b'' receiving ?d)\<lparr>wire := wire ?d @ acts receiving\<rparr>)"
  proof (rule org_step.Turn)
    show "tbl_get (members ?d) ''b'' = Some (node_on (new_node ''b''))" by (simp add: set_member_def tbl_get_put)
    show "unforged toy_node_env devices (published toy_node_env ?d) (nd_db (node_on (new_node ''b''))) (arriving toy_node_env ?i)"
      by (simp add: unforged_def published_def set_member_def announcing sample_records toy_node_env_def env.defs toy_env_def
          crypto.defs toy_crypto_def)
    show "clock_room (flush_budget (nd_db (node_on (new_node ''b'')))) (clock (nd_db (node_on (new_node ''b''))))"
      by (simp add: node_on_def flush_budget_def new_node_clock clock_room_def new_clock_def hlc_zero_def
          collapse_def keys_budget_def)
    show "receiving = node_step toy_node_env ?i (node_on (new_node ''b''))" by (rule receiving_def)
    show "acts receiving = acts (node_on (new_node ''b'')) @ acts receiving" by (simp add: node_on_def toy_node_def)
  qed simp
  with d have "org_reachable {toy_node_env} devices ((set_member ''b'' receiving ?d)\<lparr>wire := wire ?d @ acts receiving\<rparr>)"
    by (rule org_reachable.Step)
  then show ?thesis by (simp add: run_org_def set_member_def founded_def)
qed

lemma run_org_get:
  "tbl_get (members run_org) ''a'' = Some announcing" "tbl_get (members run_org) ''b'' = Some receiving"
  by (simp_all add: run_org_def)

text \<open>The third device starts, and a stranger answers it with a record in the name of \<open>a\<close>.\<close>

definition strict_db :: db where
  "strict_db = (opened_node third)\<lparr>signer := Some [2], require_signatures := True\<rparr>"

definition made_up :: change_record where
  "made_up = a_record\<lparr>cr_value := VInt 6\<rparr>"

definition hostile :: input where
  "hostile = Swarm (Response (toy_public [9]) (SyncResp [made_up] False))"

definition hostile_org :: organisation where
  "hostile_org = set_member third (node_on strict_db) run_org"

lemma open_third: "ok_result (from_connection toy_env notes_file third)"
  unfolding third_def by code_simp

lemma third_opened:
  "device_id (opened_node third) = third" "local_ops (opened_node third) = []" "clock (opened_node third) = new_clock"
  "db_readonly_origins (opened_node third) = []" "changes (opened_node third) = []"
  unfolding third_def by code_simp+

lemma made_up_refused: "node_step toy_node_env hostile (node_on strict_db) = node_on strict_db"
proof -
  have "admit toy_node_env True [made_up] = ([], 1)"
    by (simp add: made_up_def a_record_def verify_author_def)
  then have "apply_remote toy_node_env [made_up] strict_db = (no_outcome\<lparr>rejected := 1\<rparr>, strict_db)"
    by (simp add: apply_remote_def strict_db_def)
  then show ?thesis
    by (simp add: hostile_def node_apply_def node_on_def toy_node_def no_outcome_def)
qed

lemma hostile_org_reachable: "org_reachable {toy_node_env} devices hostile_org"
proof -
  have "open_file toy_node_env notes_file third (Some [2]) = Inr strict_db"
    unfolding open_file_def open_authenticated_def option.case toy_node_env_opens third_def [symmetric] strict_db_def opened_node_def
    by (subst the_db_ok [OF open_third]) simp
  moreover have "unused notes_file" by (simp add: unused_def notes_file_def empty_file_def)
  moreover have "db_readonly_origins strict_db = []" "device_id strict_db = third"
    using third_opened by (simp_all add: strict_db_def db_readonly_origins_def devices_with_role_def)
  moreover have "tbl_get (members run_org) third = None" using third_other by (simp add: run_org_def)
  moreover have "third \<in> devices" by (simp add: devices_def)
  ultimately have "org_step {toy_node_env} devices run_org (set_member third (node_on strict_db) run_org)"
    using spawn_on by (blast intro: org_step.Boot)
  then have up: "org_reachable {toy_node_env} devices hostile_org"
    unfolding hostile_org_def using run_org_reachable by (rule org_reachable.Step [rotated])
  have "org_step {toy_node_env} devices hostile_org
      ((set_member third (node_on strict_db) hostile_org)\<lparr>wire := wire hostile_org @ []\<rparr>)"
  proof (rule org_step.Turn)
    show "tbl_get (members hostile_org) third = Some (node_on strict_db)"
      by (simp add: hostile_org_def set_member_def tbl_get_put)
    show "unforged toy_node_env devices (published toy_node_env hostile_org) (nd_db (node_on strict_db)) (arriving toy_node_env hostile)"
      by (simp add: unforged_def hostile_def made_up_def a_record_def verify_author_def node_on_def strict_db_def)
    show "clock_room (flush_budget (nd_db (node_on strict_db))) (clock (nd_db (node_on strict_db)))"
      using third_opened
      by (simp add: node_on_def strict_db_def flush_budget_def clock_room_def new_clock_def hlc_zero_def
          collapse_def keys_budget_def)
    show "node_on strict_db = node_step toy_node_env hostile (node_on strict_db)" by (rule made_up_refused [symmetric])
  qed simp_all
  with up have "org_reachable {toy_node_env} devices
      ((set_member third (node_on strict_db) hostile_org)\<lparr>wire := wire hostile_org @ []\<rparr>)"
    by (rule org_reachable.Step)
  moreover have "(set_member third (node_on strict_db) hostile_org)\<lparr>wire := wire hostile_org @ []\<rparr> = hostile_org"
    by (simp add: hostile_org_def set_member_def tbl_put_twice)
  ultimately show ?thesis by simp
qed

lemma hostile_org_get:
  "tbl_get (members hostile_org) ''a'' = Some announcing" "tbl_get (members hostile_org) ''b'' = Some receiving"
  "tbl_get (members hostile_org) third = Some (node_on strict_db)"
  using third_other run_org_get by (simp_all add: hostile_org_def set_member_def tbl_get_put)

lemma hostile_org_published: "a_record \<in> published toy_node_env hostile_org"
  by (simp add: published_def hostile_org_def set_member_def run_org_def announcing toy_node_env_def env.defs
      toy_env_def crypto.defs toy_crypto_def)

section \<open>Properties\<close>

text \<open>C3: A system of running nodes is a network of replicas: after any start, restart, statement, call and
  turn of any node's loop, with any input handed to any node at any time, lost, repeated, reordered,
  misdirected or made up, the nodes' replicas are those of a run of the replica interface, and every
  record of a device of the organisation that any node ever handed to the network was returned by a
  flush of that run.  Assumed is that nobody but a device signs in its name (for a replica opened without
  a key, that what it is told in a device's name is true), that what one node encodes for the topic the
  others decode, and that each turn starts with a clock that has stamps left for a flush.\<close>

theorem running_system_is_a_replica_network:
  assumes "codec_agrees Es" "org_reachable Es D G"
  shows "\<exists>R. reachable Es D R
    \<and> (\<forall>dev. tbl_get (nodes R) dev = map_option nd_db (tbl_get (members G) dev))
    \<and> (\<forall>E\<in>Es. \<forall>r\<in>published E G. cr_origin r \<in> D \<longrightarrow> r \<in> set (sent R))"
proof -
  obtain R where "shadows Es D G R" using org_reachable_shadow [OF assms] by blast
  then show ?thesis unfolding shadows_def by (intro exI [of _ R]) blast
qed

theorem running_system_is_a_replica_network_witness:
  "\<exists>R. reachable {toy_node_env} devices R \<and> tbl_get (nodes R) ''b'' = Some b_received
     \<and> tbl_get (nodes R) third = Some strict_db \<and> a_record \<in> set (sent R)"
proof -
  have "cr_origin a_record \<in> devices" by (simp add: a_record_def devices_def)
  moreover have "nd_db (node_on strict_db) = strict_db" by (simp add: node_on_def)
  ultimately show ?thesis
    using running_system_is_a_replica_network [OF toy_codec hostile_org_reachable] hostile_org_get(2,3) receiving
      hostile_org_published
    by (metis (no_types, lifting) insertI1 option.simps(9))
qed

text \<open>C1: Two running nodes whose logs hold the same stamps hold the same cells, tombstones and version vector,
  whatever the nodes and their users did and whatever anybody handed to them before, provided that nobody
  but a device of the organisation signs in its name, that the clocks had stamps left whenever a turn
  began, and that no outsider signed two records with one stamp of which the two logs hold different ones.
  The last can happen, because a node merges the records of a stranger who answers it.\<close>

theorem running_nodes_converge:
  assumes "codec_agrees Es" "org_reachable Es D G"
    "tbl_get (members G) a = Some n" "tbl_get (members G) b = Some m" "outsiders_agree D (nd_db n) (nd_db m)"
    "change_key ` set (changes (nd_db n)) = change_key ` set (changes (nd_db m))"
  shows "cells (nd_db n) = cells (nd_db m) \<and> tombs (nd_db n) = tombs (nd_db m)
    \<and> vv_rows (nd_db n) = vv_rows (nd_db m)"
proof -
  obtain R where R: "shadows Es D G R" using org_reachable_shadow [OF assms(1,2)] by blast
  then have "net_ok D R" by (auto simp: shadows_def intro: reachable_ok)
  from converge [OF this shadows_get [OF R assms(3)] shadows_get [OF R assms(4)] assms(5,6)] show ?thesis .
qed

theorem running_nodes_converge_witness:
  "cells (nd_db announcing) = cells (nd_db receiving) \<and> cells (nd_db receiving) \<noteq> []"
proof -
  have "change_key ` set (changes (nd_db announcing)) = change_key ` set (changes (nd_db receiving))"
    using sample_keys by (simp add: announcing receiving)
  moreover have "outsiders_agree devices (nd_db announcing) (nd_db receiving)"
    by (simp add: outsiders_agree_def announcing receiving sample_states a_record_def devices_def)
  ultimately show ?thesis
    using running_nodes_converge [OF toy_codec hostile_org_reachable hostile_org_get(1,2)] sample_cells
    by (simp add: receiving)
qed



section \<open>A connection\<close>

text \<open>Two nodes that meet finish their conversation: after the greeting and finitely many pulls the node
  that was told of the connection has nothing outstanding, and by then its log holds every record of the
  other node's log, which the conversation left as it was.\<close>

theorem connecting_transfers_the_log:
  assumes "ready EA EB A B"
  shows "\<exists>A' B'. converse EA EB (connected EA A B) = Some (A', B', None)
    \<and> change_key ` set (changes (nd_db B)) \<subseteq> change_key ` set (changes (nd_db A'))
    \<and> changes (nd_db B') = changes (nd_db B) \<and> log_ok (nd_db A')"
proof -
  obtain A0 A1 B1 vv where start: "connected EA A B = (A0, B, Some (hello_req A))"
    and first: "exchange EA EB (A0, B, Some (hello_req A)) = (A1, B1, Some (SyncReq vv 500))"
    and pull: "pulling EA A1 B1" "version_vector (nd_db A1) = Inr vv" "changes (nd_db B1) = changes (nd_db B)"
    using handshake [OF assms] by blast
  have "paging EA (nd_db B1) (A1, B1, Some (SyncReq vv 500))" using pull by (simp add: paging_def)
  from pages_end [OF this] obtain A' B' where
    "converse EA EB (A1, B1, Some (SyncReq vv 500)) = Some (A', B', None)"
    and stop: "paging EA (nd_db B1) (A', B', None)" by blast
  then have "converse EA EB (connected EA A B) = Some (A', B', None)"
    using first unfolding start converse_def by (subst while_option_unfold) simp
  moreover have "unheld (nd_db A') (nd_db B1) = []" "nd_db B' = nd_db B1" "log_ok (nd_db A')"
    using stop by (simp_all add: paging_def pulling_def)
  ultimately show ?thesis using pull(3) by (metis unheld_Nil_iff)
qed

definition far_node :: node where
  "far_node = toy_node\<lparr>nd_db := a_flushed, nd_self := toy_public [3],
     nd_enrollment := toy_enrollment\<lparr>en_cert := toy_cert 3 Member\<rparr>\<rparr>"

definition near_node :: node where
  "near_node = toy_node\<lparr>nd_db := small ''b''\<rparr>"

lemma toy_ready: "ready toy_node_env toy_node_env near_node far_node"
proof -
  have c: "changes a_flushed = [stored_of 1 a_record]" "reads (clock a_flushed) = 1" by (simp_all add: sample_states)
  have admit: "cert_verify toy_node_env (toy_cert k Member) (org_id toy_node_env [1]) (Some (toy_public [k]))
      (Some (crl_empty org)) t = Inr ()" if "t < 1000000" for k t org
    using toy_cert_ok [OF that, of k Member]
    by (simp add: cert_verify_crl is_revoked_def crl_empty_def binary_search_iff)
  have merge: "snd (merge_crl toy_node_env (crl_empty org) en) = en" if "en_crl en = crl_empty org" for org en
    using that by (simp add: merge_crl_def crl_empty_def)
  have fields: "nd_enrollment near_node = toy_enrollment" "nd_self near_node = toy_public [2]"
    "nd_db near_node = small ''b''" "readonly_origins near_node = []" "greeted near_node = []"
    "nd_enrollment far_node = toy_enrollment\<lparr>en_cert := toy_cert 3 Member\<rparr>" "nd_self far_node = toy_public [3]"
    "nd_db far_node = a_flushed" "nd_cfg near_node = toy_config" "nd_cfg far_node = toy_config"
    by (simp_all add: near_node_def far_node_def toy_node_def)
  have en: "en_crl toy_enrollment = crl_empty (org_id toy_node_env [1])" "en_cert toy_enrollment = toy_cert 2 Member"
    "en_org_id toy_enrollment = org_id toy_node_env [1]" by (simp_all add: toy_enrollment_def)
  have logs: "log_ok (small ''b'')" "log_ok a_flushed"
    using small_ok(1) sample_nodes_ok(1) by (simp_all add: node_ok_def)
  have "vv_rows (small ''b'') = []" "\<not> require_signatures (small ''b'')"
    by (simp_all add: small_def notes_file_def empty_file_def replica_file.defs)
  then have pulls: "no_gap (small ''b'') a_flushed"
    "servable toy_node_env (require_signatures (small ''b'')) a_flushed"
    by (simp_all add: no_gap_def servable_def c text_above_def to_hex_neq_Nil decode_change_stored_of admissible_def
        a_record_def value_ok_def)
  have "admits toy_node_env near_node (toy_public [3]) (toy_cert 3 Member) (crl_empty (org_id toy_node_env [1]))"
    "admits toy_node_env far_node (toy_public [2]) (toy_cert 2 Member) (crl_empty (org_id toy_node_env [1]))"
    using admit by (simp_all add: admits_def fields merge en toy_wall c)
  then show ?thesis
    using logs pulls
    by (simp add: ready_def fields merge en toy_config_def toy_cert_simps remember_role_def may_write_def c)
qed

theorem connecting_transfers_the_log_witness:
  "\<exists>A' B'. converse toy_node_env toy_node_env (connected toy_node_env near_node far_node) = Some (A', B', None)
     \<and> record_key a_record \<in> change_key ` set (changes (nd_db A'))"
proof -
  have "changes a_flushed = [stored_of 1 a_record]" by (simp add: sample_states)
  then have "change_key ` set (changes (nd_db far_node)) = {record_key a_record}" by (simp add: far_node_def)
  with connecting_transfers_the_log [OF toy_ready] show ?thesis by (metis insert_subset)
qed

text \<open>C4: Take two nodes that are \<open>ready\<close> for each other: both replicate, each admits the other's certificate by the
  list the greetings leave it with, the asking node has not greeted the other yet, both logs are sound, the
  asking node has no gap below its version vector, and the other's records can all be decoded, are
  admissible there and name no author the asking node screens.  Take a registered table with a text key
  whose only constraints are per column ones that the defaults meet and that the values of both logs meet,
  and which shows the log of the asking node.  Then their conversation comes to its end, the asking node
  holds all records of the other, and the table shows the merged log: every row is gone or holds the last
  write of each column.  (Without a gap and without screening is essential: see the properties on both.)\<close>

theorem connecting_shows_the_peers_rows:
  assumes "ready EA EB A B" "viewing EA ok spec info (nd_db A)" "values_fit EA ok spec (changes (nd_db B))"
  shows "\<exists>A' B'. converse EA EB (connected EA A B) = Some (A', B', None)
    \<and> change_key ` set (changes (nd_db B)) \<subseteq> change_key ` set (changes (nd_db A'))
    \<and> (\<forall>pk. row_shows EA spec pk (nd_db A'))"
proof -
  obtain A' B' where "converse EA EB (connected EA A B) = Some (A', B', None)"
    "change_key ` set (changes (nd_db B)) \<subseteq> change_key ` set (changes (nd_db A'))"
    "viewing EA ok spec info (nd_db A')"
    using meeting_shows [OF assms] by blast
  then show ?thesis unfolding viewing_def by blast
qed

lemma near_node_views: "viewing toy_node_env (\<lambda>_ _. True) notes_spec [(''k'', 1), (''v'', 0)] (nd_db near_node)"
proof -
  have d: "nd_db near_node = small ''b''" by (simp add: near_node_def toy_node_def)
  have "tables (small ''b'') = [(''n'', notes_spec)]" by (simp add: small_def replica_file.defs)
  then have "specs_named (small ''b'')" by (auto simp: specs_named_def notes_spec_def split: if_splits)
  moreover have "log_ok (small ''b'')" using small_ok(1) by (simp add: node_ok_def)
  moreover have "tbl_get (tables (small ''b'')) ''n'' = Some notes_spec"
    "tbl_get (app (small ''b'')) ''n'' = Some \<lparr>at_info = [(''k'', 1), (''v'', 0)], at_rows = []\<rparr>"
    by (simp_all add: small_def notes_file_def empty_file_def replica_file.defs)
  ultimately show ?thesis
    by (simp add: viewing_def d small_ok(2) table_in_def rows_of_def good_rows_def values_fit_def row_shows_def
        deleted_in_def Let_def column_checks_def notes_spec_def toy_node_env_def toy_env_def env.defs crypto.defs)
qed

theorem connecting_shows_the_peers_rows_witness:
  "\<exists>A' B'. converse toy_node_env toy_node_env (connected toy_node_env near_node far_node) = Some (A', B', None)
     \<and> record_key a_record \<in> change_key ` set (changes (nd_db A')) \<and> row_shows toy_node_env notes_spec ''1'' (nd_db A')"
proof -
  have c: "changes a_flushed = [stored_of 1 a_record]" by (simp add: sample_states)
  then have k: "change_key ` set (changes (nd_db far_node)) = {record_key a_record}" by (simp add: far_node_def)
  have "values_fit toy_node_env (\<lambda>_ _. True) notes_spec (changes (nd_db far_node))"
    using from_storage_to_storage [of "VInt 5"]
    by (simp add: far_node_def c values_fit_def stored_of_def a_record_def value_ok_def)
  from connecting_shows_the_peers_rows [OF toy_ready near_node_views this] k show ?thesis by (metis insert_subset)
qed

text \<open>C16: A greeting carries the revocation lists both ways: when the greeted node accepts, both nodes come
  out of the exchange with the newer of their two lists, whichever of them had it, and even if the
  greeting node then turns the other away.\<close>

theorem greeting_spreads_revocations:
  assumes "nd_self B \<notin> set (greeted A)"
    "admits EB B (nd_self A) (en_cert (nd_enrollment A)) (en_crl (nd_enrollment A))"
    "crl_verify EB (en_crl (nd_enrollment A)) (en_org_id (nd_enrollment B)) = Inr ()"
    "crl_verify EA (en_crl (nd_enrollment B)) (en_org_id (nd_enrollment A)) = Inr ()"
    "updated_at_ms (en_crl (nd_enrollment A)) \<noteq> updated_at_ms (en_crl (nd_enrollment B))"
    "newest = (if updated_at_ms (en_crl (nd_enrollment A)) < updated_at_ms (en_crl (nd_enrollment B))
               then en_crl (nd_enrollment B) else en_crl (nd_enrollment A))"
  shows "case exchange EA EB (connected EA A B) of (A', B', out) \<Rightarrow>
      en_crl (nd_enrollment A') = newest \<and> en_crl (nd_enrollment B') = newest"
proof -
  let ?a = "nd_self A" and ?b = "nd_self B" and ?ea = "nd_enrollment A"
  let ?eb = "snd (merge_crl EB (en_crl ?ea) (nd_enrollment B))"
  define A0 where "A0 = act (SendReq ?b (hello_req A)) (A\<lparr>greeted := insort_insert ?b (greeted A)\<rparr>)"
  have self: "nd_self A0 = ?a" by (simp add: A0_def)
  have conn: "connected EA A B = (A0, B, Some (hello_req A))"
    using assms(1) by (simp add: connected_def A0_def last_request_def)
  obtain B1 where B1: "accept_peer EB ?a (en_cert ?ea) (en_crl ?ea) (replicate_data (nd_cfg A)) B = (Inr (), B1)"
    using admits_accepted [OF assms(2)] by blast
  have eb: "nd_enrollment B1 = ?eb" by (rule accept_peer_accepted(2) [OF B1])
  have ans: "answer EB ?a (hello_req A) B = (hello_resp B1, B1)"
    using B1 by (simp add: hello_req_def our_hello_def)
  obtain cert rep where resp: "hello_resp B1 = HelloResp PROTOCOL_VERSION cert (en_crl ?eb) rep"
    by (simp add: hello_resp_def our_hello_def eb)
  obtain res A1 where A1: "accept_peer EA ?b cert (en_crl ?eb) rep A0 = (res, A1)" by fastforce
  have ea: "nd_enrollment A1 = snd (merge_crl EA (en_crl ?eb) ?ea)"
  proof (cases res)
    case (Inl e)
    show ?thesis using accept_peer_refused(3) [OF A1 [unfolded Inl]] by (simp add: A0_def)
  next
    case (Inr u)
    show ?thesis using accept_peer_accepted(2) [OF A1 [unfolded Inr]] by (simp add: A0_def)
  qed
  have "nd_enrollment (node_step EA (Swarm (Response ?b (hello_resp B1))) A0) = nd_enrollment A1"
  proof (cases res)
    case (Inl e)
    then show ?thesis using A1 by (simp add: resp reject_peer_def)
  next
    case (Inr u)
    have "nd_enrollment (request_sync EA ?b A1) = nd_enrollment A1"
      using same_peers_request_sync [of A1 EA ?b] by (simp only: same_peers_def)
    with Inr A1 show ?thesis by (simp add: resp)
  qed
  moreover have "nd_enrollment (node_step EB (Swarm (Request ?a (hello_req A))) B) = ?eb"
    by (simp only: node_step.simps on_swarm_event.simps on_request_def ans split: prod.split) (simp add: eb)
  moreover have "exchange EA EB (connected EA A B) =
      (node_step EA (Swarm (Response ?b (hello_resp B1))) A0, node_step EB (Swarm (Request ?a (hello_req A))) B,
       last_request ?b A0 (node_step EA (Swarm (Response ?b (hello_resp B1))) A0))"
    by (simp only: conn exchange_def prod.case option.case self ans fst_conv Let_def)
  moreover have "en_crl (snd (merge_crl EA (en_crl ?eb) ?ea)) = newest" "en_crl ?eb = newest"
    using assms(3-6) by (auto simp: merge_crl_def)
  ultimately show ?thesis by (simp add: ea del: node_step.simps)
qed

theorem greeting_spreads_revocations_witness:
  "case exchange toy_node_env toy_node_env (connected toy_node_env near_node
        (far_node\<lparr>nd_enrollment := (nd_enrollment far_node)\<lparr>en_crl := revoking_list\<rparr>\<rparr>)) of
     (A, B, out) \<Rightarrow> en_crl (nd_enrollment A) = revoking_list \<and> en_crl (nd_enrollment B) = revoking_list"
proof -
  let ?B = "far_node\<lparr>nd_enrollment := (nd_enrollment far_node)\<lparr>en_crl := revoking_list\<rparr>\<rparr>"
  have r: "reads (clock a_flushed) = 1" by (simp add: sample_states)
  have "cert_verify toy_node_env (toy_cert 2 Member) (org_id toy_node_env [1]) (Some (toy_public [2])) None 1001 = Inr ()"
    by (rule toy_cert_ok) simp
  moreover have "\<not> is_revoked revoking_list 2" by (simp add: revoking_list_def is_revoked_sign_crl)
  moreover have "updated_at_ms revoking_list = 9" by (simp add: revoking_list_def sign_crl_simps)
  ultimately have "admits toy_node_env ?B (nd_self near_node) (en_cert (nd_enrollment near_node)) (en_crl (nd_enrollment near_node))"
    by (simp add: admits_def near_node_def far_node_def toy_node_def toy_enrollment_def merge_crl_def crl_empty_def
        cert_verify_crl toy_wall toy_cert_simps r)
  moreover have "crl_verify toy_node_env revoking_list (org_id toy_node_env [1]) = Inr ()"
    unfolding revoking_list_def by (rule sign_crl_verifies [OF toy_node_env_laws])
  ultimately show ?thesis
    using greeting_spreads_revocations [of ?B near_node toy_node_env toy_node_env revoking_list]
    by (simp add: near_node_def far_node_def toy_node_def toy_enrollment_def crl_empty_def crl_verify_def
        \<open>updated_at_ms revoking_list = 9\<close>)
qed

end
