(* ===== verification/Store.thy ===== *)
theory Store
  imports Protocol
begin

text \<open>
  \<open>rust/seed-server/src/store.rs\<close>: the durable state of the seed server, which is the organisation
  with its root key, the invites and the registry of devices, and the operations on it.

  The tables are the columns of the schema: the one row of \<open>org\<close>, the invites in the order they were
  inserted under their token, the devices under their PeerId.  Times are kept as the 64 bits SQLite
  stores, which reading gives back; serials are integers.  A transaction that fails leaves the
  state as it was.  Random keys and bytes and the readings of the clock are arguments; the texts
  of SQLite's own errors are fields of the environment.  Errors are the text \<open>anyhow\<close> displays.
\<close>

type_synonym 'a outcome = "string + 'a"

datatype ip_addr = V4 string | V6 string

record seed_env = node_env +
  no_rows_text :: string
  constraint_text :: string
  ip_parse :: "string \<Rightarrow> ip_addr option"
  port_taken :: "ip_addr \<Rightarrow> nat \<Rightarrow> bool"

definition ENROLL_SKEW_MS :: u64 where "ENROLL_SKEW_MS = 5 * 60 * 1000"

definition TOKEN_ALPHABET :: string where "TOKEN_ALPHABET = ''23456789ABCDEFGHJKMNPQRSTVWXYZ''"

section \<open>Tables\<close>

record org_row =
  or_org_id :: string
  or_org_key :: bytes
  or_node_key :: bytes
  or_name :: string
  or_admin_token :: string
  or_next_serial :: int
  or_crl_updated :: u64
  or_created :: u64

record invite =
  iv_user :: string
  iv_display :: string
  iv_role :: string
  iv_created :: u64
  iv_expires :: u64
  iv_used_at :: "u64 option"
  iv_used_by :: "string option"

record device =
  dv_serial :: int
  dv_pub :: string
  dv_user :: string
  dv_display :: string
  dv_role :: string
  dv_platform :: string
  dv_enrolled :: u64
  dv_expires :: u64
  dv_revoked :: "u64 option"

record store =
  st_org :: "org_row option"
  st_invites :: "(string \<times> invite) list"
  st_devices :: "(string \<times> device) list"

definition empty_store :: store where
  "empty_store = \<lparr>st_org = None, st_invites = [], st_devices = []\<rparr>"

section \<open>The organisation\<close>

definition random_token :: "bytes \<Rightarrow> string" where
  "random_token raw = List.map (\<lambda>b. TOKEN_ALPHABET ! (unat b mod length TOKEN_ALPHABET)) raw"

definition is_initialised :: "store \<Rightarrow> bool" where
  "is_initialised s \<longleftrightarrow> st_org s \<noteq> None"

definition init_store ::
  "'a crypto_scheme \<Rightarrow> bytes \<Rightarrow> bytes \<Rightarrow> bytes \<Rightarrow> u64 \<Rightarrow> string \<Rightarrow> store \<Rightarrow> (string \<times> string) outcome \<times> store"
where
  "init_store C org node raw now name s =
     (if is_initialised s
      then (Inl ''this data directory already holds an organisation; refusing to overwrite its root key'', s)
      else (let admin_token = random_token raw
            in (Inr (org_id C org, admin_token),
                s\<lparr>st_org := Some \<lparr>or_org_id = org_id C org, or_org_key = keypair_bytes C org,
                   or_node_key = node, or_name = name, or_admin_token = admin_token, or_next_serial = 1,
                   or_crl_updated = 0, or_created = now\<rparr>\<rparr>)))"

definition not_initialised :: string where
  "not_initialised = ''not initialised: run `seed-server init` first''"

definition org_keypair :: "'a crypto_scheme \<Rightarrow> store \<Rightarrow> bytes outcome" where
  "org_keypair C s =
     (case st_org s of
        None \<Rightarrow> Inl not_initialised
      | Some r \<Rightarrow> (case org_from_bytes C (or_org_key r) of Inl e \<Rightarrow> Inl (error_text e) | Inr k \<Rightarrow> Inr k))"

definition node_identity :: "'a crypto_scheme \<Rightarrow> store \<Rightarrow> bytes outcome" where
  "node_identity C s =
     (case st_org s of
        None \<Rightarrow> Inl not_initialised
      | Some r \<Rightarrow> (case device_from_secret C (or_node_key r) of Inl e \<Rightarrow> Inl (error_text e) | Inr k \<Rightarrow> Inr k))"

definition org_name :: "'a seed_env_scheme \<Rightarrow> store \<Rightarrow> string outcome" where
  "org_name E s = (case st_org s of None \<Rightarrow> Inl (no_rows_text E) | Some r \<Rightarrow> Inr (or_name r))"

definition admin_token :: "'a seed_env_scheme \<Rightarrow> store \<Rightarrow> string outcome" where
  "admin_token E s = (case st_org s of None \<Rightarrow> Inl (no_rows_text E) | Some r \<Rightarrow> Inr (or_admin_token r))"

section \<open>Invites\<close>

record invite_row =
  ir_token :: string
  ir_user :: string
  ir_display :: string
  ir_role :: string
  ir_expires :: u64
  ir_used_at :: "u64 option"
  ir_used_by :: "string option"

text \<open>Tokens are ASCII, so the lossy decoding of a chunk of five bytes is that chunk.\<close>

definition invite_code_display :: "invite_row \<Rightarrow> string" where
  "invite_code_display r = join_with ''-'' (chunks 5 (ir_token r))"

definition create_invite ::
  "'a seed_env_scheme \<Rightarrow> bytes \<Rightarrow> u64 \<Rightarrow> string \<Rightarrow> string \<Rightarrow> role \<Rightarrow> u64 \<Rightarrow> store \<Rightarrow> invite_row outcome \<times> store"
where
  "create_invite E raw now user display r ttl s =
     (let token = random_token raw; expires = sat_add now ttl
      in if map_of (st_invites s) token \<noteq> None then (Inl (constraint_text E), s)
         else (Inr \<lparr>ir_token = token, ir_user = user, ir_display = display, ir_role = role_as_str r,
                    ir_expires = expires, ir_used_at = None, ir_used_by = None\<rparr>,
               s\<lparr>st_invites := st_invites s @
                  [(token, \<lparr>iv_user = user, iv_display = display, iv_role = role_as_str r, iv_created = now,
                     iv_expires = expires, iv_used_at = None, iv_used_by = None\<rparr>)]\<rparr>))"

definition list_invites :: "store \<Rightarrow> invite_row list" where
  "list_invites s =
     List.map (\<lambda>(t, i). \<lparr>ir_token = t, ir_user = iv_user i, ir_display = iv_display i, ir_role = iv_role i,
                 ir_expires = iv_expires i, ir_used_at = iv_used_at i, ir_used_by = iv_used_by i\<rparr>)
       (take 200 (sort_key (\<lambda>(t, i). - sint (iv_created i)) (st_invites s)))"

definition use_invite :: "string \<Rightarrow> u64 \<Rightarrow> string \<Rightarrow> (string \<times> invite) list \<Rightarrow> (string \<times> invite) list" where
  "use_invite token now peer ivs =
     List.map (\<lambda>(t, i). (t, if t = token then i\<lparr>iv_used_at := Some now, iv_used_by := Some peer\<rparr> else i)) ivs"

section \<open>Redeeming an invite\<close>

definition abs_diff :: "u64 \<Rightarrow> u64 \<Rightarrow> u64" where
  "abs_diff a b = (if a < b then b - a else a - b)"

text \<open>\<open>INSERT ... ON CONFLICT(peer_id) DO UPDATE\<close>; the serial is unique as well.\<close>

definition updated_device :: "device option \<Rightarrow> device \<Rightarrow> device" where
  "updated_device found d =
     (case found of
        None \<Rightarrow> d
      | Some old \<Rightarrow> old\<lparr>dv_serial := dv_serial d, dv_display := dv_display d, dv_role := dv_role d,
          dv_platform := dv_platform d, dv_enrolled := dv_enrolled d, dv_expires := dv_expires d,
          dv_revoked := None\<rparr>)"

definition upsert_device :: "string \<Rightarrow> device \<Rightarrow> (string \<times> device) list \<Rightarrow> (string \<times> device) list option" where
  "upsert_device peer d ds =
     (if \<exists>(p, e)\<in>set ds. p \<noteq> peer \<and> dv_serial e = dv_serial d then None
      else Some (tbl_put peer (updated_device (tbl_get ds peer) d) ds))"

text \<open>The checks on the request itself: its age, the key, the proof of possession.\<close>

definition check_request ::
  "'a crypto_scheme \<Rightarrow> string \<Rightarrow> string \<Rightarrow> string \<Rightarrow> u64 \<Rightarrow> string \<Rightarrow> u64 \<Rightarrow> bytes outcome" where
  "check_request C token pub_hex device_name at_ms proof_hex now =
     (if ENROLL_SKEW_MS < abs_diff at_ms now then Inl ''enrolment request timestamp is too far from server time''
      else (case hex_decode C pub_hex of
              None \<Rightarrow> Inl ''device_pub is not hex''
            | Some pub \<Rightarrow>
                if length pub \<noteq> 32 then Inl ''device_pub must be 32 bytes''
                else (case hex_decode C proof_hex of
                        None \<Rightarrow> Inl ''proof is not hex''
                      | Some proof \<Rightarrow>
                          (case verify_enrollment_proof C pub token device_name at_ms proof of
                             Inl e \<Rightarrow> Inl ''enrolment proof rejected''
                           | Inr _ \<Rightarrow> Inr pub))))"

definition find_invite :: "string \<Rightarrow> u64 \<Rightarrow> store \<Rightarrow> invite outcome" where
  "find_invite token now s =
     (case map_of (st_invites s) token of
        None \<Rightarrow> Inl ''unknown invite code''
      | Some i \<Rightarrow>
          if iv_used_at i \<noteq> None then Inl ''this invite code has already been used''
          else if iv_expires i < now then Inl ''this invite code has expired''
          else Inr i)"

text \<open>\<open>now\<close> is the reading at the top, \<open>issued\<close> the one inside \<open>issue_cert\<close>.\<close>

definition redeem_invite ::
  "'a seed_env_scheme \<Rightarrow> enroll_request \<Rightarrow> u64 \<Rightarrow> u64 \<Rightarrow> u64 \<Rightarrow> store \<Rightarrow> device_cert outcome \<times> store" where
  "redeem_invite E rq cert_ttl_ms now issued s =
     (let token = normalize_invite_code (rq_invite_token rq)
      in (case check_request E token (rq_device_pub rq) (rq_device_name rq) (rq_at_ms rq) (rq_proof rq) now of
            Inl e \<Rightarrow> (Inl e, s)
          | Inr pub \<Rightarrow>
             (case find_invite token now s of
                Inl e \<Rightarrow> (Inl e, s)
              | Inr i \<Rightarrow>
                 (case st_org s of
                    None \<Rightarrow> (Inl (no_rows_text E), s)
                  | Some r \<Rightarrow>
                     (case org_from_bytes E (or_org_key r) of
                        Inl e \<Rightarrow> (Inl (error_text e), s)
                      | Inr org \<Rightarrow>
                         (let ser = or_next_serial r;
                              name = (if rq_device_name rq = [] then iv_display i else rq_device_name rq);
                              cert = issue_cert E org pub (iv_user i) name (role_from_str_lossy (iv_role i))
                                       (word_of_int ser) cert_ttl_ms issued
                          in (case cert_peer_id E cert of
                                Inl e \<Rightarrow> (Inl (error_text e), s)
                              | Inr peer \<Rightarrow>
                                 (case upsert_device (peer_text E peer)
                                         \<lparr>dv_serial = ser, dv_pub = rq_device_pub rq, dv_user = iv_user i,
                                          dv_display = name, dv_role = iv_role i, dv_platform = rq_platform rq,
                                          dv_enrolled = now, dv_expires = expires_at_ms (claims cert),
                                          dv_revoked = None\<rparr> (st_devices s) of
                                    None \<Rightarrow> (Inl (constraint_text E), s)
                                  | Some ds \<Rightarrow>
                                     (Inr cert,
                                      s\<lparr>st_org := Some (r\<lparr>or_next_serial := ser + 1\<rparr>),
                                        st_invites := use_invite token now (peer_text E peer) (st_invites s),
                                        st_devices := ds\<rparr>)))))))))"

section \<open>Devices and revocation\<close>

record device_row =
  dr_serial :: u64
  dr_peer_id :: string
  dr_user :: string
  dr_display :: string
  dr_role :: string
  dr_platform :: string
  dr_enrolled :: u64
  dr_expires :: u64
  dr_revoked :: "u64 option"

definition list_devices :: "store \<Rightarrow> device_row list" where
  "list_devices s =
     List.map (\<lambda>(p, d). \<lparr>dr_serial = word_of_int (dv_serial d), dr_peer_id = p, dr_user = dv_user d,
                 dr_display = dv_display d, dr_role = dv_role d, dr_platform = dv_platform d,
                 dr_enrolled = dv_enrolled d, dr_expires = dv_expires d, dr_revoked = dv_revoked d\<rparr>)
       (sort_key (\<lambda>(p, d). dv_serial d) (st_devices s))"

definition active :: "int \<Rightarrow> device \<Rightarrow> bool" where
  "active ser d \<longleftrightarrow> dv_serial d = ser \<and> dv_revoked d = None"

text \<open>\<open>t\<close> stamps the device, \<open>u\<close> the list.\<close>

definition revoke :: "u64 \<Rightarrow> u64 \<Rightarrow> u64 \<Rightarrow> store \<Rightarrow> unit outcome \<times> store" where
  "revoke ser t u s =
     (if \<not> (\<exists>(p, d)\<in>set (st_devices s). active (sint ser) d)
      then (Inl (''no active device with serial '' @ show_nat (unat ser)), s)
      else (Inr (),
            s\<lparr>st_devices := List.map (\<lambda>(p, d). (p, if active (sint ser) d then d\<lparr>dv_revoked := Some t\<rparr> else d))
                             (st_devices s),
              st_org := map_option (\<lambda>r. r\<lparr>or_crl_updated := u\<rparr>) (st_org s)\<rparr>))"

definition revoked_serials :: "store \<Rightarrow> u64 list" where
  "revoked_serials s =
     List.map word_of_int (sort (List.map (dv_serial \<circ> snd)
       (List.filter (\<lambda>(p, d). dv_revoked d \<noteq> None) (st_devices s))))"

definition store_crl :: "'a seed_env_scheme \<Rightarrow> store \<Rightarrow> revocation_list outcome" where
  "store_crl E s =
     (case org_keypair E s of
        Inl e \<Rightarrow> Inl e
      | Inr org \<Rightarrow>
          (case st_org s of
             None \<Rightarrow> Inl (no_rows_text E)
           | Some r \<Rightarrow>
               Inr (if revoked_serials s = [] then crl_empty (org_id E org)
                    else sign_crl E org (revoked_serials s) (or_crl_updated r))))"

end
