(* ===== verification/Http.thy ===== *)
theory Http
  imports Store
begin

text \<open>
  \<open>rust/seed-server/src/http.rs\<close>: enrolment and administration over HTTP.  A request is a method
  with its decoded body and, for the administrative ones, the text of its \<open>Authorization\<close> header if
  it has one; an answer is a status with a body.  Routing and JSON are axum's.  \<open>raw\<close> are the random
  bytes, \<open>t\<close> and \<open>u\<close> the first and second reading of the clock a handler takes.
\<close>

unbundle bit_operations_syntax

record app_state =
  as_store :: store
  as_bootstrap :: "string list"
  as_cert_ttl_ms :: u64

section \<open>Errors\<close>

record api_error =
  ae_status :: nat
  ae_message :: string

type_synonym 'a api_result = "api_error + 'a"

definition bad_request :: "string \<Rightarrow> api_error" where
  "bad_request m = \<lparr>ae_status = 400, ae_message = m\<rparr>"

definition unauthorized :: api_error where
  "unauthorized = \<lparr>ae_status = 401, ae_message = ''admin token required''\<rparr>"

definition internal :: "string \<Rightarrow> api_error" where
  "internal m = \<lparr>ae_status = 500, ae_message = m\<rparr>"

definition or_else :: "(string \<Rightarrow> api_error) \<Rightarrow> 'x outcome \<Rightarrow> 'x api_result" where
  "or_else f r = (case r of Inl m \<Rightarrow> Inl (f m) | Inr x \<Rightarrow> Inr x)"

section \<open>The administrator's token\<close>

text \<open>
  The length difference is truncated to a byte; past the end of a string the given token reads as
  0 and the expected one as 1.
\<close>

definition token_matches :: "string \<Rightarrow> string \<Rightarrow> bool" where
  "token_matches given expected =
     (let a = as_bytes given; b = as_bytes expected;
          start = (ucast ((word_of_nat (length a) :: u64) XOR word_of_nat (length b)) :: u8)
      in fold (\<lambda>i diff. diff OR ((if i < length a then a ! i else 0) XOR (if i < length b then b ! i else 1)))
           [0..<max (length a) (length b)] start = 0)"

definition strip_bearer :: "string option \<Rightarrow> string" where
  "strip_bearer h =
     (case h of None \<Rightarrow> []
      | Some v \<Rightarrow> if take 7 v = ''Bearer '' then drop 7 v else [])"

definition require_admin :: "'a seed_env_scheme \<Rightarrow> app_state \<Rightarrow> string option \<Rightarrow> unit api_result" where
  "require_admin E st header =
     (case or_else internal (admin_token E (as_store st)) of
        Inl e \<Rightarrow> Inl e
      | Inr expected \<Rightarrow> if token_matches (strip_bearer header) expected then Inr () else Inl unauthorized)"

section \<open>Handlers\<close>

definition org_info_of :: "'a seed_env_scheme \<Rightarrow> app_state \<Rightarrow> org_info api_result" where
  "org_info_of E st =
     (case or_else internal (org_keypair E (as_store st)) of
        Inl e \<Rightarrow> Inl e
      | Inr org \<Rightarrow>
          (case or_else internal (org_name E (as_store st)) of
             Inl e \<Rightarrow> Inl e
           | Inr name \<Rightarrow>
               Inr \<lparr>oi_org_id = org_id E org, oi_org_pub = hex_encode E (ed_public E org), oi_name = name,
                    oi_bootstrap = as_bootstrap st\<rparr>))"

definition enroll ::
  "'a seed_env_scheme \<Rightarrow> enroll_request \<Rightarrow> u64 \<Rightarrow> u64 \<Rightarrow> app_state \<Rightarrow> enroll_response api_result \<times> app_state" where
  "enroll E rq t u st =
     (case redeem_invite E rq (as_cert_ttl_ms st) t u (as_store st) of
        (Inl m, s) \<Rightarrow> (Inl (bad_request m), st\<lparr>as_store := s\<rparr>)
      | (Inr cert, s) \<Rightarrow>
          (let st = st\<lparr>as_store := s\<rparr>
           in (case or_else internal (org_keypair E s) of
                 Inl e \<Rightarrow> (Inl e, st)
               | Inr org \<Rightarrow>
                   (case or_else internal (store_crl E s) of
                      Inl e \<Rightarrow> (Inl e, st)
                    | Inr l \<Rightarrow>
                        (case or_else internal (org_name E s) of
                           Inl e \<Rightarrow> (Inl e, st)
                         | Inr name \<Rightarrow>
                             (Inr \<lparr>rs_cert = cert, rs_crl = l,
                                   rs_org = \<lparr>oi_org_id = org_id E org, oi_org_pub = hex_encode E (ed_public E org),
                                             oi_name = name, oi_bootstrap = as_bootstrap st\<rparr>\<rparr>, st))))))"

text \<open>A missing field has its default; the trimmed user id is empty when all its characters are white.\<close>

record create_body =
  cb_user_id :: string
  cb_display_name :: "string option"
  cb_role :: "string option"
  cb_ttl_hours :: "u64 option"

definition or_default :: "'x \<Rightarrow> 'x option \<Rightarrow> 'x" where
  "or_default d x = (case x of None \<Rightarrow> d | Some v \<Rightarrow> v)"

definition default_role :: string where "default_role = ''member''"
definition default_ttl_hours :: u64 where "default_ttl_hours = 24"

definition sat_mul :: "u64 \<Rightarrow> u64 \<Rightarrow> u64" where
  "sat_mul a b = (if 2 ^ 64 \<le> unat a * unat b then - 1 else a * b)"

record invite_created =
  ic_invite_code :: string
  ic_user_id :: string
  ic_role :: string
  ic_expires_at_ms :: u64

definition create_invite_handler ::
  "'a seed_env_scheme \<Rightarrow> string option \<Rightarrow> create_body \<Rightarrow> bytes \<Rightarrow> u64 \<Rightarrow> app_state
    \<Rightarrow> invite_created api_result \<times> app_state" where
  "create_invite_handler E header body raw t st =
     (case require_admin E st header of
        Inl e \<Rightarrow> (Inl e, st)
      | Inr _ \<Rightarrow>
          if blank (cb_user_id body) then (Inl (bad_request ''user_id is required''), st)
          else (let given = or_default [] (cb_display_name body);
                    display = (if given = [] then cb_user_id body else given)
                in (case create_invite E raw t (cb_user_id body) display
                           (role_from_str_lossy (or_default default_role (cb_role body)))
                           (sat_mul (or_default default_ttl_hours (cb_ttl_hours body)) 3600000) (as_store st) of
                      (Inl m, s) \<Rightarrow> (Inl (internal m), st\<lparr>as_store := s\<rparr>)
                    | (Inr r, s) \<Rightarrow>
                        (Inr \<lparr>ic_invite_code = ir_token r, ic_user_id = ir_user r, ic_role = ir_role r,
                              ic_expires_at_ms = ir_expires r\<rparr>, st\<lparr>as_store := s\<rparr>))))"

definition revoke_handler ::
  "'a seed_env_scheme \<Rightarrow> string option \<Rightarrow> u64 \<Rightarrow> u64 \<Rightarrow> u64 \<Rightarrow> app_state
    \<Rightarrow> (u64 \<times> revocation_list) api_result \<times> app_state" where
  "revoke_handler E header ser t u st =
     (case require_admin E st header of
        Inl e \<Rightarrow> (Inl e, st)
      | Inr _ \<Rightarrow>
          (case revoke ser t u (as_store st) of
             (Inl m, s) \<Rightarrow> (Inl (bad_request m), st\<lparr>as_store := s\<rparr>)
           | (Inr _, s) \<Rightarrow>
               (case or_else internal (store_crl E s) of
                  Inl e \<Rightarrow> (Inl e, st\<lparr>as_store := s\<rparr>)
                | Inr l \<Rightarrow> (Inr (ser, l), st\<lparr>as_store := s\<rparr>))))"

definition crl_handler :: "'a seed_env_scheme \<Rightarrow> app_state \<Rightarrow> revocation_list api_result" where
  [simp]: "crl_handler E st = or_else internal (store_crl E (as_store st))"

definition list_invites_handler :: "'a seed_env_scheme \<Rightarrow> string option \<Rightarrow> app_state \<Rightarrow> invite_row list api_result" where
  [simp]: "list_invites_handler E header st =
     (case require_admin E st header of Inl e \<Rightarrow> Inl e | Inr _ \<Rightarrow> Inr (list_invites (as_store st)))"

definition list_devices_handler :: "'a seed_env_scheme \<Rightarrow> string option \<Rightarrow> app_state \<Rightarrow> device_row list api_result" where
  [simp]: "list_devices_handler E header st =
     (case require_admin E st header of Inl e \<Rightarrow> Inl e | Inr _ \<Rightarrow> Inr (list_devices (as_store st)))"

section \<open>The router\<close>

datatype api_request =
    GetHealth
  | GetOrg
  | PostEnroll enroll_request
  | GetCrl
  | PostInvites "string option" create_body
  | GetInvites "string option"
  | GetDevices "string option"
  | PostRevoke "string option" u64

datatype api_body =
    BodyOk
  | BodyOrg org_info
  | BodyEnrolled enroll_response
  | BodyCrl revocation_list
  | BodyInvite invite_created
  | BodyInvites "invite_row list"
  | BodyDevices "device_row list"
  | BodyRevoked u64 revocation_list
  | BodyError string

definition respond :: "('x \<Rightarrow> api_body) \<Rightarrow> 'x api_result \<Rightarrow> nat \<times> api_body" where
  "respond f r = (case r of Inl e \<Rightarrow> (ae_status e, BodyError (ae_message e)) | Inr x \<Rightarrow> (200, f x))"

fun serve ::
  "'a seed_env_scheme \<Rightarrow> bytes \<Rightarrow> u64 \<Rightarrow> u64 \<Rightarrow> api_request \<Rightarrow> app_state \<Rightarrow> (nat \<times> api_body) \<times> app_state" where
  "serve E raw t u GetHealth st = ((200, BodyOk), st)"
| "serve E raw t u GetOrg st = (respond BodyOrg (org_info_of E st), st)"
| "serve E raw t u (PostEnroll rq) st =
     (case enroll E rq t u st of (r, st) \<Rightarrow> (respond BodyEnrolled r, st))"
| "serve E raw t u GetCrl st = (respond BodyCrl (crl_handler E st), st)"
| "serve E raw t u (PostInvites h body) st =
     (case create_invite_handler E h body raw t st of (r, st) \<Rightarrow> (respond BodyInvite r, st))"
| "serve E raw t u (GetInvites h) st =
     (respond BodyInvites (list_invites_handler E h st), st)"
| "serve E raw t u (GetDevices h) st =
     (respond BodyDevices (list_devices_handler E h st), st)"
| "serve E raw t u (PostRevoke h ser) st =
     (case revoke_handler E h ser t u st of (r, st) \<Rightarrow> (respond (\<lambda>(n, l). BodyRevoked n l) r, st))"

end
