(* ===== verification/Seed.thy ===== *)
theory Seed
  imports Http Node
begin

text \<open>
  \<open>rust/seed-server/src/main.rs\<close>: the commands of the seed server, its start as a node with a
  certificate it issues to itself, and the addresses it advertises.  A command gives the text it
  prints; argument parsing, sockets and logging are outside the model.
\<close>

definition DAY_MS :: u64 where "DAY_MS = 24 * 3600000"
definition SERVER_SERIAL :: u64 where "SERVER_SERIAL = 0"

section \<open>Addresses\<close>

fun contains :: "string \<Rightarrow> string \<Rightarrow> bool" where
  "contains sub [] \<longleftrightarrow> sub = []"
| "contains sub (c # cs) \<longleftrightarrow> take (length sub) (c # cs) = sub \<or> contains sub cs"

definition announce_host :: "'a seed_env_scheme \<Rightarrow> nat \<Rightarrow> nat \<Rightarrow> string \<Rightarrow> string \<Rightarrow> string list" where
  "announce_host E quic_port tcp_port peer host =
     (if take 1 host = ''/'' then [if contains ''/p2p/'' host then host else host @ ''/p2p/'' @ peer]
      else (let prefix = (case ip_parse E host of
                            Some (V4 ip) \<Rightarrow> ''/ip4/'' @ ip
                          | Some (V6 ip) \<Rightarrow> ''/ip6/'' @ ip
                          | None \<Rightarrow> ''/dns4/'' @ host)
            in [prefix @ ''/udp/'' @ show_nat quic_port @ ''/quic-v1/p2p/'' @ peer,
                prefix @ ''/tcp/'' @ show_nat tcp_port @ ''/p2p/'' @ peer]))"

definition announce_addrs :: "'a seed_env_scheme \<Rightarrow> string list \<Rightarrow> nat \<Rightarrow> nat \<Rightarrow> string \<Rightarrow> string list" where
  "announce_addrs E hosts quic_port tcp_port peer =
     concat (List.map (announce_host E quic_port tcp_port peer) hosts)"

definition is_advertisable :: "string \<Rightarrow> bool" where
  "is_advertisable addr \<longleftrightarrow>
     \<not> contains ''/ip4/127.'' addr \<and> \<not> contains ''/ip6/::1'' addr \<and> \<not> contains ''/ip4/0.0.0.0'' addr"

text \<open>The task that follows the node's events; the rest of them are logged.\<close>

fun learn_addr :: "node_event \<Rightarrow> app_state \<Rightarrow> app_state" where
  "learn_addr (Listening addr) st =
     (if is_advertisable addr \<and> addr \<notin> set (as_bootstrap st)
      then st\<lparr>as_bootstrap := as_bootstrap st @ [addr]\<rparr> else st)"
| "learn_addr ev st = st"

section \<open>Running\<close>

record run_args =
  ra_http_port :: nat
  ra_http_bind :: string
  ra_quic_port :: nat
  ra_tcp_port :: nat
  ra_announce :: "string list"
  ra_replica :: bool
  ra_cert_days :: u64

definition server_cert :: "'a seed_env_scheme \<Rightarrow> bytes \<Rightarrow> bytes \<Rightarrow> string \<Rightarrow> u64 \<Rightarrow> u64 \<Rightarrow> device_cert" where
  "server_cert E org identity name cert_days issued =
     issue_cert E org (ed_public E identity) ''seed-server'' (name @ '' seed server'') Admin SERVER_SERIAL
       (sat_mul cert_days DAY_MS) issued"

definition lift_error :: "'x result \<Rightarrow> 'x outcome" where
  "lift_error r = (case r of Inl e \<Rightarrow> Inl (error_text e) | Inr x \<Rightarrow> Inr x)"

definition socket_text :: "ip_addr \<Rightarrow> nat \<Rightarrow> string" where
  "socket_text ip port =
     (case ip of V4 a \<Rightarrow> a @ '':'' @ show_nat port | V6 a \<Rightarrow> ''['' @ a @ '']:'' @ show_nat port)"

text \<open>The socket of the HTTP interface, bound after the node has been started.\<close>

definition bind_http :: "'a seed_env_scheme \<Rightarrow> run_args \<Rightarrow> unit outcome" where
  "bind_http E args =
     (case ip_parse E (ra_http_bind args) of
        None \<Rightarrow> Inl ''--http-bind is not an IP address''
      | Some ip \<Rightarrow>
          if port_taken E ip (ra_http_port args) then Inl (''binding '' @ socket_text ip (ra_http_port args))
          else Inr ())"

text \<open>Up to the point where the server listens: the state of its node and of its HTTP interface.\<close>

definition run_server ::
  "'a seed_env_scheme \<Rightarrow> run_args \<Rightarrow> replica_file \<Rightarrow> u64 \<Rightarrow> u64 \<Rightarrow> store \<Rightarrow> (node \<times> app_state) outcome" where
  "run_server E args replica issued now s =
     (case node_identity E s of
        Inl m \<Rightarrow> Inl m
      | Inr identity \<Rightarrow>
     (case org_keypair E s of
        Inl m \<Rightarrow> Inl m
      | Inr org \<Rightarrow>
     (case org_name E s of
        Inl m \<Rightarrow> Inl m
      | Inr name \<Rightarrow>
     (case store_crl E s of
        Inl m \<Rightarrow> Inl m
      | Inr l \<Rightarrow>
     (case lift_error (open_authenticated E replica identity) of
        Inl m \<Rightarrow> Inl m
      | Inr d \<Rightarrow>
     (case lift_error (seed_server_config E (ra_quic_port args) (ra_tcp_port args)) of
        Inl m \<Rightarrow> Inl m
      | Inr cfg \<Rightarrow>
     (let cert = server_cert E org identity name (ra_cert_days args) issued;
          enr = \<lparr>en_org_id = org_id E org, en_org_name = name, en_cert = cert, en_crl = l, en_bootstrap = []\<rparr>
      in (case lift_error (spawn E (cfg\<lparr>replicate_data := ra_replica args\<rparr>) identity enr d now) of
            Inl m \<Rightarrow> Inl m
          | Inr N \<Rightarrow>
              (case bind_http E args of
                 Inl m \<Rightarrow> Inl m
               | Inr _ \<Rightarrow>
                   Inr (N, \<lparr>as_store = s,
                            as_bootstrap = announce_addrs E (ra_announce args) (ra_quic_port args)
                                             (ra_tcp_port args) (peer_text E (device_peer_id E identity)),
                            as_cert_ttl_ms = sat_mul (ra_cert_days args) DAY_MS\<rparr>))))))))))"

section \<open>Commands\<close>

definition newline :: string where "newline = [char_of (10 :: nat)]"

definition println :: "string \<Rightarrow> string" where "println s = s @ newline"

definition pad_right :: "nat \<Rightarrow> string \<Rightarrow> string" where
  "pad_right n s = s @ replicate (n - length (utf8_chars s)) (CHR '' '')"

definition pad_left :: "nat \<Rightarrow> string \<Rightarrow> string" where
  "pad_left n s = replicate (n - length (utf8_chars s)) (CHR '' '') @ s"

definition device_line :: "device_row \<Rightarrow> string" where
  "device_line d =
     println (pad_left 4 (show_nat (unat (dr_serial d))) @ ''  '' @ pad_right 10 (dr_role d) @ '' ''
       @ pad_right 18 (dr_display d) @ '' '' @ pad_right 9 (dr_platform d) @ '' '' @ dr_peer_id d
       @ (if dr_revoked d \<noteq> None then ''   [REVOKED]'' else []))"

datatype seed_cmd =
    CmdInit string
  | CmdInvite string "string option" string u64
  | CmdDevices
  | CmdRevoke u64
  | CmdToken

text \<open>What \<open>Init\<close> prints once the organisation exists; \<open>dir\<close> is the data directory as displayed.\<close>

definition created_text :: "string \<Rightarrow> string \<Rightarrow> string \<Rightarrow> string \<Rightarrow> string \<Rightarrow> string" where
  "created_text dir name org peer token =
     println (''Organisation created.'' @ newline) @ println (''  name         '' @ name)
     @ println (''  org id       '' @ org) @ println (''  server peer  '' @ peer)
     @ println (''  admin token  '' @ token @ newline)
     @ println (''Keep '' @ dir @ '' safe: it holds the org root key, and losing it'')
     @ println ''invalidates every certificate ever issued.''"

fun run_command ::
  "'a seed_env_scheme \<Rightarrow> string \<Rightarrow> bytes \<Rightarrow> bytes \<Rightarrow> bytes \<Rightarrow> u64 \<Rightarrow> u64 \<Rightarrow> seed_cmd \<Rightarrow> store
    \<Rightarrow> string outcome \<times> store" where
  "run_command E dir org node raw t u (CmdInit name) s =
     (case init_store E org node raw t name s of
        (Inl m, s) \<Rightarrow> (Inl m, s)
      | (Inr (oid, token), s) \<Rightarrow>
          (case node_identity E s of
             Inl m \<Rightarrow> (Inl m, s)
           | Inr identity \<Rightarrow>
               (Inr (created_text dir name oid (peer_text E (device_peer_id E identity)) token), s)))"
| "run_command E dir org node raw t u (CmdInvite user name rl hours) s =
     (case create_invite E raw t user (or_default user name) (role_from_str_lossy rl) (sat_mul hours 3600000) s of
        (Inl m, s) \<Rightarrow> (Inl m, s)
      | (Inr r, s) \<Rightarrow>
          (Inr (println (''Invite code for '' @ user @ '' ('' @ rl @ ''), valid '' @ show_nat (unat hours)
                  @ ''h:'' @ newline)
                @ println (''    '' @ invite_code_display r @ newline)), s))"
| "run_command E dir org node raw t u CmdDevices s =
     (Inr ((if list_devices s = [] then println ''No devices enrolled yet.'' else [])
           @ concat (List.map device_line (list_devices s))), s)"
| "run_command E dir org node raw t u (CmdRevoke ser) s =
     (case revoke ser t u s of
        (Inl m, s) \<Rightarrow> (Inl m, s)
      | (Inr _, s) \<Rightarrow>
          (Inr (println (''Device '' @ show_nat (unat ser) @ '' revoked. The signed revocation list now names it;'')
                @ println ''devices pick it up from the server or from each other.''), s))"
| "run_command E dir org node raw t u CmdToken s =
     (case admin_token E s of Inl m \<Rightarrow> (Inl m, s) | Inr token \<Rightarrow> (Inr (println token), s))"

section \<open>The running server\<close>

text \<open>
  The node's task and the HTTP interface run side by side; they share the list of advertised addresses,
  into which every listening address the node reports goes.  The command line is another process on the
  same store.  Nothing carries a change of the store to the node.
\<close>

record server =
  sv_node :: node
  sv_api :: app_state

definition learn_addrs :: "action list \<Rightarrow> app_state \<Rightarrow> app_state" where
  "learn_addrs as st = fold (\<lambda>a st. case a of Emit ev \<Rightarrow> learn_addr ev st | _ \<Rightarrow> st) as st"

datatype server_input =
    NetInput input
  | ApiCall bytes u64 u64 api_request
  | CliCall string bytes bytes bytes u64 u64 seed_cmd

fun server_step :: "'a seed_env_scheme \<Rightarrow> server_input \<Rightarrow> server \<Rightarrow> server" where
  "server_step E (NetInput i) S =
     (let N = node_step E i (sv_node S)
      in S\<lparr>sv_node := N, sv_api := learn_addrs (drop (length (acts (sv_node S))) (acts N)) (sv_api S)\<rparr>)"
| "server_step E (ApiCall raw t u rq) S = S\<lparr>sv_api := snd (serve E raw t u rq (sv_api S))\<rparr>"
| "server_step E (CliCall dir org nk raw t u cmd) S =
     S\<lparr>sv_api := (sv_api S)\<lparr>as_store := snd (run_command E dir org nk raw t u cmd (as_store (sv_api S)))\<rparr>\<rparr>"

end
