(* ===== verification/Registry.thy ===== *)
theory Registry
  imports Seed
begin

text \<open>
  Lemmas on the seed server's store: its operations as one step function, the invariant of the
  registry, what a redemption does, the certificates a history of operations issues, and the
  revocation list.
\<close>

section \<open>Operations and histories\<close>

datatype store_op =
    OpInit bytes bytes bytes u64 string
  | OpInvite bytes u64 string string role u64
  | OpRedeem enroll_request u64 u64 u64
  | OpRevoke u64 u64 u64

fun store_step :: "'a seed_env_scheme \<Rightarrow> store_op \<Rightarrow> store \<Rightarrow> store" where
  "store_step E (OpInit org node raw now name) s = snd (init_store E org node raw now name s)"
| "store_step E (OpInvite raw now user display r ttl) s = snd (create_invite E raw now user display r ttl s)"
| "store_step E (OpRedeem rq ttl now issued) s = snd (redeem_invite E rq ttl now issued s)"
| "store_step E (OpRevoke ser t u) s = snd (revoke ser t u s)"

text \<open>The certificates a history issues, each with the invite that was spent for it.\<close>

fun minted :: "'a seed_env_scheme \<Rightarrow> store_op \<Rightarrow> store \<Rightarrow> (string \<times> device_cert) list" where
  "minted E (OpRedeem rq ttl now issued) s =
     (case fst (redeem_invite E rq ttl now issued s) of
        Inl m \<Rightarrow> [] | Inr cert \<Rightarrow> [(normalize_invite_code (rq_invite_token rq), cert)])"
| "minted E op s = []"

fun ledger :: "'a seed_env_scheme \<Rightarrow> store_op list \<Rightarrow> store \<Rightarrow> (string \<times> device_cert) list" where
  "ledger E [] s = []"
| "ledger E (op # ops) s = minted E op s @ ledger E ops (store_step E op s)"

section \<open>A redemption\<close>

text \<open>What a successful redemption checked and changed.\<close>

definition redeemed ::
  "'a seed_env_scheme \<Rightarrow> enroll_request \<Rightarrow> u64 \<Rightarrow> u64 \<Rightarrow> u64 \<Rightarrow> store \<Rightarrow> device_cert \<Rightarrow> store \<Rightarrow> bool" where
  "redeemed E rq ttl now issued s cert s' \<longleftrightarrow>
     (\<exists>pub i r org peer ds.
        let token = normalize_invite_code (rq_invite_token rq);
            name = (if rq_device_name rq = [] then iv_display i else rq_device_name rq)
        in check_request E token (rq_device_pub rq) (rq_device_name rq) (rq_at_ms rq) (rq_proof rq) now = Inr pub
         \<and> find_invite token now s = Inr i \<and> st_org s = Some r \<and> org_from_bytes E (or_org_key r) = Inr org
         \<and> cert = issue_cert E org pub (iv_user i) name (role_from_str_lossy (iv_role i))
                    (word_of_int (or_next_serial r)) ttl issued
         \<and> cert_peer_id E cert = Inr peer
         \<and> upsert_device (peer_text E peer)
              \<lparr>dv_serial = or_next_serial r, dv_pub = rq_device_pub rq, dv_user = iv_user i, dv_display = name,
               dv_role = iv_role i, dv_platform = rq_platform rq, dv_enrolled = now,
               dv_expires = expires_at_ms (claims cert), dv_revoked = None\<rparr> (st_devices s) = Some ds
         \<and> s' = s\<lparr>st_org := Some (r\<lparr>or_next_serial := or_next_serial r + 1\<rparr>),
                 st_invites := use_invite token now (peer_text E peer) (st_invites s), st_devices := ds\<rparr>)"

lemma redeem_ok: "redeem_invite E rq ttl now issued s = (Inr cert, s') \<longleftrightarrow> redeemed E rq ttl now issued s cert s'"
  unfolding redeem_invite_def redeemed_def Let_def
  by (auto split: sum.splits option.splits)

lemma redeem_failed: "fst (redeem_invite E rq ttl now issued s) = Inl m \<Longrightarrow> snd (redeem_invite E rq ttl now issued s) = s"
  unfolding redeem_invite_def Let_def by (auto split: sum.splits option.splits)

section \<open>The invariant\<close>

definition next_serial :: "store \<Rightarrow> int" where
  "next_serial s = (case st_org s of None \<Rightarrow> 1 | Some r \<Rightarrow> or_next_serial r)"

definition reg_ok :: "store \<Rightarrow> bool" where
  "reg_ok s \<longleftrightarrow> tbl_wf (st_devices s) \<and> distinct (List.map fst (st_invites s))
     \<and> 1 \<le> next_serial s
     \<and> (\<forall>p d. tbl_get (st_devices s) p = Some d \<longrightarrow> 1 \<le> dv_serial d \<and> dv_serial d < next_serial s)
     \<and> (\<forall>p q d e. tbl_get (st_devices s) p = Some d \<longrightarrow> tbl_get (st_devices s) q = Some e
          \<longrightarrow> dv_serial d = dv_serial e \<longrightarrow> p = q)"

lemma reg_ok_empty: "reg_ok empty_store" "next_serial empty_store = 1"
  by (simp_all add: reg_ok_def next_serial_def empty_store_def)

lemma upsert_device_get:
  assumes "upsert_device peer d ds = Some ds'"
  shows "\<exists>e. dv_serial e = dv_serial d \<and> dv_revoked e = (if tbl_get ds peer = None then dv_revoked d else None)
    \<and> dv_user e = (case tbl_get ds peer of None \<Rightarrow> dv_user d | Some old \<Rightarrow> dv_user old)
    \<and> ds' = tbl_put peer e ds"
  using assms
  by (intro exI [of _ "updated_device (tbl_get ds peer) d"])
     (auto simp: upsert_device_def updated_device_def split: if_splits option.splits)

lemma upsert_device_fresh:
  assumes "\<forall>p e. tbl_get ds p = Some e \<longrightarrow> dv_serial e < dv_serial d" "tbl_wf ds"
  shows "\<exists>ds'. upsert_device peer d ds = Some ds'"
proof -
  have "\<not> (\<exists>(p, e)\<in>set ds. p \<noteq> peer \<and> dv_serial e = dv_serial d)"
    using assms by (fastforce simp: tbl_get_Some_set)
  then show ?thesis by (simp add: upsert_device_def)
qed

lemma use_invite_get:
  "tbl_get (use_invite token now peer ivs) t =
     map_option (\<lambda>i. if t = token then i\<lparr>iv_used_at := Some now, iv_used_by := Some peer\<rparr> else i) (tbl_get ivs t)"
  by (induction ivs) (auto simp: use_invite_def)

lemma use_invite_keys [simp]: "List.map fst (use_invite token now peer ivs) = List.map fst ivs"
  by (induction ivs) (auto simp: use_invite_def)

lemma map_keys_same: "List.map fst (List.map (\<lambda>(p, d). (p, f d)) ds) = List.map fst ds"
  by (induction ds) auto

lemma revoke_devices:
  "tbl_get (st_devices (snd (revoke ser t u s))) p =
     map_option (\<lambda>d. if active (sint ser) d then d\<lparr>dv_revoked := Some t\<rparr> else d) (tbl_get (st_devices s) p)"
  "List.map fst (st_devices (snd (revoke ser t u s))) = List.map fst (st_devices s)"
  "st_invites (snd (revoke ser t u s)) = st_invites s" "next_serial (snd (revoke ser t u s)) = next_serial s"
proof -
  let ?f = "\<lambda>d. if active (sint ser) d then d\<lparr>dv_revoked := Some t\<rparr> else d"
  have id: "List.map (\<lambda>(p, d). (p, ?f d)) ds = ds" if "\<not> (\<exists>(p, d)\<in>set ds. active (sint ser) d)" for ds :: "(string \<times> device) list"
    using that by (intro map_idI) auto
  have dev: "st_devices (snd (revoke ser t u s)) = List.map (\<lambda>(p, d). (p, ?f d)) (st_devices s)"
    using id [of "st_devices s"] by (auto simp: revoke_def)
  show "tbl_get (st_devices (snd (revoke ser t u s))) p = map_option ?f (tbl_get (st_devices s) p)"
    unfolding dev map_of_map by simp
  show "List.map fst (st_devices (snd (revoke ser t u s))) = List.map fst (st_devices s)"
    unfolding dev by (rule map_keys_same)
  show "st_invites (snd (revoke ser t u s)) = st_invites s" "next_serial (snd (revoke ser t u s)) = next_serial s"
    by (auto simp: revoke_def next_serial_def split: option.split)
qed

lemma tbl_wf_keys: "List.map fst t = List.map fst s \<Longrightarrow> tbl_wf t = tbl_wf s"
  by (simp add: tbl_wf_def)

lemma redeemed_keeps:
  assumes "redeemed E rq ttl now issued s cert s'" "reg_ok s"
  shows "reg_ok s'" "next_serial s' = next_serial s + 1" "serial (claims cert) = word_of_int (next_serial s)"
proof -
  from assms(1) obtain peer d ds r t where up: "upsert_device peer d (st_devices s) = Some ds"
    and r: "st_org s = Some r" and d: "dv_serial d = or_next_serial r"
    and c: "serial (claims cert) = word_of_int (or_next_serial r)"
    and s': "st_devices s' = ds" "st_org s' = Some (r\<lparr>or_next_serial := or_next_serial r + 1\<rparr>)"
      "st_invites s' = use_invite t now peer (st_invites s)"
    unfolding redeemed_def Let_def by (fastforce simp: issue_cert_def Let_def)
  obtain e where e: "dv_serial e = next_serial s" "ds = tbl_put peer e (st_devices s)"
    using upsert_device_get [OF up] d r by (auto simp: next_serial_def)
  show n: "next_serial s' = next_serial s + 1" using s' r by (simp add: next_serial_def)
  show "serial (claims cert) = word_of_int (next_serial s)" using c r by (simp add: next_serial_def)
  show "reg_ok s'"
    using assms(2) unfolding reg_ok_def n s' e(2)
    by (auto simp: tbl_wf_put tbl_get_put e(1) split: if_splits) (force split: if_splits)+
qed

lemma reg_ok_step:
  assumes "reg_ok s"
  shows "reg_ok (store_step E op s)" "next_serial s \<le> next_serial (store_step E op s)"
proof -
  have "reg_ok (store_step E op s) \<and> next_serial s \<le> next_serial (store_step E op s)"
  proof (cases op)
    case (OpInit org node raw now name)
    have "st_devices s = []" if "st_org s = None"
    proof (rule ccontr)
      assume "st_devices s \<noteq> []"
      then obtain p d ds where "st_devices s = (p, d) # ds" by (metis list.exhaust prod.exhaust)
      then have "tbl_get (st_devices s) p = Some d" by simp
      with assms that show False unfolding reg_ok_def by (fastforce simp: next_serial_def)
    qed
    with assms OpInit show ?thesis
      by (auto simp: init_store_def is_initialised_def reg_ok_def next_serial_def Let_def)
  next
    case (OpInvite raw now user display r ttl)
    with assms show ?thesis
      by (auto simp: create_invite_def Let_def reg_ok_def next_serial_def map_of_eq_None_iff)
  next
    case (OpRedeem rq ttl now issued)
    obtain res s' where rd: "redeem_invite E rq ttl now issued s = (res, s')" by fastforce
    show ?thesis
    proof (cases res)
      case (Inl m)
      with rd redeem_failed [of E rq ttl now issued s m] assms OpRedeem show ?thesis by simp
    next
      case (Inr cert)
      with rd have "redeemed E rq ttl now issued s cert s'" by (simp add: redeem_ok)
      from redeemed_keeps [OF this assms] rd OpRedeem show ?thesis by simp
    qed
  next
    case (OpRevoke ser t u)
    have "reg_ok (snd (revoke ser t u s))"
      using assms unfolding reg_ok_def revoke_devices tbl_wf_keys [OF revoke_devices(2)]
      by (fastforce split: if_splits)
    with OpRevoke show ?thesis by (simp add: revoke_devices(4))
  qed
  then show "reg_ok (store_step E op s)" "next_serial s \<le> next_serial (store_step E op s)" by blast+
qed

section \<open>Histories\<close>

definition spent :: "store \<Rightarrow> string \<Rightarrow> bool" where
  "spent s t \<longleftrightarrow> (\<exists>i. tbl_get (st_invites s) t = Some i \<and> iv_used_at i \<noteq> None)"

lemma spent_step: "spent s t \<Longrightarrow> spent (store_step E op s) t"
proof (cases op)
  case (OpInit org node raw now name)
  assume "spent s t"
  with OpInit show ?thesis by (simp add: init_store_def Let_def spent_def)
next
  case (OpInvite raw now user display r ttl)
  assume "spent s t"
  with OpInvite show ?thesis by (auto simp: create_invite_def Let_def spent_def)
next
  case (OpRedeem rq ttl now issued)
  assume sp: "spent s t"
  obtain res s' where rd: "redeem_invite E rq ttl now issued s = (res, s')" by fastforce
  show ?thesis
  proof (cases res)
    case (Inl m)
    with rd redeem_failed [of E rq ttl now issued s m] sp OpRedeem show ?thesis by simp
  next
    case (Inr cert)
    with rd have "redeemed E rq ttl now issued s cert s'" by (simp add: redeem_ok)
    then obtain u peer where "st_invites s' = use_invite u now peer (st_invites s)"
      unfolding redeemed_def Let_def by fastforce
    with sp rd OpRedeem show ?thesis by (cases "t = u") (auto simp: spent_def use_invite_get)
  qed
next
  case (OpRevoke ser v w)
  assume "spent s t"
  with OpRevoke show ?thesis by (simp add: spent_def revoke_devices(3))
qed

lemma minted_cases:
  assumes "(t, cert) \<in> set (minted E op s)"
  obtains rq ttl now issued s' where "op = OpRedeem rq ttl now issued" "minted E op s = [(t, cert)]"
    "redeemed E rq ttl now issued s cert s'" "store_step E op s = s'"
    "t = normalize_invite_code (rq_invite_token rq)"
proof (cases op)
  case (OpRedeem rq ttl now issued)
  obtain res s' where rd: "redeem_invite E rq ttl now issued s = (res, s')" by fastforce
  with assms OpRedeem have "res = Inr cert" "t = normalize_invite_code (rq_invite_token rq)"
    by (auto split: sum.splits)
  with rd OpRedeem that [of rq ttl now issued s'] show ?thesis by (simp add: redeem_ok [symmetric])
qed (use assms in auto)

lemma minted_spends:
  assumes "(t, cert) \<in> set (minted E op s)"
  shows "\<not> spent s t" "spent (store_step E op s) t"
proof -
  obtain rq ttl now issued s' where m: "redeemed E rq ttl now issued s cert s'" "store_step E op s = s'"
    "t = normalize_invite_code (rq_invite_token rq)"
    by (rule minted_cases [OF assms])
  then obtain i peer where "find_invite t now s = Inr i" "st_invites s' = use_invite t now peer (st_invites s)"
    unfolding redeemed_def Let_def by fastforce
  then show "\<not> spent s t" "spent (store_step E op s) t"
    by (auto simp: m(2) spent_def find_invite_def use_invite_get split: option.splits if_splits)
qed

lemma spent_not_in_ledger: "spent s t \<Longrightarrow> t \<notin> fst ` set (ledger E ops s)"
proof (induction ops arbitrary: s)
  case (Cons op ops)
  then have "t \<notin> fst ` set (minted E op s)" using minted_spends(1) by fastforce
  moreover have "t \<notin> fst ` set (ledger E ops (store_step E op s))"
    using Cons spent_step by blast
  ultimately show ?case by (simp add: image_Un)
qed simp

lemma minted_short: "minted E op s = [] \<or> (\<exists>t cert. minted E op s = [(t, cert)])"
  by (cases op) (auto split: sum.split)

lemma ledger_tokens_distinct: "distinct (List.map fst (ledger E ops s))"
proof (induction ops arbitrary: s)
  case (Cons op ops)
  show ?case
  proof (cases "minted E op s = []")
    case False
    then obtain t cert where m: "minted E op s = [(t, cert)]" using minted_short by metis
    then have "spent (store_step E op s) t" using minted_spends(2) [of t cert E op s] by simp
    then show ?thesis using m Cons spent_not_in_ledger by (simp add: image_image)
  qed (use Cons in simp)
qed simp

text \<open>Serials are handed out in order.\<close>

lemma next_serial_step:
  assumes "reg_ok s"
  shows "next_serial (store_step E op s) \<le> next_serial s + 1"
proof (cases op)
  case (OpInit org node raw now name)
  then show ?thesis
    using assms by (auto simp: init_store_def is_initialised_def next_serial_def Let_def)
next
  case (OpRedeem rq ttl now issued)
  obtain res s' where rd: "redeem_invite E rq ttl now issued s = (res, s')" by fastforce
  show ?thesis
  proof (cases res)
    case (Inl m)
    with rd redeem_failed [of E rq ttl now issued s m] OpRedeem show ?thesis by simp
  next
    case (Inr c)
    with rd have "redeemed E rq ttl now issued s c s'" by (simp add: redeem_ok)
    from redeemed_keeps(2) [OF this assms] rd OpRedeem show ?thesis by simp
  qed
qed (auto simp: create_invite_def next_serial_def Let_def revoke_devices(4) [unfolded next_serial_def])

lemma ledger_serials:
  assumes "reg_ok s" "(t, cert) \<in> set (ledger E ops s)"
  shows "\<exists>n. serial (claims cert) = word_of_int n \<and> next_serial s \<le> n \<and> n < next_serial s + int (length ops)"
  using assms
proof (induction ops arbitrary: s)
  case (Cons op ops)
  let ?s = "store_step E op s"
  show ?case
  proof (cases "(t, cert) \<in> set (minted E op s)")
    case True
    obtain rq ttl now issued s' where "redeemed E rq ttl now issued s cert s'" by (rule minted_cases [OF True])
    then have "serial (claims cert) = word_of_int (next_serial s)" using redeemed_keeps(3) Cons.prems(1) by blast
    then show ?thesis by (intro exI [of _ "next_serial s"]) simp
  next
    case False
    then have "(t, cert) \<in> set (ledger E ops ?s)" using Cons.prems(2) by simp
    then obtain n where n: "serial (claims cert) = word_of_int n" "next_serial ?s \<le> n"
      "n < next_serial ?s + int (length ops)"
      using Cons.IH [OF reg_ok_step(1) [OF Cons.prems(1)]] by blast
    have "next_serial ?s \<le> next_serial s + 1" using next_serial_step [OF Cons.prems(1)] .
    with n reg_ok_step(2) [OF Cons.prems(1), of E op] show ?thesis by (intro exI [of _ n]) auto
  qed
qed simp

lemma word_of_int_inject_bounded:
  assumes "0 \<le> m" "m < 2 ^ 64" "0 \<le> n" "n < 2 ^ 64" "(word_of_int m :: u64) = word_of_int n"
  shows "m = n"
proof -
  have "uint (word_of_int m :: u64) = uint (word_of_int n :: u64)" using assms(5) by simp
  then show ?thesis using assms(1-4) by (simp add: unsigned_of_int take_bit_int_eq_self)
qed

lemma ledger_serials_distinct:
  assumes "reg_ok s" "next_serial s + int (length ops) < 2 ^ 64"
  shows "distinct (List.map (\<lambda>(t, cert). serial (claims cert)) (ledger E ops s))"
  using assms
proof (induction ops arbitrary: s)
  case (Cons op ops)
  let ?s = "store_step E op s"
  have n0: "1 \<le> next_serial s" using Cons.prems(1) by (simp add: reg_ok_def)
  show ?case
  proof (cases "minted E op s = []")
    case True
    have "next_serial ?s + int (length ops) < 2 ^ 64"
      using next_serial_step [OF Cons.prems(1), of E op] Cons.prems(2) by simp
    with True Cons.IH [OF reg_ok_step(1) [OF Cons.prems(1)]] show ?thesis by simp
  next
    case False
    then obtain t cert where m: "minted E op s = [(t, cert)]" using minted_short by metis
    then have "(t, cert) \<in> set (minted E op s)" by simp
    then obtain rq ttl now issued s' where rd: "redeemed E rq ttl now issued s cert s'" "?s = s'"
      by (rule minted_cases)
    note k = redeemed_keeps [OF rd(1) Cons.prems(1)]
    have len: "next_serial ?s + int (length ops) < 2 ^ 64" using Cons.prems(2) k(2) rd(2) by simp
    have "serial (claims c) \<noteq> serial (claims cert)" if c: "(u, c) \<in> set (ledger E ops ?s)" for u c
    proof -
      obtain n where n: "serial (claims c) = word_of_int n" "next_serial ?s \<le> n" "n < next_serial ?s + int (length ops)"
        using ledger_serials [OF reg_ok_step(1) [OF Cons.prems(1)] c] by blast
      then show ?thesis
        using word_of_int_inject_bounded [of n "next_serial s"] k(2,3) rd(2) n0 len by auto
    qed
    then show ?thesis using m Cons.IH [OF reg_ok_step(1) [OF Cons.prems(1)] len] by force
  qed
qed simp

section \<open>Tokens and codes\<close>

lemma alphabet_alnum: "k < length TOKEN_ALPHABET \<Longrightarrow> ascii_alnum (TOKEN_ALPHABET ! k) \<and> ascii_upper (TOKEN_ALPHABET ! k) = TOKEN_ALPHABET ! k"
proof -
  have "list_all (\<lambda>c. ascii_alnum c \<and> ascii_upper c = c) TOKEN_ALPHABET" by code_simp
  then show "k < length TOKEN_ALPHABET \<Longrightarrow> ascii_alnum (TOKEN_ALPHABET ! k) \<and> ascii_upper (TOKEN_ALPHABET ! k) = TOKEN_ALPHABET ! k"
    by (simp add: list_all_length)
qed

lemma random_token_chars:
  assumes "c \<in> set (random_token raw)"
  shows "ascii_alnum c" "ascii_upper c = c"
proof -
  obtain b where "c = TOKEN_ALPHABET ! (unat (b :: u8) mod length TOKEN_ALPHABET)"
    using assms by (auto simp: random_token_def)
  moreover have "unat b mod length TOKEN_ALPHABET < length TOKEN_ALPHABET" by (simp add: TOKEN_ALPHABET_def)
  ultimately show "ascii_alnum c" "ascii_upper c = c" using alphabet_alnum by blast+
qed

lemma normalize_join:
  assumes "normalize_invite_code sep = []"
  shows "normalize_invite_code (join_with sep xs) = normalize_invite_code (concat xs)"
  using assms by (induction sep xs rule: join_with.induct) (simp_all add: normalize_invite_code_def)

lemma normalize_token: "normalize_invite_code (random_token raw) = random_token raw"
proof -
  have "List.filter ascii_alnum (random_token raw) = random_token raw"
    using random_token_chars(1) by (simp add: filter_id_conv)
  then show ?thesis using random_token_chars(2) by (simp add: normalize_invite_code_def map_idI)
qed

lemma normalize_display:
  "ir_token r = random_token raw \<Longrightarrow> normalize_invite_code (invite_code_display r) = random_token raw"
  using normalize_join [of "''-''" "chunks 5 (random_token raw)"]
  by (simp add: invite_code_display_def concat_chunks normalize_token)
     (simp add: normalize_invite_code_def ascii_alnum_def)

lemma normalize_upper: "normalize_invite_code (List.map ascii_upper s) = normalize_invite_code s"
  by (simp add: normalize_invite_code_def filter_map o_def)

section \<open>The revocation list\<close>

definition org_known :: "'a crypto_scheme \<Rightarrow> bytes \<Rightarrow> store \<Rightarrow> bool" where
  "org_known C org s \<longleftrightarrow> (\<exists>r. st_org s = Some r \<and> or_org_key r = keypair_bytes C org)"

lemma org_known_keypair: "crypto_laws C \<Longrightarrow> org_known C org s \<Longrightarrow> org_keypair C s = Inr org"
  by (auto simp: org_known_def org_keypair_def org_from_bytes_def crypto_lawsD)

lemma revoked_serials_iff:
  assumes "tbl_wf (st_devices s)"
  shows "x \<in> set (revoked_serials s) \<longleftrightarrow>
    (\<exists>p d. tbl_get (st_devices s) p = Some d \<and> dv_revoked d \<noteq> None \<and> x = word_of_int (dv_serial d))"
  unfolding revoked_serials_def by (force simp: tbl_get_Some_set [OF assms] image_iff)

lemma store_crl_ok:
  assumes "crypto_laws E" "reg_ok s" "org_known E org s"
  shows "\<exists>l. store_crl E s = Inr l \<and> crl_verify E l (org_id E org) = Inr ()
    \<and> (\<forall>x. is_revoked l x \<longleftrightarrow> x \<in> set (revoked_serials s))"
proof -
  obtain r where r: "st_org s = Some r" using assms(3) by (auto simp: org_known_def)
  have "crl_verify E (crl_empty oid) (org_id E org) = Inr ()" for oid
    by (simp add: crl_verify_def crl_empty_def)
  moreover have "\<not> is_revoked (crl_empty oid) x" for oid x
    by (simp add: is_revoked_def crl_empty_def binary_search_iff)
  ultimately show ?thesis
    using r sign_crl_verifies [OF assms(1)]
    by (simp add: store_crl_def org_known_keypair [OF assms(1,3)] is_revoked_sign_crl)
qed

section \<open>Enrolling\<close>

lemma issued_cert_ok:
  assumes "crypto_laws C" "now < sat_add issued valid_for" "issued \<le> now + MAX_CLOCK_DRIFT_MS"
  shows "cert_verify C (issue_cert C org (ed_public C sk) user display r ser valid_for issued)
      (org_id C org) (Some (device_peer_id C sk)) None now = Inr ()"
    and "cert_peer_id C (issue_cert C org (ed_public C sk) user display r ser valid_for issued) = Inr (device_peer_id C sk)"
proof -
  have p: "device_pub_to_peer_id C (ed_public C sk) = Inr (device_peer_id C sk)"
    using crypto_lawsD(2) [OF assms(1), of sk]
    by (simp add: device_pub_to_peer_id_def device_peer_id_def ed25519_public_def)
  then show "cert_peer_id C (issue_cert C org (ed_public C sk) user display r ser valid_for issued) = Inr (device_peer_id C sk)"
    by (simp add: cert_peer_id_def issue_cert_def Let_def)
  then show "cert_verify C (issue_cert C org (ed_public C sk) user display r ser valid_for issued)
      (org_id C org) (Some (device_peer_id C sk)) None now = Inr ()"
    using assms
    by (simp add: cert_verify_ok crypto_lawsD) (simp add: issue_cert_def Let_def org_id_def crypto_lawsD)
qed

lemma request_checks:
  assumes "crypto_laws C" "\<not> ENROLL_SKEW_MS < abs_diff at now"
  shows "check_request C (normalize_invite_code code) (hex_encode C (ed_public C sk)) name at
      (hex_encode C (sign_enrollment C sk (normalize_invite_code code) name at)) now = Inr (ed_public C sk)"
  using assms
  by (simp add: check_request_def crypto_lawsD verify_enrollment_proof_def ed25519_public_def sign_enrollment_def)

text \<open>With an invite that can be spent, a redemption succeeds.\<close>

lemma redeem_succeeds:
  assumes "crypto_laws E" "reg_ok s" "org_known E org s"
    and "check_request E token pub_hex name at proof now = Inr (ed_public E sk)" "find_invite token now s = Inr i"
    and rq: "rq = \<lparr>rq_invite_token = tok, rq_device_name = name, rq_platform = plat, rq_device_pub = pub_hex,
                 rq_at_ms = at, rq_proof = proof\<rparr>" "normalize_invite_code tok = token"
  obtains s' where "redeem_invite E rq ttl now issued s =
      (Inr (issue_cert E org (ed_public E sk) (iv_user i) (if name = [] then iv_display i else name)
             (role_from_str_lossy (iv_role i)) (word_of_int (next_serial s)) ttl issued), s')"
    "st_org s' = map_option (\<lambda>r. r\<lparr>or_next_serial := or_next_serial r + 1\<rparr>) (st_org s)"
proof -
  obtain r where r: "st_org s = Some r" "or_org_key r = keypair_bytes E org"
    using assms(3) by (auto simp: org_known_def)
  let ?cert = "issue_cert E org (ed_public E sk) (iv_user i) (if name = [] then iv_display i else name)
             (role_from_str_lossy (iv_role i)) (word_of_int (or_next_serial r)) ttl issued"
  have p: "cert_peer_id E ?cert = Inr (device_peer_id E sk)"
    using crypto_lawsD(2) [OF assms(1), of sk]
    by (simp add: cert_peer_id_def issue_cert_def Let_def device_pub_to_peer_id_def device_peer_id_def ed25519_public_def)
  let ?d = "\<lparr>dv_serial = or_next_serial r, dv_pub = pub_hex, dv_user = iv_user i,
      dv_display = (if name = [] then iv_display i else name), dv_role = iv_role i, dv_platform = plat,
      dv_enrolled = now, dv_expires = expires_at_ms (claims ?cert), dv_revoked = None\<rparr>"
  have "\<forall>p e. tbl_get (st_devices s) p = Some e \<longrightarrow> dv_serial e < dv_serial ?d"
    using assms(2) r(1) by (simp add: reg_ok_def next_serial_def)
  then obtain ds where "upsert_device (peer_text E (device_peer_id E sk)) ?d (st_devices s) = Some ds"
    using upsert_device_fresh assms(2) unfolding reg_ok_def by metis
  moreover define s' where "s' = s\<lparr>st_org := Some (r\<lparr>or_next_serial := or_next_serial r + 1\<rparr>),
        st_invites := use_invite token now (peer_text E (device_peer_id E sk)) (st_invites s), st_devices := ds\<rparr>"
  ultimately have "redeemed E rq ttl now issued s ?cert s'"
    unfolding redeemed_def Let_def
    using assms(4,5) r p rq
    by - (rule exI [of _ "ed_public E sk"], rule exI [of _ i], rule exI [of _ r], rule exI [of _ org],
          rule exI [of _ "device_peer_id E sk"], rule exI [of _ ds],
          simp add: org_from_bytes_def crypto_lawsD [OF assms(1)] split del: if_split cong: if_cong)
  moreover have "st_org s' = map_option (\<lambda>r. r\<lparr>or_next_serial := or_next_serial r + 1\<rparr>) (st_org s)"
    by (simp add: s'_def r)
  ultimately show thesis using r by (intro that) (simp_all add: next_serial_def redeem_ok)
qed

section \<open>The administrator's token\<close>

lemma fold_or_zero: "fold (\<lambda>i diff. diff OR f i) is a = (0 :: u8) \<longleftrightarrow> a = 0 \<and> (\<forall>i\<in>set is. f i = 0)"
  by (induction "is" arbitrary: a) (auto simp: or_eq_0_iff)

lemma xor_zero: "x XOR y = (0 :: u8) \<Longrightarrow> x = y"
proof -
  assume "x XOR y = 0"
  then have "(x XOR y) XOR y = 0 XOR y" by (rule arg_cong)
  then show ?thesis unfolding xor.assoc xor_self_eq xor.right_neutral xor.left_neutral .
qed

lemma token_matches_iff:
  assumes "1 \<notin> set (as_bytes given)" "0 \<notin> set (as_bytes expected)"
  shows "token_matches given expected \<longleftrightarrow> given = expected"
proof
  let ?a = "as_bytes given" and ?b = "as_bytes expected"
  let ?f = "\<lambda>i. (if i < length ?a then ?a ! i else 0) XOR (if i < length ?b then ?b ! i else 1)"
  assume m: "token_matches given expected"
  then have f: "?f i = 0" if "i < max (length ?a) (length ?b)" for i
    using that by (simp add: token_matches_def Let_def fold_or_zero)
  then have eq: "(if i < length ?a then ?a ! i else 0) = (if i < length ?b then ?b ! i else 1)"
    if "i < max (length ?a) (length ?b)" for i using xor_zero that by blast
  have "\<not> length ?b < length ?a"
  proof
    assume l: "length ?b < length ?a"
    then have "?a ! (length ?b) = 1" using eq [of "length ?b"] by simp
    with l assms(1) show False by (metis nth_mem)
  qed
  moreover have "\<not> length ?a < length ?b"
  proof
    assume l: "length ?a < length ?b"
    then have "?b ! (length ?a) = 0" using eq [of "length ?a"] by simp
    with l assms(2) show False by (metis nth_mem)
  qed
  ultimately have "length ?a = length ?b" by simp
  moreover from this have "?a ! i = ?b ! i" if "i < length ?a" for i using eq [of i] that by simp
  ultimately have "?a = ?b" by (rule nth_equalityI)
  then show "given = expected" by simp
next
  assume "given = expected"
  then show "token_matches given expected"
    by (simp add: token_matches_def Let_def fold_or_zero)
qed

end
