(* ===== verification/SeedProperties.thy ===== *)
theory SeedProperties
  imports Registry NodeSamples
begin

text \<open>
  The properties of the seed server: its store, its HTTP interface and its start, each with an
  instance on an organisation with key \<open>[1]\<close> that has invited one user.
\<close>

definition toy_seed_env :: seed_env where
  "toy_seed_env = node_env.extend toy_node_env
     \<lparr>no_rows_text = ''Query returned no rows'', constraint_text = ''constraint failed'', ip_parse = (\<lambda>h. if h = ''0.0.0.0'' then Some (V4 h) else None),
      port_taken = (\<lambda>ip port. False)\<rparr>"

lemma toy_seed_env_laws: "crypto_laws toy_seed_env"
  using toy_node_env_laws
  by (simp add: crypto_laws_def toy_seed_env_def node_env.defs toy_node_env_def env.defs toy_env_def
      crypto.defs toy_crypto_def)

definition toy_org :: org_row where
  "toy_org = \<lparr>or_org_id = org_id toy_seed_env [1], or_org_key = [1], or_node_key = replicate 32 2,
     or_name = ''org'', or_admin_token = ''TKN'', or_next_serial = 1, or_crl_updated = 0, or_created = 0\<rparr>"

definition toy_invite :: invite where
  "toy_invite = \<lparr>iv_user = ''u'', iv_display = ''d'', iv_role = ''readonly'', iv_created = 5, iv_expires = 100000,
     iv_used_at = None, iv_used_by = None\<rparr>"

definition toy_store :: store where
  "toy_store = \<lparr>st_org = Some toy_org, st_invites = [(''AB2CD'', toy_invite)], st_devices = []\<rparr>"

definition toy_state :: app_state where
  "toy_state = \<lparr>as_store = toy_store, as_bootstrap = [], as_cert_ttl_ms = 1000000\<rparr>"

lemma toy_keypair: "keypair_bytes toy_seed_env k = k"
  by (simp add: toy_seed_env_def node_env.defs toy_node_env_def env.defs toy_env_def crypto.defs toy_crypto_def)

lemma toy_store_ok: "reg_ok toy_store" "org_known toy_seed_env [1] toy_store" "next_serial toy_store = 1"
  by (simp_all add: reg_ok_def next_serial_def toy_store_def toy_org_def org_known_def toy_keypair)

lemma toy_find: "find_invite ''AB2CD'' 10 toy_store = Inr toy_invite"
  by (simp add: find_invite_def toy_store_def toy_invite_def)

definition toy_history :: "store_op list" where
  "toy_history = [OpInit [1] (replicate 32 2) [24, 17, 19] 0 ''org'', OpInvite [8, 9, 0, 10, 11] 5 ''u'' ''d'' ReadOnly 99995]"

lemma toy_history_store: "fold (store_step toy_seed_env) toy_history empty_store = toy_store"
  by (simp add: toy_history_def init_store_def create_invite_def is_initialised_def empty_store_def toy_store_def
      toy_org_def toy_invite_def random_token_def TOKEN_ALPHABET_def toy_keypair Let_def sat_add_def)

definition toy_request :: "u8 \<Rightarrow> enroll_request" where
  "toy_request k = build_enroll_request toy_seed_env [k] ''ab2-cd'' ''pad'' ''ios'' 9"

lemma toy_code: "normalize_invite_code ''ab2-cd'' = ''AB2CD''"
  by code_simp

lemma toy_skew: "\<not> ENROLL_SKEW_MS < abs_diff 9 10"
  by (simp add: ENROLL_SKEW_MS_def abs_diff_def)

text \<open>The first device of the organisation, revoked.\<close>

definition toy_device :: device where
  "toy_device = \<lparr>dv_serial = 1, dv_pub = [], dv_user = ''old'', dv_display = ''d'', dv_role = ''member'',
     dv_platform = ''ios'', dv_enrolled = 1, dv_expires = 100000, dv_revoked = Some 4\<rparr>"

definition toy_revoked :: store where
  "toy_revoked = toy_store\<lparr>st_org := Some (toy_org\<lparr>or_next_serial := 2\<rparr>),
     st_devices := [(peer_text toy_seed_env (device_peer_id toy_seed_env [3]), toy_device)]\<rparr>"

lemma toy_revoked_ok: "reg_ok toy_revoked" "org_known toy_seed_env [1] toy_revoked" "next_serial toy_revoked = 2"
  by (auto simp: reg_ok_def next_serial_def toy_revoked_def toy_store_def toy_org_def org_known_def toy_keypair
      toy_device_def tbl_wf_Cons split: if_splits)

lemma toy_redeem:
  assumes "reg_ok s" "org_known toy_seed_env [1] s" "st_invites s = st_invites toy_store"
  obtains s' where "redeem_invite toy_seed_env (toy_request k) 1000000 10 10 s =
    (Inr (issue_cert toy_seed_env [1] (ed_public toy_seed_env [k]) ''u'' ''pad'' ReadOnly
       (word_of_int (next_serial s)) 1000000 10), s')"
proof -
  have f: "find_invite ''AB2CD'' 10 s = Inr toy_invite" using toy_find assms(3) by (simp add: find_invite_def)
  have c: "check_request toy_seed_env ''AB2CD'' (hex_encode toy_seed_env (ed_public toy_seed_env [k])) ''pad'' 9
      (hex_encode toy_seed_env (sign_enrollment toy_seed_env [k] ''AB2CD'' ''pad'' 9)) 10 = Inr (ed_public toy_seed_env [k])"
    using request_checks [OF toy_seed_env_laws toy_skew, of "''ab2-cd''" "[k]" "''pad''"] toy_code by simp
  have "role_from_str_lossy ''readonly'' = ReadOnly" by code_simp
  then show thesis
    using redeem_succeeds [OF toy_seed_env_laws assms(1,2) c f, where rq = "toy_request k" and tok = "''AB2CD''"
        and plat = "''ios''" and ttl = 1000000 and issued = 10] that normalize_idem [of "''ab2-cd''"] toy_code
    by (auto simp: toy_request_def build_enroll_request_def Let_def toy_invite_def)
qed

section \<open>Lemmas\<close>

text \<open>The registry after a redemption.\<close>

lemma redeemed_devices:
  assumes "redeemed E rq ttl now issued s cert s'"
  obtains peer e where "cert_peer_id E cert = Inr peer"
    "st_devices s' = tbl_put (peer_text E peer) e (st_devices s)" "dv_serial e = next_serial s" "dv_revoked e = None"
    "\<forall>d. tbl_get (st_devices s) (peer_text E peer) = Some d \<longrightarrow> dv_user e = dv_user d"
proof -
  from assms obtain peer d ds r where p: "cert_peer_id E cert = Inr peer"
    and up: "upsert_device (peer_text E peer) d (st_devices s) = Some ds"
    and d: "dv_serial d = or_next_serial r" "dv_revoked d = None" and s': "st_org s = Some r" "st_devices s' = ds"
    unfolding redeemed_def Let_def by fastforce
  obtain e where "dv_serial e = dv_serial d" "dv_revoked e = None" "ds = tbl_put (peer_text E peer) e (st_devices s)"
    "dv_user e = (case tbl_get (st_devices s) (peer_text E peer) of None \<Rightarrow> dv_user d | Some old \<Rightarrow> dv_user old)"
    using upsert_device_get [OF up] d(2) by auto
  then show thesis using that [OF p] s' d(1) by (simp add: next_serial_def)
qed

lemma fresh_serial_not_revoked:
  assumes "redeemed E rq ttl now issued s cert s'" "reg_ok s" "next_serial s < 2 ^ 64"
  shows "word_of_int (next_serial s) \<notin> set (revoked_serials s')"
proof
  obtain peer e where ds: "st_devices s' = tbl_put (peer_text E peer) e (st_devices s)" "dv_revoked e = None"
    by (rule redeemed_devices [OF assms(1)])
  assume "word_of_int (next_serial s) \<in> set (revoked_serials s')"
  then obtain p d where d: "tbl_get (st_devices s') p = Some d" "dv_revoked d \<noteq> None"
    "(word_of_int (next_serial s) :: u64) = word_of_int (dv_serial d)"
    using redeemed_keeps(1) [OF assms(1,2)] revoked_serials_iff unfolding reg_ok_def by blast
  then have "tbl_get (st_devices s) p = Some d" using ds by (auto simp: tbl_get_put split: if_splits)
  then have "1 \<le> dv_serial d" "dv_serial d < next_serial s" using assms(2) by (auto simp: reg_ok_def)
  with d(3) assms(3) word_of_int_inject_bounded [of "next_serial s" "dv_serial d"] show False by simp
qed

lemma take_drop_iff: "length p = n \<Longrightarrow> take n v = p \<and> drop n v = t \<longleftrightarrow> v = p @ t"
  by (metis append_take_drop_id append_eq_conv_conj)

lemma require_admin_iff:
  assumes "st_org (as_store st) = Some r" "or_admin_token r \<noteq> []" "0 \<notin> set (as_bytes (or_admin_token r))"
    "\<forall>v. h = Some v \<longrightarrow> 1 \<notin> set (as_bytes v)"
  shows "require_admin E st h = (if h = Some (''Bearer '' @ or_admin_token r) then Inr () else Inl unauthorized)"
proof -
  have "1 \<notin> set (as_bytes (strip_bearer h))"
    using assms(4) by (auto simp: strip_bearer_def as_bytes_def dest: in_set_dropD split: option.splits)
  then have "token_matches (strip_bearer h) (or_admin_token r) \<longleftrightarrow> strip_bearer h = or_admin_token r"
    using assms(3) by (rule token_matches_iff)
  also have "\<dots> \<longleftrightarrow> h = Some (''Bearer '' @ or_admin_token r)"
  proof (cases h)
    case (Some v)
    have "take 7 v = ''Bearer '' \<and> drop 7 v = or_admin_token r \<longleftrightarrow> v = ''Bearer '' @ or_admin_token r"
      by (rule take_drop_iff) simp
    with Some assms(2) show ?thesis by (auto simp: strip_bearer_def)
  qed (use assms(2) in \<open>simp add: strip_bearer_def\<close>)
  finally show ?thesis by (simp add: require_admin_def or_else_def admin_token_def assms(1))
qed

section \<open>Invites and serials\<close>

text \<open>C10: In any history of a seed server, starting from an empty data directory, every invite code mints at
  most one certificate, and no two certificates carry the same serial.\<close>

theorem each_invite_mints_once:
  assumes "length ops < 2 ^ 63"
  shows "distinct (List.map fst (ledger E ops empty_store))
    \<and> distinct (List.map (\<lambda>(t, cert). serial (claims cert)) (ledger E ops empty_store))"
  using ledger_tokens_distinct ledger_serials_distinct [of empty_store ops E] assms
  by (simp add: reg_ok_empty)

theorem each_invite_mints_once_witness:
  "\<exists>cert. ledger toy_seed_env (toy_history @ [OpRedeem (toy_request 3) 1000000 10 10, OpRedeem (toy_request 4) 1000000 10 10])
     empty_store = [(''AB2CD'', cert)]"
proof -
  let ?r = "[OpRedeem (toy_request 3) 1000000 10 10, OpRedeem (toy_request 4) 1000000 10 10]"
  have app: "ledger E (xs @ ys) s = ledger E xs s @ ledger E ys (fold (store_step E) xs s)" for E xs ys s
    by (induction xs arbitrary: s) simp_all
  have "ledger toy_seed_env toy_history empty_store = []" by (simp add: toy_history_def)
  then have l: "ledger toy_seed_env (toy_history @ ?r) empty_store = ledger toy_seed_env ?r toy_store"
    by (simp only: app toy_history_store append_Nil)
  have tok: "normalize_invite_code (rq_invite_token (toy_request k)) = ''AB2CD''" for k
    using normalize_idem [of "''ab2-cd''"] toy_code by (simp add: toy_request_def build_enroll_request_def Let_def)
  obtain s' cert where c: "redeem_invite toy_seed_env (toy_request 3) 1000000 10 10 toy_store = (Inr cert, s')"
    using toy_redeem [OF toy_store_ok(1,2) refl] by metis
  have "distinct (List.map fst (ledger toy_seed_env (toy_history @ ?r) empty_store))"
    using each_invite_mints_once [of "toy_history @ ?r" toy_seed_env] by (simp add: toy_history_def)
  then show ?thesis unfolding l by (auto simp: c tok split: sum.splits)
qed

text \<open>The code shown for a new invite, in whatever case and however grouped it is typed back, finds that
  invite as long as it has not expired, with the user and role it was made for.\<close>

theorem typed_code_finds_invite:
  assumes "create_invite E raw now user display r ttl s = (Inr row, s')" "later \<le> sat_add now ttl"
    "normalize_invite_code typed = normalize_invite_code (invite_code_display row)"
  shows "\<exists>i. find_invite (normalize_invite_code typed) later s' = Inr i \<and> iv_user i = user
    \<and> role_from_str_lossy (iv_role i) = r
    \<and> find_invite (normalize_invite_code (List.map ascii_upper typed)) later s' = Inr i"
proof -
  have row: "ir_token row = random_token raw"
    and s': "st_invites s' = st_invites s @ [(random_token raw, \<lparr>iv_user = user, iv_display = display,
      iv_role = role_as_str r, iv_created = now, iv_expires = sat_add now ttl, iv_used_at = None, iv_used_by = None\<rparr>)]"
    and new: "tbl_get (st_invites s) (random_token raw) = None"
    using assms(1) by (auto simp: create_invite_def Let_def split: if_splits)
  have "normalize_invite_code typed = random_token raw"
    using assms(3) normalize_display [OF row] by simp
  then show ?thesis
    using new assms(2) by (simp add: find_invite_def s' map_add_def normalize_upper not_less)
qed

theorem typed_code_finds_invite_witness:
  "\<exists>i. find_invite (normalize_invite_code ''3-4'') 9 (snd (create_invite toy_seed_env [1, 2] 5 ''v'' ''e'' Admin 10 toy_store)) = Inr i
     \<and> iv_user i = ''v''"
proof -
  have "random_token [1, 2] = ''34''" by code_simp
  then obtain row s' where c: "create_invite toy_seed_env [1, 2] 5 ''v'' ''e'' Admin 10 toy_store = (Inr row, s')"
    and row: "ir_token row = ''34''"
    by (simp add: create_invite_def Let_def toy_store_def)
  have "normalize_invite_code ''3-4'' = ''34''" by code_simp
  then have "normalize_invite_code ''3-4'' = normalize_invite_code (invite_code_display row)"
    using normalize_display [of row "[1, 2]"] row \<open>random_token [1, 2] = ''34''\<close> by simp
  from typed_code_finds_invite [OF c _ this, of 9] show ?thesis by (auto simp: c sat_add_def)
qed

section \<open>Enrolment, from code to certificate\<close>

text \<open>The answer to the request of a device that holds a live invite, and what the device makes of it.\<close>

lemma enrolment_answer:
  assumes "crypto_laws E" "reg_ok (as_store st)" "org_known E org (as_store st)"
    and "find_invite (normalize_invite_code code) t (as_store st) = Inr i" "\<not> ENROLL_SKEW_MS < abs_diff at t"
    and "now < sat_add u (as_cert_ttl_ms st)" "u \<le> now + MAX_CLOCK_DRIFT_MS" "next_serial (as_store st) < 2 ^ 64"
  obtains resp st' en where
    "serve E raw t u (PostEnroll (build_enroll_request E sk code name plat at)) st = ((200, BodyEnrolled resp), st')"
    "accept E resp sk now = Inr en" "en_org_id en = org_id E org" "validate E en sk now = Inr ()"
    "user_id (claims (en_cert en)) = iv_user i" "claim_role (claims (en_cert en)) = role_from_str_lossy (iv_role i)"
    "device_pub (claims (rs_cert resp)) = ed_public E sk" "cert_org_pub (rs_cert resp) = ed_public E org"
    "store_crl E (as_store st') = Inr (rs_crl resp)"
proof -
  let ?s = "as_store st" and ?rq = "build_enroll_request E sk code name plat at"
  let ?cert = "issue_cert E org (ed_public E sk) (iv_user i) (if name = [] then iv_display i else name)
             (role_from_str_lossy (iv_role i)) (word_of_int (next_serial ?s)) (as_cert_ttl_ms st) u"
  have norm: "normalize_invite_code (normalize_invite_code code) = normalize_invite_code code"
    by (rule normalize_idem)
  obtain s' where rd: "redeem_invite E ?rq (as_cert_ttl_ms st) t u ?s = (Inr ?cert, s')"
    and org: "st_org s' = map_option (\<lambda>r. r\<lparr>or_next_serial := or_next_serial r + 1\<rparr>) (st_org ?s)"
    using redeem_succeeds [OF assms(1-3) request_checks [OF assms(1,5)] assms(4), where rq = ?rq and
        tok = "normalize_invite_code code" and plat = plat and ttl = "as_cert_ttl_ms st" and issued = u] norm
    by (auto simp: build_enroll_request_def Let_def)
  then have red: "redeemed E ?rq (as_cert_ttl_ms st) t u ?s ?cert s'" by (simp add: redeem_ok)
  have known: "org_known E org s'" using assms(3) org by (auto simp: org_known_def)
  obtain l where l: "store_crl E s' = Inr l" "crl_verify E l (org_id E org) = Inr ()"
    "\<And>x. is_revoked l x \<longleftrightarrow> x \<in> set (revoked_serials s')"
    using store_crl_ok [OF assms(1) redeemed_keeps(1) [OF red assms(2)] known] by blast
  obtain r where r: "st_org s' = Some r" using known by (auto simp: org_known_def)
  let ?resp = "\<lparr>rs_cert = ?cert, rs_crl = l, rs_org = \<lparr>oi_org_id = org_id E org,
      oi_org_pub = hex_encode E (ed_public E org), oi_name = or_name r, oi_bootstrap = as_bootstrap st\<rparr>\<rparr>"
  let ?en = "\<lparr>en_org_id = org_id E org, en_org_name = or_name r, en_cert = ?cert, en_crl = l,
      en_bootstrap = as_bootstrap st\<rparr>"
  have serve: "serve E raw t u (PostEnroll ?rq) st = ((200, BodyEnrolled ?resp), st\<lparr>as_store := s'\<rparr>)"
    by (simp add: enroll_def rd or_else_def org_known_keypair [OF assms(1) known] l(1) org_name_def r respond_def Let_def)
  note ok = issued_cert_ok(1) [OF assms(1,6,7), of org sk]
  have acc: "accept E ?resp sk now = Inr ?en"
    using ok l(2) crypto_lawsD(3,7) [OF assms(1)]
    by (simp add: accept_ok decode_org_pub_def) (simp add: org_id_def issue_cert_def Let_def)
  have ser: "serial (claims ?cert) = word_of_int (next_serial ?s)" by (simp add: issue_cert_def Let_def)
  have "validate E ?en sk now = Inr ()"
    using ok l(3) fresh_serial_not_revoked [OF red assms(2,8)]
    by (simp add: validate_def cert_verify_crl ser del: One_nat_def)
  moreover have "user_id (claims ?cert) = iv_user i" "claim_role (claims ?cert) = role_from_str_lossy (iv_role i)"
    by (simp_all add: issue_cert_def Let_def)
  ultimately show ?thesis using serve acc l(1)
    by (intro that [of ?resp "st\<lparr>as_store := s'\<rparr>" ?en]) (simp_all add: issue_cert_def Let_def)
qed

text \<open>Enrolment succeeds end to end: the request a device builds from its invite code is answered with a
  certificate, revocation list and organisation description that pass all the checks the device makes,
  the enrolment is usable at once, and it carries the user and the role of the invite.\<close>

theorem enrolment_succeeds:
  assumes "crypto_laws E" "reg_ok (as_store st)" "org_known E org (as_store st)"
    and "find_invite (normalize_invite_code code) t (as_store st) = Inr i" "\<not> ENROLL_SKEW_MS < abs_diff at t"
    and "now < sat_add u (as_cert_ttl_ms st)" "u \<le> now + MAX_CLOCK_DRIFT_MS" "next_serial (as_store st) < 2 ^ 64"
  shows "\<exists>resp st' en. serve E raw t u (PostEnroll (build_enroll_request E sk code name plat at)) st
      = ((200, BodyEnrolled resp), st')
    \<and> accept E resp sk now = Inr en \<and> en_org_id en = org_id E org \<and> validate E en sk now = Inr ()
    \<and> user_id (claims (en_cert en)) = iv_user i \<and> claim_role (claims (en_cert en)) = role_from_str_lossy (iv_role i)"
  by (rule enrolment_answer [OF assms]) blast

theorem enrolment_succeeds_witness:
  "\<exists>resp st' en. serve toy_seed_env [] 10 10 (PostEnroll (toy_request 3)) toy_state = ((200, BodyEnrolled resp), st')
     \<and> accept toy_seed_env resp [3] 11 = Inr en \<and> claim_role (claims (en_cert en)) = ReadOnly"
proof -
  have "find_invite (normalize_invite_code ''ab2-cd'') 10 (as_store toy_state) = Inr toy_invite"
    using toy_find by (simp add: toy_code toy_state_def)
  moreover have "role_from_str_lossy (iv_role toy_invite) = ReadOnly" by code_simp
  ultimately show ?thesis
    using enrolment_succeeds [OF toy_seed_env_laws, of toy_state "[1]" "''ab2-cd''" 10 toy_invite 9 11 10 "[]" "[3]"
        "''pad''" "''ios''"] toy_store_ok toy_skew
    by (simp add: toy_state_def toy_request_def sat_add_def MAX_CLOCK_DRIFT_MS_def) blast
qed

section \<open>Administration\<close>

fun admin_header :: "api_request \<Rightarrow> string option option" where
  "admin_header (PostInvites h body) = Some h"
| "admin_header (GetInvites h) = Some h"
| "admin_header (GetDevices h) = Some h"
| "admin_header (PostRevoke h ser) = Some h"
| "admin_header rq = None"

text \<open>C12: The administrative requests answer to the exact bearer token and to nothing else: any other header
  of visible characters, or none, gets 401 and leaves the store as it was; the right one is never
  refused with 401.\<close>

theorem admin_needs_exact_token:
  assumes "admin_header rq = Some h" "st_org (as_store st) = Some r" "or_admin_token r \<noteq> []"
    "0 \<notin> set (as_bytes (or_admin_token r))" "\<forall>v. h = Some v \<longrightarrow> 1 \<notin> set (as_bytes v)"
  shows "if h = Some (''Bearer '' @ or_admin_token r) then fst (fst (serve E raw t u rq st)) \<noteq> 401
    else serve E raw t u rq st = ((401, BodyError ''admin token required''), st)"
proof -
  have adm: "require_admin E st h = (if h = Some (''Bearer '' @ or_admin_token r) then Inr () else Inl unauthorized)"
    by (rule require_admin_iff [OF assms(2-5)])
  show ?thesis
  proof (cases rq)
    case (PostInvites h' body)
    with assms(1) adm show ?thesis
      by (auto simp: create_invite_handler_def respond_def unauthorized_def bad_request_def internal_def Let_def
          split: sum.split prod.split)
  next
    case (PostRevoke h' ser)
    with assms(1) adm show ?thesis
      by (auto simp: revoke_handler_def respond_def unauthorized_def bad_request_def internal_def or_else_def
          split: sum.split prod.split)
  qed (use assms(1) adm in \<open>auto simp: respond_def unauthorized_def\<close>)
qed

theorem admin_needs_exact_token_witness:
  "serve toy_seed_env [] 10 10 (GetDevices (Some ''Bearer TKM'')) toy_state
       = ((401, BodyError ''admin token required''), toy_state)"
proof -
  have "0 \<notin> set (as_bytes (or_admin_token toy_org))" "1 \<notin> set (as_bytes ''Bearer TKM'')" by code_simp+
  then show ?thesis
    using admin_needs_exact_token [of "GetDevices (Some ''Bearer TKM'')" "Some ''Bearer TKM''" toy_state toy_org
        toy_seed_env "[]" 10 10]
    by (simp add: toy_state_def toy_store_def toy_org_def)
qed

text \<open>What a request or a command means for the store: one of its operations, or nothing.\<close>

fun request_op :: "'a seed_env_scheme \<Rightarrow> bytes \<Rightarrow> u64 \<Rightarrow> u64 \<Rightarrow> api_request \<Rightarrow> app_state \<Rightarrow> store_op option" where
  "request_op E raw t u (PostEnroll rq) st = Some (OpRedeem rq (as_cert_ttl_ms st) t u)"
| "request_op E raw t u (PostInvites h body) st =
     (if require_admin E st h = Inr () \<and> \<not> blank (cb_user_id body)
      then Some (OpInvite raw t (cb_user_id body)
             (if or_default [] (cb_display_name body) = [] then cb_user_id body else or_default [] (cb_display_name body))
             (role_from_str_lossy (or_default default_role (cb_role body)))
             (sat_mul (or_default default_ttl_hours (cb_ttl_hours body)) 3600000))
      else None)"
| "request_op E raw t u (PostRevoke h ser) st =
     (if require_admin E st h = Inr () then Some (OpRevoke ser t u) else None)"
| "request_op E raw t u rq st = None"

fun command_op :: "bytes \<Rightarrow> bytes \<Rightarrow> bytes \<Rightarrow> u64 \<Rightarrow> u64 \<Rightarrow> seed_cmd \<Rightarrow> store_op option" where
  "command_op org node raw t u (CmdInit name) = Some (OpInit org node raw t name)"
| "command_op org node raw t u (CmdInvite user name rl hours) =
     Some (OpInvite raw t user (or_default user name) (role_from_str_lossy rl) (sat_mul hours 3600000))"
| "command_op org node raw t u (CmdRevoke ser) = Some (OpRevoke ser t u)"
| "command_op org node raw t u cmd = None"

definition apply_op :: "'a seed_env_scheme \<Rightarrow> store_op option \<Rightarrow> store \<Rightarrow> store" where
  "apply_op E op s = (case op of None \<Rightarrow> s | Some op \<Rightarrow> store_step E op s)"

text \<open>C13: The HTTP interface and the command line act on the store only through its operations: every request
  and every command is at most one of them, with the administrator's checks already passed, so what
  holds of all histories of operations holds of the running server.\<close>

theorem server_refines_store_operations:
  "as_store (snd (serve E raw t u rq st)) = apply_op E (request_op E raw t u rq st) (as_store st)
   \<and> snd (run_command E dir org node raw t u cmd s) = apply_op E (command_op org node raw t u cmd) s"
proof
  show "as_store (snd (serve E raw t u rq st)) = apply_op E (request_op E raw t u rq st) (as_store st)"
  proof (cases rq)
    case (PostEnroll r)
    then show ?thesis
      by (auto simp: enroll_def apply_op_def Let_def split: prod.split sum.split)
  next
    case (PostInvites h body)
    then show ?thesis
      by (auto simp: create_invite_handler_def apply_op_def Let_def split: prod.split sum.split)
  next
    case (PostRevoke h ser)
    then show ?thesis
      by (auto simp: revoke_handler_def apply_op_def split: prod.split sum.split)
  qed (simp_all add: apply_op_def)
  show "snd (run_command E dir org node raw t u cmd s) = apply_op E (command_op org node raw t u cmd) s"
    by (cases cmd) (auto simp: apply_op_def split: prod.split sum.split)
qed

section \<open>Revocation\<close>

text \<open>The list the server hands out verifies against the organisation and revokes exactly the serials
  of the devices marked revoked in the registry.\<close>

theorem published_list_is_the_registry:
  assumes "crypto_laws E" "reg_ok s" "org_known E org s"
  shows "\<exists>l. store_crl E s = Inr l \<and> crl_verify E l (org_id E org) = Inr ()
    \<and> (\<forall>x. is_revoked l x \<longleftrightarrow>
        (\<exists>p d. tbl_get (st_devices s) p = Some d \<and> dv_revoked d \<noteq> None \<and> x = word_of_int (dv_serial d)))"
  using store_crl_ok [OF assms] revoked_serials_iff assms(2) unfolding reg_ok_def by simp

theorem published_list_is_the_registry_witness:
  "\<exists>l. store_crl toy_seed_env toy_revoked = Inr l \<and> is_revoked l 1 \<and> \<not> is_revoked l 2"
proof -
  obtain l where l: "store_crl toy_seed_env toy_revoked = Inr l"
    "\<forall>x. is_revoked l x \<longleftrightarrow> (\<exists>p d. tbl_get (st_devices toy_revoked) p = Some d \<and> dv_revoked d \<noteq> None
       \<and> x = word_of_int (dv_serial d))"
    using published_list_is_the_registry [OF toy_seed_env_laws toy_revoked_ok(1,2)] by blast
  have "tbl_get (st_devices toy_revoked) p = Some d \<longleftrightarrow>
      p = peer_text toy_seed_env (device_peer_id toy_seed_env [3]) \<and> d = toy_device" for p d
    by (auto simp: toy_revoked_def)
  with l show ?thesis by (auto simp: toy_device_def)
qed

text \<open>C11: Enrolling a device again takes its earlier certificate off the revocation list: the registry keeps
  one row per device, so the serial that was revoked is forgotten although the certificate is still
  within its validity.  The row also keeps the user of the first enrolment.\<close>

theorem reenrolment_unrevokes:
  assumes "crypto_laws E" "reg_ok s" "org_known E org s" "redeem_invite E rq ttl now issued s = (Inr cert, s')"
    "cert_peer_id E cert = Inr peer" "tbl_get (st_devices s) (peer_text E peer) = Some d"
    "next_serial s < 2 ^ 63" "store_crl E s' = Inr l"
  shows "\<not> is_revoked l (word_of_int (dv_serial d))
    \<and> (\<exists>d'. tbl_get (st_devices s') (peer_text E peer) = Some d' \<and> dv_user d' = dv_user d)"
proof -
  have red: "redeemed E rq ttl now issued s cert s'" using assms(4) by (simp add: redeem_ok)
  obtain q e where e: "cert_peer_id E cert = Inr q" "st_devices s' = tbl_put (peer_text E q) e (st_devices s)"
    "dv_serial e = next_serial s" "\<forall>d. tbl_get (st_devices s) (peer_text E q) = Some d \<longrightarrow> dv_user e = dv_user d"
    by (rule redeemed_devices [OF red])
  have q: "q = peer" using e(1) assms(5) by simp
  have ok: "reg_ok s'" by (rule redeemed_keeps(1) [OF red assms(2)])
  have "org_known E org s'" using red assms(3) unfolding redeemed_def Let_def org_known_def by fastforce
  then have l: "is_revoked l x \<longleftrightarrow> x \<in> set (revoked_serials s')" for x
    using store_crl_ok [OF assms(1) ok] assms(8) by fastforce
  have d: "1 \<le> dv_serial d" "dv_serial d < next_serial s" using assms(2,6) by (auto simp: reg_ok_def)
  have "word_of_int (dv_serial d) \<notin> set (revoked_serials s')"
  proof
    assume "word_of_int (dv_serial d) \<in> set (revoked_serials s')"
    then obtain p f where f: "tbl_get (st_devices s') p = Some f"
      "(word_of_int (dv_serial d) :: u64) = word_of_int (dv_serial f)"
      using revoked_serials_iff ok unfolding reg_ok_def by blast
    have "dv_serial f < next_serial s + 1" "1 \<le> dv_serial f"
      using ok f(1) redeemed_keeps(2) [OF red assms(2)] by (auto simp: reg_ok_def)
    then have same: "dv_serial d = dv_serial f"
      using word_of_int_inject_bounded [OF _ _ _ _ f(2)] d assms(7) by simp
    show False
    proof (cases "p = peer_text E peer")
      case True
      with f(1) e(2,3) q same d(2) show False by (simp add: tbl_get_put)
    next
      case False
      then have "tbl_get (st_devices s) p = Some f" using f(1) e(2) q by (simp add: tbl_get_put)
      with assms(2,6) same False show False unfolding reg_ok_def by metis
    qed
  qed
  then show ?thesis using l e(2,4) q assms(6) by (simp add: tbl_get_put)
qed

theorem reenrolment_unrevokes_witness:
  "\<exists>s' cert l. redeem_invite toy_seed_env (toy_request 3) 1000000 10 10 toy_revoked = (Inr cert, s')
     \<and> user_id (claims cert) = ''u'' \<and> store_crl toy_seed_env s' = Inr l
     \<and> 1 \<in> set (revoked_serials toy_revoked) \<and> \<not> is_revoked l 1"
proof -
  let ?cert = "issue_cert toy_seed_env [1] (ed_public toy_seed_env [3]) ''u'' ''pad'' ReadOnly 2 1000000 10"
  have "st_invites toy_revoked = st_invites toy_store" by (simp add: toy_revoked_def)
  then obtain s' where c: "redeem_invite toy_seed_env (toy_request 3) 1000000 10 10 toy_revoked = (Inr ?cert, s')"
    using toy_redeem [OF toy_revoked_ok(1,2), of 3] toy_revoked_ok(3) by auto
  then have red: "redeemed toy_seed_env (toy_request 3) 1000000 10 10 toy_revoked ?cert s'" by (simp add: redeem_ok)
  then have "org_known toy_seed_env [1] s'"
    using toy_revoked_ok(2) unfolding redeemed_def Let_def org_known_def by fastforce
  then obtain l where l: "store_crl toy_seed_env s' = Inr l"
    using store_crl_ok [OF toy_seed_env_laws redeemed_keeps(1) [OF red toy_revoked_ok(1)]] by blast
  have p: "cert_peer_id toy_seed_env ?cert = Inr (device_peer_id toy_seed_env [3])"
    using issued_cert_ok(2) [OF toy_seed_env_laws, of 11 10 1000000 "[1]" "[3]"]
    by (simp add: sat_add_def MAX_CLOCK_DRIFT_MS_def)
  have d: "tbl_get (st_devices toy_revoked) (peer_text toy_seed_env (device_peer_id toy_seed_env [3])) = Some toy_device"
    by (simp add: toy_revoked_def)
  have "dv_serial toy_device = 1" "dv_revoked toy_device \<noteq> None" by (simp_all add: toy_device_def)
  moreover have "tbl_wf (st_devices toy_revoked)" using toy_revoked_ok(1) by (simp add: reg_ok_def)
  ultimately have "1 \<in> set (revoked_serials toy_revoked)"
    using d by (subst revoked_serials_iff) (auto intro!: exI [of _ toy_device])
  moreover have "\<not> is_revoked l 1"
    using reenrolment_unrevokes [OF toy_seed_env_laws toy_revoked_ok(1,2) c p d _ l] toy_revoked_ok(3)
    by (simp add: toy_device_def)
  moreover have "user_id (claims ?cert) = ''u''" by (simp add: issue_cert_def Let_def)
  ultimately show ?thesis using c l by blast
qed

section \<open>The server\<close>

text \<open>Whatever has been revoked, an initialised server starts: the certificate it issues to itself passes
  its own checks, since serial 0 is never given to a device, and its node stores the
  organisation's data only as a replica.\<close>

theorem initialised_server_starts:
  assumes "crypto_laws E" "reg_ok s" "org_known E org s" "st_org s = Some r" "next_serial s < 2 ^ 64"
    and "device_from_secret E (or_node_key r) = Inr identity"
    and "open_authenticated E replica identity = Inr d"
    and "seed_server_config E (ra_quic_port args) (ra_tcp_port args) = Inr cfg"
    and "now < sat_add issued (sat_mul (ra_cert_days args) DAY_MS)" "issued \<le> now + MAX_CLOCK_DRIFT_MS"
    and "build_swarm E identity (cfg\<lparr>replicate_data := ra_replica args\<rparr>) = Inr (swarm, idle)"
    and "bind_http E args = Inr ()"
  shows "\<exists>N st. run_server E args replica issued now s = Inr (N, st) \<and> as_store st = s
    \<and> nd_self N = device_peer_id E identity \<and> nd_db N = d \<and> replicate_data (nd_cfg N) = ra_replica args"
proof -
  obtain l where l: "store_crl E s = Inr l" "\<And>x. is_revoked l x \<longleftrightarrow> x \<in> set (revoked_serials s)"
    using store_crl_ok [OF assms(1-3)] by blast
  have "0 \<notin> set (revoked_serials s)"
  proof
    assume "0 \<in> set (revoked_serials s)"
    then obtain p d where d: "tbl_get (st_devices s) p = Some d" "(0 :: u64) = word_of_int (dv_serial d)"
      using revoked_serials_iff assms(2) unfolding reg_ok_def by blast
    then have "1 \<le> dv_serial d" "dv_serial d < next_serial s" using assms(2) by (auto simp: reg_ok_def)
    with d(2) assms(5) word_of_int_inject_bounded [of 0 "dv_serial d"] show False by simp
  qed
  moreover have "serial (claims (server_cert E org identity name days issued)) = 0" for name days
    by (simp add: server_cert_def issue_cert_def Let_def SERVER_SERIAL_def)
  ultimately have "validate E \<lparr>en_org_id = org_id E org, en_org_name = or_name r,
      en_cert = server_cert E org identity (or_name r) (ra_cert_days args) issued, en_crl = l, en_bootstrap = []\<rparr>
      identity now = Inr ()"
    using issued_cert_ok(1) [OF assms(1,9,10)] l(2) by (simp add: validate_def cert_verify_crl) (simp add: server_cert_def)
  then show ?thesis
    by (simp add: run_server_def node_identity_def assms(4,6,7,8) org_known_keypair [OF assms(1,3)] org_name_def l(1)
        lift_error_def spawn_def Let_def assms(11,12) build_swarm_ok [OF assms(11)])
qed

theorem initialised_server_starts_witness:
  "\<exists>N st. run_server toy_seed_env \<lparr>ra_http_port = 8080, ra_http_bind = ''0.0.0.0'', ra_quic_port = 4001,
      ra_tcp_port = 4001, ra_announce = [], ra_replica = True, ra_cert_days = 365\<rparr> notes_file 10 11 toy_revoked = Inr (N, st) \<and> replicate_data (nd_cfg N)"
proof -
  let ?args = "\<lparr>ra_http_port = 8080, ra_http_bind = ''0.0.0.0'', ra_quic_port = 4001, ra_tcp_port = 4001,
      ra_announce = [], ra_replica = True, ra_cert_days = 365\<rparr>"
  have "ok_result (open_authenticated toy_seed_env notes_file (replicate 32 2))" by code_simp
  then have o: "open_authenticated toy_seed_env notes_file (replicate 32 2) =
      Inr (the_db (open_authenticated toy_seed_env notes_file (replicate 32 2)))"
    by (rule the_db_ok)
  have "addr_parse toy_seed_env a = Some [Transport a]" for a
    by (simp add: toy_seed_env_def node_env.defs toy_node_env_def env.defs toy_env_def crypto.defs toy_crypto_def)
  then obtain cfg where cfg: "seed_server_config toy_seed_env 4001 4001 = Inr cfg"
    by (simp add: seed_server_config_def default_config_def)
  have r: "st_org toy_revoked = Some (toy_org\<lparr>or_next_serial := 2\<rparr>)" by (simp add: toy_revoked_def)
  have i: "device_from_secret toy_seed_env (or_node_key (toy_org\<lparr>or_next_serial := 2\<rparr>)) = Inr (replicate 32 2)"
    by (simp add: device_from_secret_def toy_org_def toy_seed_env_def node_env.defs toy_node_env_def env.defs
        toy_env_def crypto.defs toy_crypto_def)
  obtain swarm where w: "build_swarm toy_seed_env (replicate 32 2) (cfg\<lparr>replicate_data := ra_replica ?args\<rparr>) =
      Inr (swarm, idle_connection_timeout_s cfg)"
    using build_swarm_works [of toy_seed_env "replicate 32 2" "cfg\<lparr>replicate_data := ra_replica ?args\<rparr>"]
    by (auto simp: toy_seed_env_def node_env.defs toy_node_env_def env.defs toy_env_def crypto.defs toy_crypto_def)
  have b: "bind_http toy_seed_env ?args = Inr ()"
    by (simp add: bind_http_def toy_seed_env_def node_env.defs toy_node_env_def env.defs toy_env_def
        crypto.defs toy_crypto_def)
  show ?thesis
    using initialised_server_starts [OF toy_seed_env_laws toy_revoked_ok(1,2) r _ i o _ _ _ w b, of 11 10] cfg
      toy_revoked_ok(3)
    by (auto simp: sat_add_def sat_mul_def DAY_MS_def MAX_CLOCK_DRIFT_MS_def)
qed

section \<open>The registry\<close>

text \<open>C18: Whatever operations are applied to a new store, in any order and however they fail, the registry is
  well formed: one row per device and per token, and the devices carry distinct serials that were
  all issued, from 1 up to the next one.\<close>

theorem registry_stays_well_formed:
  "let s = fold (store_step E) ops empty_store in
     distinct (List.map fst (st_devices s)) \<and> distinct (List.map fst (st_invites s))
     \<and> distinct (List.map (dv_serial \<circ> snd) (st_devices s))
     \<and> list_all (\<lambda>(p, d). 1 \<le> dv_serial d \<and> dv_serial d < next_serial s) (st_devices s)"
proof -
  have "reg_ok s \<Longrightarrow> reg_ok (fold (store_step E) ops s)" for s
    by (induction ops arbitrary: s) (simp_all add: reg_ok_step)
  then have ok: "reg_ok (fold (store_step E) ops empty_store)" using reg_ok_empty by blast
  define s where "s = fold (store_step E) ops empty_store"
  have wf: "tbl_wf (st_devices s)" "distinct (List.map fst (st_devices s))"
    using ok by (simp_all add: s_def reg_ok_def tbl_wf_def)
  have get: "tbl_get (st_devices s) p = Some d" if "(p, d) \<in> set (st_devices s)" for p d
    using that wf(1) by (simp add: tbl_get_Some_set)
  have "inj_on (dv_serial \<circ> snd) (set (st_devices s))"
  proof (rule inj_onI)
    fix x y assume xy: "x \<in> set (st_devices s)" "y \<in> set (st_devices s)" "(dv_serial \<circ> snd) x = (dv_serial \<circ> snd) y"
    then have x: "tbl_get (st_devices s) (fst x) = Some (snd x)" and y: "tbl_get (st_devices s) (fst y) = Some (snd y)"
      using get by simp_all
    then have "fst x = fst y" using ok xy(3) unfolding reg_ok_def s_def by (metis comp_apply)
    with x y show "x = y" by (simp add: prod_eq_iff)
  qed
  then have "distinct (List.map (dv_serial \<circ> snd) (st_devices s))"
    using wf(2) by (simp add: distinct_map)
  moreover have "list_all (\<lambda>(p, d). 1 \<le> dv_serial d \<and> dv_serial d < next_serial s) (st_devices s)"
    using get ok by (fastforce simp: list_all_iff reg_ok_def s_def)
  ultimately show ?thesis using wf(2) ok by (simp add: s_def [symmetric] reg_ok_def)
qed

end
