(* ===== verification/ServerProperties.thy ===== *)
theory ServerProperties
  imports SeedProperties Conversations
begin

text \<open>
  The running seed server as a whole: its node, its HTTP interface and the command line on the same
  store, and how far a revocation travels.
\<close>

section \<open>A revocation and the running node\<close>

text \<open>A successful revocation answers with a list that names the serial.\<close>

lemma revoked_is_listed:
  assumes "crypto_laws E" "reg_ok (as_store st)" "org_known E org (as_store st)"
    and "fst (serve E raw t u (PostRevoke h ser) st) = (200, BodyRevoked n l)"
  shows "is_revoked l ser"
proof -
  let ?s = "snd (revoke ser t u (as_store st))"
  have crl: "store_crl E ?s = Inr l" and succ: "fst (revoke ser t u (as_store st)) = Inr ()"
    using assms(4)
    by (auto simp: revoke_handler_def respond_def or_else_def internal_def bad_request_def
        split: sum.splits prod.splits)
  obtain p d where d: "(p, d) \<in> set (st_devices (as_store st))" "active (sint ser) d"
    using succ by (auto simp: revoke_def split: if_splits)
  have wf: "tbl_wf (st_devices (as_store st))" using assms(2) by (simp add: reg_ok_def)
  have ok: "reg_ok ?s" using reg_ok_step(1) [OF assms(2), of E "OpRevoke ser t u"] by simp
  have known: "org_known E org ?s"
    using assms(3) by (auto simp: org_known_def revoke_def)
  have "tbl_get (st_devices ?s) p = Some (d\<lparr>dv_revoked := Some t\<rparr>)"
    using d succ wf by (auto simp: revoke_devices tbl_get_Some_set [OF wf] active_def)
  then have "ser \<in> set (revoked_serials ?s)"
    using ok d(2) by (subst revoked_serials_iff) (auto simp: reg_ok_def active_def intro!: exI)
  then show ?thesis using store_crl_ok [OF assms(1) ok known] crl by auto
qed

text \<open>Turns of the server in which nobody brings its node a newer list than the one it has.\<close>

fun no_news :: "'a crypto_scheme \<Rightarrow> enrollment \<Rightarrow> server_input \<Rightarrow> bool" where
  "no_news C en (NetInput x) \<longleftrightarrow> \<not> brings_news C en x"
| "no_news C en i \<longleftrightarrow> True"

lemma enrollment_kept:
  "list_all (no_news E (nd_enrollment (sv_node S))) calls
     \<Longrightarrow> nd_enrollment (sv_node (fold (server_step E) calls S)) = nd_enrollment (sv_node S)"
proof (induction calls arbitrary: S)
  case (Cons i calls)
  have "nd_enrollment (sv_node (server_step E i S)) = nd_enrollment (sv_node S)"
    using Cons.prems by (cases i) (simp_all add: Let_def enrollment_step del: node_step.simps)
  with Cons show ?case by simp
qed simp

text \<open>C15: A revocation does not reach the node of the server it was made on by itself.  The answer is a signed
  list that names the certificate; but until some peer greets the node with a newer list than the one the
  node has, its list stays, whatever else it is handed by the network and whatever further calls are made
  to the interface and the command line (the revocation of others included).  And for as long, the running
  node authenticates the revoked device when that greets it with its certificate, if apart from the
  revocation the certificate is in force by the list and the clock of the node.  (A device that enrols
  after the revocation is given the new list and brings it along.)\<close>

theorem revocation_misses_the_running_node:
  assumes "crypto_laws E" "reg_ok (as_store (sv_api S))" "org_known E org (as_store (sv_api S))"
    "fst (serve E raw t u (PostRevoke h (serial (claims cert))) (sv_api S)) = (200, BodyRevoked n l)"
    "S1 = fold (server_step E) (ApiCall raw t u (PostRevoke h (serial (claims cert))) # calls) S"
    "list_all (no_news E (nd_enrollment (sv_node S))) calls"
    "\<not> fst (merge_crl E crl (nd_enrollment (sv_node S)))"
    "in_force E (en_org_id (nd_enrollment (sv_node S))) p (en_crl (nd_enrollment (sv_node S)))
       (wall E (reads (clock (nd_db (sv_node S1))))) cert" "ed_public_ok E (cert_org_pub cert)"
  shows "is_revoked l (serial (claims cert)) \<and> nd_enrollment (sv_node S1) = nd_enrollment (sv_node S)
    \<and> is_authed (sv_node (server_step E
         (NetInput (Swarm (Request p (HelloReq PROTOCOL_VERSION cert crl rep)))) S1)) p"
proof -
  have en: "nd_enrollment (sv_node S1) = nd_enrollment (sv_node S)"
    unfolding assms(5) by (rule enrollment_kept) (simp add: assms(6))
  have "cert_verify E cert (en_org_id (nd_enrollment (sv_node S1))) (Some p)
      (Some (en_crl (snd (merge_crl E crl (nd_enrollment (sv_node S1))))))
      (wall E (reads (clock (nd_db (sv_node S1))))) = Inr ()"
    using assms(8,9) by (simp add: en merge_crl_old [OF assms(7)] cert_verify_ok in_force_def)
  then have "is_authed (node_step E (Swarm (Request p (HelloReq PROTOCOL_VERSION cert crl rep))) (sv_node S1)) p"
    using hello_decides [of E p PROTOCOL_VERSION cert crl rep "sv_node S1"] by (simp add: Let_def del: node_step.simps)
  then show ?thesis
    using revoked_is_listed [OF assms(1-4)] en by (simp add: Let_def del: node_step.simps)
qed

definition toy_active :: store where
  "toy_active = toy_store\<lparr>st_org := Some (toy_org\<lparr>or_next_serial := 2\<rparr>),
     st_devices := [(''x'', toy_device\<lparr>dv_revoked := None\<rparr>)]\<rparr>"

lemma toy_active_ok: "reg_ok toy_active" "org_known toy_seed_env [1] toy_active"
  by (auto simp: reg_ok_def next_serial_def toy_active_def toy_store_def toy_org_def org_known_def toy_keypair
      toy_device_def tbl_wf_Cons split: if_splits)

definition toy_server :: server where
  "toy_server = \<lparr>sv_node = toy_node, sv_api = toy_state\<lparr>as_store := toy_active\<rparr>\<rparr>"

theorem revocation_misses_the_running_node_witness:
  "\<exists>n l. fst (serve toy_seed_env [] 10 10 (PostRevoke (Some ''Bearer TKN'') 1) (sv_api toy_server)) = (200, BodyRevoked n l)
     \<and> is_revoked l 1
     \<and> is_authed (sv_node (fold (server_step toy_seed_env)
         [ApiCall [] 10 10 (PostRevoke (Some ''Bearer TKN'') 1), NetInput (Swarm (ConnectionEstablished [9])),
          NetInput (Swarm (Request (toy_public [1]) (HelloReq PROTOCOL_VERSION (toy_cert 1 Member)
            (crl_empty (org_id toy_node_env [1])) True)))] toy_server)) (toy_public [1])"
proof -
  let ?rq = "PostRevoke (Some ''Bearer TKN'') (serial (claims (toy_cert 1 Member)))"
  let ?st = "sv_api toy_server" and ?s = "snd (revoke 1 10 10 toy_active)"
  have st: "as_store ?st = toy_active" "serial (claims (toy_cert 1 Member)) = 1"
    by (simp_all add: toy_server_def toy_cert_simps)
  have "fst (revoke 1 10 10 toy_active) = Inr ()"
    by (simp add: revoke_def toy_active_def active_def toy_device_def)
  moreover have "org_known toy_seed_env [1] ?s" using toy_active_ok(2) by (auto simp: org_known_def revoke_def)
  with reg_ok_step(1) [OF toy_active_ok(1), of toy_seed_env "OpRevoke 1 10 10"]
  obtain l where "store_crl toy_seed_env ?s = Inr l"
    using store_crl_ok [OF toy_seed_env_laws] by fastforce
  moreover have "token_matches ''TKN'' ''TKN''" by code_simp
  then have "require_admin toy_seed_env ?st (Some ''Bearer TKN'') = Inr ()"
    by (simp add: require_admin_def admin_token_def toy_server_def toy_active_def toy_org_def or_else_def
        strip_bearer_def)
  ultimately have ok: "fst (serve toy_seed_env [] 10 10 ?rq ?st) = (200, BodyRevoked 1 l)"
    by (cases "revoke 1 10 10 toy_active") (simp add: revoke_handler_def st respond_def or_else_def)
  let ?E = toy_seed_env and ?calls = "[NetInput (Swarm (ConnectionEstablished [9]))]"
  let ?S1 = "fold (server_step ?E) (ApiCall [] 10 10 ?rq # ?calls) toy_server"
  have now: "wall ?E (reads (clock (nd_db (sv_node ?S1)))) = 1000"
    by (simp add: Let_def toy_server_def toy_node_def small_def replica_file.defs new_clock_def toy_seed_env_def
        node_env.defs toy_node_env_def env.defs toy_env_def crypto.defs del: serve.simps)
  have "in_force ?E (org_id toy_node_env [1]) (toy_public [1]) (crl_empty (org_id toy_node_env [1])) 1000 (toy_cert 1 Member)"
    by (simp add: in_force_def toy_cert_def issue_cert_def Let_def org_id_def org_id_from_public_def
      cert_peer_id_def device_pub_to_peer_id_def ed25519_public_def toy_seed_env_def node_env.defs toy_node_env_def
      env.defs toy_env_def crypto.defs toy_crypto_def sat_add_def MAX_CLOCK_DRIFT_MS_def is_revoked_def crl_empty_def
      binary_search_iff)
  then have force: "in_force ?E (en_org_id (nd_enrollment (sv_node toy_server))) (toy_public [1])
      (en_crl (nd_enrollment (sv_node toy_server))) (wall ?E (reads (clock (nd_db (sv_node ?S1))))) (toy_cert 1 Member)"
    unfolding now by (simp add: toy_server_def toy_node_def toy_enrollment_def)
  have key: "ed_public_ok ?E (cert_org_pub (toy_cert 1 Member))"
    by (simp add: toy_seed_env_def node_env.defs toy_node_env_def env.defs toy_env_def crypto.defs toy_crypto_def
        toy_cert_def issue_cert_def Let_def)
  have old: "\<not> fst (merge_crl ?E (crl_empty (org_id toy_node_env [1])) (nd_enrollment (sv_node toy_server)))"
    by (simp add: merge_crl_def toy_server_def toy_node_def toy_enrollment_def crl_empty_def)
  have quiet: "list_all (no_news ?E (nd_enrollment (sv_node toy_server))) ?calls"
    by (simp add: brings_news_def greets_def)
  have "is_authed (sv_node (server_step ?E (NetInput (Swarm (Request (toy_public [1]) (HelloReq PROTOCOL_VERSION
      (toy_cert 1 Member) (crl_empty (org_id toy_node_env [1])) True)))) ?S1)) (toy_public [1]) \<and> is_revoked l 1"
    using revocation_misses_the_running_node [OF toy_seed_env_laws _ _ ok refl quiet old force key, of "[1]" True]
      toy_active_ok by (simp add: st del: serve.simps server_step.simps)
  then show ?thesis using ok by (auto simp: st simp del: serve.simps server_step.simps)
qed

end
