(* ===== verification/Queries.thy ===== *)
theory Queries
  imports Node
begin

text \<open>
  What both clients of a replica use beyond the node: \<open>Db::query\<close> and \<open>Db::execute\<close> on SQL text
  (\<open>rust/p2p-core/src/db/mod.rs\<close>), the directory that holds a device's key and replica, and the
  statement that posts a message.

  SQLite is an argument: which columns a statement has, which rows a read returns, and which row
  writes a statement makes of the replica it meets.
\<close>

record client_env = node_env +
  sql_columns :: "string \<Rightarrow> db \<Rightarrow> string list result"          \<comment> \<open>\<open>prepare\<close>\<close>
  sql_rows :: "string \<Rightarrow> sql_value list \<Rightarrow> db \<Rightarrow> value_ref list list result"
  sql_writes :: "string \<Rightarrow> sql_value list \<Rightarrow> db \<Rightarrow> row_write list result"
  enrollment_of_json :: "string \<Rightarrow> enrollment result"

record query_result =
  qr_columns :: "string list"
  qr_rows :: "sql_value list list"

definition db_query :: "'a client_env_scheme \<Rightarrow> string \<Rightarrow> sql_value list \<Rightarrow> db \<Rightarrow> query_result result" where
  "db_query E sql args d =
     (case sql_columns E sql d of
        Inl e \<Rightarrow> Inl e
      | Inr columns \<Rightarrow>
          (case sql_rows E sql args d of
             Inl e \<Rightarrow> Inl e
           | Inr rows \<Rightarrow> Inr \<lparr>qr_columns = columns, qr_rows = List.map (List.map of_value_ref) rows\<rparr>))"

definition db_execute ::
  "'a client_env_scheme \<Rightarrow> string \<Rightarrow> sql_value list \<Rightarrow> db \<Rightarrow> (nat \<times> change_record list) result \<times> db" where
  "db_execute E sql args d =
     (case sql_writes E sql args d of Inl e \<Rightarrow> (Inl e, d) | Inr ws \<Rightarrow> execute E ws d)"

text \<open>The directory a device owns; a replica that does not exist yet is an empty file.\<close>

record data_dir =
  dd_key :: "bytes option"
  dd_replica :: replica_file

definition stored_enrollment :: "'a client_env_scheme \<Rightarrow> db \<Rightarrow> enrollment option result" where
  "stored_enrollment E d = load_enrollment (enrollment_of_json E) d"

definition db_now :: "'a env_scheme \<Rightarrow> db \<Rightarrow> u64 \<times> db" where
  "db_now E d = (let (t, c) = now_ms (wall E) (clock d) in (t, d\<lparr>clock := c\<rparr>))"

section \<open>Posting a message\<close>

definition message_cols :: "string list" where
  "message_cols = [''id'', ''room'', ''author'', ''author_name'', ''body'', ''sent_at_ms'']"

definition insert_message_sql :: string where
  "insert_message_sql =
     ''INSERT INTO messages (id, room, author, author_name, body, sent_at_ms)
             VALUES (?1, ?2, ?3, ?4, ?5, ?6)''"

text \<open>What SQLite documents of that statement: on a database that has the table it inserts one row, whose
  columns are the arguments; on any other it is not even prepared.\<close>

definition insert_law :: "'a client_env_scheme \<Rightarrow> bool" where
  "insert_law E \<longleftrightarrow> (\<forall>args d. length args = 6 \<longrightarrow>
     (case sql_writes E insert_message_sql args d of
        Inl e \<Rightarrow> tbl_get (app d) ''messages'' = None
      | Inr ws \<Rightarrow> tbl_get (app d) ''messages'' \<noteq> None \<and> ws = [WInsert ''messages'' (zip message_cols args)]))"

end
