(* ===== verification/Mobile.thy ===== *)
theory Mobile
  imports Queries
begin

text \<open>
  \<open>rust/p2p-mobile/src/lib.rs\<close>: the client the phone runs.  \<open>client\<close> is \<open>P2pClient\<close>; its calls are
  functions on it, and \<open>turn\<close> is one turn of the node it started.  The replica is shared: it lives
  in \<open>cl_db\<close>, and the node works on it whenever it takes a turn.  \<open>cl_node\<close> is the slot of the
  handle, with whether the task behind it still runs; \<open>cl_events\<close> is what the listener was told.

  JSON is \<open>serde_json\<close>: its tree is \<open>json\<close>, its numbers, parser and printer are arguments.  A
  poisoned lock and a failing file system are not modelled.  An event is told the moment it is emitted;
  \<open>PumpProperties\<close> proves when the event channel, which is modelled in \<open>Pump\<close>, comes to the same.
\<close>

section \<open>Values across the boundary\<close>

datatype 'n json =
    JNull
  | JBool bool
  | JNum 'n
  | JStr string
  | JArr "'n json list"
  | JObj "(string \<times> 'n json) list"

record 'n mobile_env = client_env +
  json_parse :: "string \<Rightarrow> string + 'n json"
  json_print :: "'n json \<Rightarrow> string"
  num_as_i64 :: "'n \<Rightarrow> i64 option"
  num_as_f64 :: "'n \<Rightarrow> u64 option"
  num_of_i64 :: "i64 \<Rightarrow> 'n"
  num_of_f64 :: "u64 \<Rightarrow> 'n option"                      \<comment> \<open>none for a float that is not finite\<close>
  request_json :: "enroll_request \<Rightarrow> string"
  response_of_json :: "string \<Rightarrow> string + enroll_response"
  event_json :: "node_event \<Rightarrow> string option"
  status_json :: "node_status \<Rightarrow> string"
  addr_error :: "string \<Rightarrow> string"

datatype p2p_error = Failed string | NotEnrolled | NotRunning

type_synonym 'x p2p_result = "p2p_error + 'x"

fun p2p_error_text :: "p2p_error \<Rightarrow> string" where
  "p2p_error_text (Failed m) = m"
| "p2p_error_text NotEnrolled = ''this device has not been enrolled yet''"
| "p2p_error_text NotRunning = ''the node is not running''"

definition failed :: "error + 'x \<Rightarrow> 'x p2p_result" where
  "failed r = (case r of Inl e \<Rightarrow> Inl (Failed (error_text e)) | Inr v \<Rightarrow> Inr v)"

definition as_str :: "'n json option \<Rightarrow> string option" where
  "as_str v = (case v of Some (JStr s) \<Rightarrow> Some s | _ \<Rightarrow> None)"

fun json_to_value :: "('n, 'a) mobile_env_scheme \<Rightarrow> 'n json \<Rightarrow> sql_value p2p_result" where
  "json_to_value E JNull = Inr VNull"
| "json_to_value E (JBool b) = Inr (VInt (if b then 1 else 0))"
| "json_to_value E (JNum n) =
     Inr (case num_as_i64 E n of
            Some i \<Rightarrow> VInt i
          | None \<Rightarrow> VReal (case num_as_f64 E n of Some f \<Rightarrow> f | None \<Rightarrow> 0))"
| "json_to_value E (JStr s) = Inr (VText s)"
| "json_to_value E (JObj m) =
     (case as_str (map_of m ''$blob'') of
        None \<Rightarrow> Inl (Failed ''objects are not valid SQL parameters'')
      | Some hexstr \<Rightarrow>
          (case hex_decode E hexstr of
             None \<Rightarrow> Inl (Failed (lib_message E (as_bytes hexstr)))
           | Some b \<Rightarrow> Inr (VBlob b)))"
| "json_to_value E (JArr vs) = Inl (Failed ''arrays are not valid SQL parameters'')"

fun value_to_json :: "('n, 'a) mobile_env_scheme \<Rightarrow> sql_value \<Rightarrow> 'n json" where
  "value_to_json E VNull = JNull"
| "value_to_json E (VInt i) = JNum (num_of_i64 E i)"
| "value_to_json E (VReal f) = (case num_of_f64 E f of None \<Rightarrow> JNull | Some n \<Rightarrow> JNum n)"
| "value_to_json E (VText s) = JStr s"
| "value_to_json E (VBlob b) = JObj [(''$blob'', JStr (hex_encode E b))]"

text \<open>\<open>collect\<close> stops at the first error.\<close>

fun json_values :: "('n, 'a) mobile_env_scheme \<Rightarrow> 'n json list \<Rightarrow> sql_value list p2p_result" where
  "json_values E [] = Inr []"
| "json_values E (v # vs) =
     (case json_to_value E v of
        Inl e \<Rightarrow> Inl e
      | Inr x \<Rightarrow> (case json_values E vs of Inl e \<Rightarrow> Inl e | Inr xs \<Rightarrow> Inr (x # xs)))"

definition parse_params :: "('n, 'a) mobile_env_scheme \<Rightarrow> string \<Rightarrow> sql_value list p2p_result" where
  "parse_params E s =
     (if blank s then Inr []
      else (case json_parse E s of
              Inl m \<Rightarrow> Inl (Failed m)
            | Inr (JArr items) \<Rightarrow> json_values E items
            | Inr _ \<Rightarrow> Inl (Failed ''parameters must be a JSON array'')))"

section \<open>The client\<close>

record p2p_config =
  mb_data_dir :: string
  mb_enable_mdns :: bool
  mb_enable_relay :: bool

record client =
  cl_identity :: bytes
  cl_config :: p2p_config
  cl_db :: db
  cl_node :: "(node \<times> bool) option"
  cl_listening :: bool
  cl_events :: "string list"

text \<open>\<open>fresh\<close> is the secret that generating a key would draw.\<close>

definition load_or_create_identity ::
  "'a crypto_scheme \<Rightarrow> bytes \<Rightarrow> data_dir \<Rightarrow> bytes p2p_result \<times> data_dir" where
  "load_or_create_identity E fresh dir =
     (case dd_key dir of
        Some raw \<Rightarrow> (failed (device_from_secret E raw), dir)
      | None \<Rightarrow> (Inr fresh, dir\<lparr>dd_key := Some fresh\<rparr>))"

definition new_client ::
  "('n, 'a) mobile_env_scheme \<Rightarrow> p2p_config \<Rightarrow> bytes \<Rightarrow> data_dir \<Rightarrow> client p2p_result \<times> data_dir" where
  "new_client E cfg fresh dir =
     (case load_or_create_identity E fresh dir of
        (Inl e, dir) \<Rightarrow> (Inl e, dir)
      | (Inr sk, dir) \<Rightarrow>
          (case failed (open_authenticated E (dd_replica dir) sk) of
             Inl e \<Rightarrow> (Inl e, dir)
           | Inr d \<Rightarrow>
               (Inr \<lparr>cl_identity = sk, cl_config = cfg, cl_db = d, cl_node = None, cl_listening = False,
                     cl_events = []\<rparr>, dir)))"

definition peer_id_text :: "'a crypto_scheme \<Rightarrow> client \<Rightarrow> string" where
  "peer_id_text E c = peer_text E (device_peer_id E (cl_identity c))"

definition is_enrolled :: "('n, 'a) mobile_env_scheme \<Rightarrow> client \<Rightarrow> bool" where
  "is_enrolled E c = (case stored_enrollment E (cl_db c) of Inr (Some _) \<Rightarrow> True | _ \<Rightarrow> False)"

definition is_running :: "client \<Rightarrow> bool" where
  "is_running c \<longleftrightarrow> cl_node c \<noteq> None"

definition client_now :: "'a env_scheme \<Rightarrow> client \<Rightarrow> u64 \<times> client" where
  "client_now E c = (let (t, d) = db_now E (cl_db c) in (t, c\<lparr>cl_db := d\<rparr>))"

section \<open>Enrolment\<close>

definition begin_enrollment ::
  "('n, 'a) mobile_env_scheme \<Rightarrow> string \<Rightarrow> string \<Rightarrow> string \<Rightarrow> client \<Rightarrow> string p2p_result \<times> client" where
  "begin_enrollment E code device_name platform c =
     (let (t, c) = client_now E c
      in (Inr (request_json E (build_enroll_request E (cl_identity c) code device_name platform t)), c))"

definition complete_enrollment ::
  "('n, 'a) mobile_env_scheme \<Rightarrow> string \<Rightarrow> client \<Rightarrow> string p2p_result \<times> client" where
  "complete_enrollment E raw c =
     (case response_of_json E raw of
        Inl m \<Rightarrow> (Inl (Failed m), c)
      | Inr resp \<Rightarrow>
          (let (t, c) = client_now E c
           in (case failed (accept E resp (cl_identity c) t) of
                 Inl e \<Rightarrow> (Inl e, c)
               | Inr en \<Rightarrow>
                   (Inr (enrollment_json E en),
                    c\<lparr>cl_db := save_enrollment (enrollment_json E) en (cl_db c)\<rparr>))))"

section \<open>The node behind the handle\<close>

text \<open>The event pump: what the node emitted since, as far as it can be encoded.\<close>

definition payload :: "('n, 'a) mobile_env_scheme \<Rightarrow> action \<Rightarrow> string list" where
  "payload E a = (case a of Emit ev \<Rightarrow> (case event_json E ev of None \<Rightarrow> [] | Some p \<Rightarrow> [p]) | _ \<Rightarrow> [])"

definition pump :: "('n, 'a) mobile_env_scheme \<Rightarrow> action list \<Rightarrow> client \<Rightarrow> client" where
  "pump E as c =
     (if cl_listening c then c\<lparr>cl_events := cl_events c @ concat (List.map (payload E) as)\<rparr> else c)"

text \<open>The node went from \<open>N\<close> to \<open>M\<close>, and is still there if \<open>alive\<close>.\<close>

definition settle :: "('n, 'a) mobile_env_scheme \<Rightarrow> node \<Rightarrow> node \<Rightarrow> bool \<Rightarrow> client \<Rightarrow> client" where
  "settle E N M alive c =
     pump E (drop (length (acts N)) (acts M)) (c\<lparr>cl_node := Some (M, alive), cl_db := nd_db M\<rparr>)"

definition turn :: "('n, 'a) mobile_env_scheme \<Rightarrow> input \<Rightarrow> client \<Rightarrow> client" where
  "turn E i c =
     (case cl_node c of
        Some (N, True) \<Rightarrow>
          (let N = N\<lparr>nd_db := cl_db c\<rparr>
           in if i = Cmd Shutdown then settle E N (emit Stopped N) False c
              else settle E N (node_step E i N) True c)
      | _ \<Rightarrow> c)"

text \<open>\<open>NodeHandle::send\<close>: the command reaches the node unless its task has ended.\<close>

definition handle_send :: "('n, 'a) mobile_env_scheme \<Rightarrow> command \<Rightarrow> client \<Rightarrow> unit result \<times> client" where
  "handle_send E cmd c =
     (case cl_node c of
        Some (N, True) \<Rightarrow> (Inr (), turn E (Cmd cmd) c)
      | _ \<Rightarrow> (Inl ENotRunning, c))"

definition mobile_node_config :: "'a node_env_scheme \<Rightarrow> p2p_config \<Rightarrow> node_config result" where
  "mobile_node_config E m =
     (case default_config E of
        Inl e \<Rightarrow> Inl e
      | Inr c \<Rightarrow> Inr (c\<lparr>enable_mdns := mb_enable_mdns m, enable_relay_client := mb_enable_relay m\<rparr>))"

text \<open>The task of the node up to its loop: a node that cannot listen says so and ends.  The code spawns the
  task; the model runs this first part at once, so it has no commands that are put into the channel before
  the task has come this far.\<close>

definition boot :: "('n, 'a) mobile_env_scheme \<Rightarrow> node \<Rightarrow> client \<Rightarrow> client" where
  "boot E N c =
     (case start_listening E N of
        (Inl e, M) \<Rightarrow> settle E N (emit (NodeError (error_text e)) M) False c
      | (Inr _, M) \<Rightarrow>
          settle E N (emit (Started (peer_text E (nd_self M)) (en_org_id (nd_enrollment M))) M) True c)"

definition client_start :: "('n, 'a) mobile_env_scheme \<Rightarrow> client \<Rightarrow> unit p2p_result \<times> client" where
  "client_start E c =
     (if cl_node c \<noteq> None then (Inr (), c)
      else (case failed (stored_enrollment E (cl_db c)) of
              Inl e \<Rightarrow> (Inl e, c)
            | Inr None \<Rightarrow> (Inl NotEnrolled, c)
            | Inr (Some en) \<Rightarrow>
                (case failed (mobile_node_config E (cl_config c)) of
                   Inl e \<Rightarrow> (Inl e, c)
                 | Inr cfg \<Rightarrow>
                     (let (t, c) = client_now E c
                      in (case failed (spawn E cfg (cl_identity c) en (cl_db c) t) of
                            Inl e \<Rightarrow> (Inl e, c)
                          | Inr N \<Rightarrow> (Inr (), boot E N c))))))"

definition client_stop :: "('n, 'a) mobile_env_scheme \<Rightarrow> client \<Rightarrow> unit p2p_result \<times> client" where
  "client_stop E c = (Inr (), (snd (handle_send E Shutdown c))\<lparr>cl_node := None\<rparr>)"

definition set_listener :: "client \<Rightarrow> client" where
  "set_listener c = c\<lparr>cl_listening := True\<rparr>"

text \<open>\<open>handle\<close>: a call that needs a node fails when the slot is empty.\<close>

definition with_handle :: "('n, 'a) mobile_env_scheme \<Rightarrow> command \<Rightarrow> client \<Rightarrow> unit p2p_result \<times> client" where
  "with_handle E cmd c =
     (if cl_node c = None then (Inl NotRunning, c)
      else (let (r, c) = handle_send E cmd c in (failed r, c)))"

definition mobile_dial :: "('n, 'a) mobile_env_scheme \<Rightarrow> string \<Rightarrow> client \<Rightarrow> unit p2p_result \<times> client" where
  "mobile_dial E addr c =
     (if cl_node c = None then (Inl NotRunning, c)
      else (case addr_parse E addr of
              None \<Rightarrow> (Inl (Failed (addr_error E addr)), c)
            | Some a \<Rightarrow> with_handle E (DialAddr a) c))"

definition sync_now :: "('n, 'a) mobile_env_scheme \<Rightarrow> client \<Rightarrow> unit p2p_result \<times> client" where
  "sync_now E c = with_handle E SyncNow c"

definition status ::
  "('n, 'a) mobile_env_scheme \<Rightarrow> nat \<Rightarrow> client \<Rightarrow> string p2p_result \<times> client" where
  "status E connected c =
     (case with_handle E Status c of
        (Inl e, c) \<Rightarrow> (Inl e, c)
      | (Inr _, c) \<Rightarrow>
          (case cl_node c of
             Some (N, _) \<Rightarrow> (Inr (status_json E (current_status E connected N)), c)
           | None \<Rightarrow> (Inl NotRunning, c)))"

section \<open>Data\<close>

definition row_object :: "('n, 'a) mobile_env_scheme \<Rightarrow> string list \<Rightarrow> sql_value list \<Rightarrow> 'n json" where
  "row_object E columns r =
     JObj (fold (\<lambda>(col, v). tbl_put col (value_to_json E v)) (zip columns r) [])"

definition query :: "('n, 'a) mobile_env_scheme \<Rightarrow> string \<Rightarrow> string \<Rightarrow> client \<Rightarrow> string p2p_result" where
  "query E sql params c =
     (case parse_params E params of
        Inl e \<Rightarrow> Inl e
      | Inr args \<Rightarrow>
          (case failed (db_query E sql args (cl_db c)) of
             Inl e \<Rightarrow> Inl e
           | Inr r \<Rightarrow> Inr (json_print E (JArr (List.map (row_object E (qr_columns r)) (qr_rows r))))))"

definition client_execute ::
  "('n, 'a) mobile_env_scheme \<Rightarrow> string \<Rightarrow> string \<Rightarrow> client \<Rightarrow> u64 p2p_result \<times> client" where
  "client_execute E sql params c =
     (case parse_params E params of
        Inl e \<Rightarrow> (Inl e, c)
      | Inr args \<Rightarrow>
          (case db_execute E sql args (cl_db c) of
             (Inl e, d) \<Rightarrow> (Inl (Failed (error_text e)), c\<lparr>cl_db := d\<rparr>)
           | (Inr (affected, _), d) \<Rightarrow>
               (Inr (word_of_nat affected), snd (handle_send E LocalChanged (c\<lparr>cl_db := d\<rparr>)))))"

definition random_id :: "'a crypto_scheme \<Rightarrow> bytes \<Rightarrow> string" where
  "random_id E raw = hex_encode E raw"

definition message_json ::
  "('n, 'a) mobile_env_scheme \<Rightarrow> string \<Rightarrow> string \<Rightarrow> string \<Rightarrow> string \<Rightarrow> string \<Rightarrow> i64 \<Rightarrow> 'n json" where
  "message_json E ident room writer name body at_ms =
     JArr [JStr ident, JStr room, JStr writer, JStr name, JStr body, JNum (num_of_i64 E at_ms)]"

definition send_message ::
  "('n, 'a) mobile_env_scheme \<Rightarrow> bytes \<Rightarrow> string \<Rightarrow> string \<Rightarrow> client \<Rightarrow> string p2p_result \<times> client" where
  "send_message E raw room body c =
     (case failed (stored_enrollment E (cl_db c)) of
        Inl e \<Rightarrow> (Inl e, c)
      | Inr None \<Rightarrow> (Inl NotEnrolled, c)
      | Inr (Some en) \<Rightarrow>
          (let ident = random_id E raw;
               (t, c) = client_now E c;
               params = message_json E ident room (peer_id_text E c) (display_name (claims (en_cert en))) body t
           in (case client_execute E insert_message_sql (json_print E params) c of
                 (Inl e, c) \<Rightarrow> (Inl e, c)
               | (Inr _, c) \<Rightarrow> (Inr ident, c))))"

definition client_register_table ::
  "('n, 'a) mobile_env_scheme \<Rightarrow> string \<Rightarrow> string \<Rightarrow> client \<Rightarrow> unit p2p_result \<times> client" where
  "client_register_table E t pk c =
     (let (r, d) = register_table E t pk (cl_db c)
      in (case failed r of Inl e \<Rightarrow> Inl e | Inr _ \<Rightarrow> Inr (), c\<lparr>cl_db := d\<rparr>))"

section \<open>A session\<close>

datatype call =
    SetListener
  | BeginEnrollment string string string
  | CompleteEnrollment string
  | Start
  | Stop
  | DialPeer string
  | SyncAll
  | GetStatus nat
  | Execute string string
  | SendMessage bytes string string
  | RegisterTable string string
  | Turn input

fun client_step :: "('n, 'a) mobile_env_scheme \<Rightarrow> call \<Rightarrow> client \<Rightarrow> client" where
  "client_step E SetListener c = set_listener c"
| "client_step E (BeginEnrollment code name plat) c = snd (begin_enrollment E code name plat c)"
| "client_step E (CompleteEnrollment raw) c = snd (complete_enrollment E raw c)"
| "client_step E Start c = snd (client_start E c)"
| "client_step E Stop c = snd (client_stop E c)"
| "client_step E (DialPeer a) c = snd (mobile_dial E a c)"
| "client_step E SyncAll c = snd (sync_now E c)"
| "client_step E (GetStatus n) c = snd (status E n c)"
| "client_step E (Execute sql params) c = snd (client_execute E sql params c)"
| "client_step E (SendMessage raw room body) c = snd (send_message E raw room body c)"
| "client_step E (RegisterTable t pk) c = snd (client_register_table E t pk c)"
| "client_step E (Turn i) c = turn E i c"

end
