(* ===== verification/Clients.thy ===== *)
theory Clients
  imports Mobile Standing Rows
begin

text \<open>
  Lemmas on the mobile client: what a turn of its node and each call leave alone, the membership a node
  keeps while it runs, and the invariant of a session.
\<close>

section \<open>Membership\<close>

text \<open>A node never changes its own key, certificate or organisation.\<close>

definition same_member :: "node \<Rightarrow> node \<Rightarrow> bool" where
  "same_member N M \<longleftrightarrow> nd_self M = nd_self N \<and> en_cert (nd_enrollment M) = en_cert (nd_enrollment N)
     \<and> en_org_id (nd_enrollment M) = en_org_id (nd_enrollment N)"

lemma same_member_refl [simp]: "same_member N N"
  by (simp add: same_member_def)

lemma same_member_act [simp]: "same_member N (act a M) = same_member N M"
  by (simp add: same_member_def)

lemma same_member_peers: "same_peers N M \<Longrightarrow> same_member N M"
  by (simp add: same_member_def same_peers_def)

lemma same_member_trans: "same_member A B \<Longrightarrow> same_member B C \<Longrightarrow> same_member A C"
  by (simp add: same_member_def)

lemma same_member_accept: "same_member N (snd (accept_peer E p cert crl rep N))"
  by (simp add: accept_peer_def Let_def node_now_eq split_beta same_member_def split: sum.split)

interpretation member: node_relation E same_member for E
proof unfold_locales
  show "same_member N (snd (accept_peer E p cert crl rep N))" for N p cert crl rep
    by (rule same_member_accept)
  show "same_member N M" if "same_peers N M" for N M
    using that by (rule same_member_peers)
qed (auto simp: same_member_def)

text \<open>Listening changes neither the peers nor the membership.\<close>

lemma same_peers_listen: "same_peers N (snd (listen_all E as N))"
  by (induction E as N rule: listen_all.induct) (auto simp: Let_def split: option.splits)

lemma same_peers_dial: "same_peers N (dial_bootstrap E a N)"
  by (simp add: dial_bootstrap_def Let_def split: option.split prod.split)

lemma same_peers_start: "same_peers N (snd (start_listening E N))"
proof (cases "listen_all E (cf_listen (nd_cfg N)) N")
  case (Pair r M)
  then have M: "same_peers N M" using same_peers_listen [of N E "cf_listen (nd_cfg N)"] by simp
  have "same_peers K (fold (dial_bootstrap E) as K)" for K as
    by (rule same_peers_fold) (rule same_peers_dial)
  from same_peers_trans [OF M] this [of "act a M" for a] Pair show ?thesis
    by (auto simp: start_listening_def Let_def split: sum.split option.split)
qed

section \<open>The invariant of a session\<close>

text \<open>
  The node behind the handle runs for this device, with a certificate that was checked against its
  organisation, and its trust gate is intact.
\<close>

definition node_for :: "'a env_scheme \<Rightarrow> bytes \<Rightarrow> node \<Rightarrow> bool" where
  "node_for E sk N \<longleftrightarrow> gate_ok E (en_org_id (nd_enrollment N)) N \<and> nd_self N = device_peer_id E sk
     \<and> (\<exists>t. cert_verify E (en_cert (nd_enrollment N)) (en_org_id (nd_enrollment N)) (Some (nd_self N)) None t = Inr ())"

definition client_ok :: "'a env_scheme \<Rightarrow> client \<Rightarrow> bool" where
  "client_ok E c \<longleftrightarrow> crypto_laws E \<and> (\<forall>N alive. cl_node c = Some (N, alive) \<longrightarrow> node_for E (cl_identity c) N)"

lemma node_for_peers: "same_peers N M \<Longrightarrow> node_for E sk N \<Longrightarrow> node_for E sk M"
  using gate_ok_same [of N M E] by (auto simp: node_for_def same_peers_def)

lemma node_for_act [simp]: "node_for E sk (act a N) = node_for E sk N"
  by (simp add: node_for_def gate_ok_def)

lemma node_for_db [simp]: "node_for E sk (N\<lparr>nd_db := d\<rparr>) = node_for E sk N"
  by (simp add: node_for_def gate_ok_def)

lemma node_for_step:
  assumes "crypto_laws E" "node_for E sk N"
  shows "node_for E sk (node_step E i N)"
  using assms gate_ok_step [OF assms(1), of "en_org_id (nd_enrollment N)" N i] member.step [of N E i]
  by (auto simp: node_for_def same_member_def)

lemma node_for_spawn: "spawn E cfg sk en d t = Inr N \<Longrightarrow> node_for E sk N"
  by (auto simp: spawn_ok node_for_def gate_ok_def validate_def cert_verify_crl)

subsection \<open>Frames of the calls\<close>

lemma client_now_fields [simp]:
  "cl_identity (snd (client_now E c)) = cl_identity c" "cl_node (snd (client_now E c)) = cl_node c"
  "app (cl_db (snd (client_now E c))) = app (cl_db c)" "meta (cl_db (snd (client_now E c))) = meta (cl_db c)"
  "cl_config (snd (client_now E c)) = cl_config c" "fst (client_now E c) = wall E (reads (clock (cl_db c)))"
  by (simp_all add: client_now_def db_now_def now_ms_def Let_def)

lemma settle_fields [simp]:
  "cl_identity (settle E N M a c) = cl_identity c" "cl_node (settle E N M a c) = Some (M, a)"
  "cl_db (settle E N M a c) = nd_db M"
  by (simp_all add: settle_def pump_def)

lemma client_ok_now [simp]: "client_ok E (snd (client_now E c)) = client_ok E c"
  by (simp add: client_ok_def)

lemma client_ok_db [simp]: "client_ok E (c\<lparr>cl_db := d\<rparr>) = client_ok E c"
  by (simp add: client_ok_def)

lemma client_ok_settle [simp]:
  "client_ok E (settle E N M a c) \<longleftrightarrow> crypto_laws E \<and> node_for E (cl_identity c) M"
  by (simp add: client_ok_def)

lemma client_ok_listener [simp]: "client_ok E (set_listener c) = client_ok E c"
  by (simp add: client_ok_def set_listener_def)

lemma client_ok_turn: "client_ok E c \<Longrightarrow> client_ok E (turn E i c)"
  using node_for_step [of E "cl_identity c" _ i]
  by (auto simp: turn_def Let_def client_ok_def split: option.split bool.split)

lemma client_ok_send: "client_ok E c \<Longrightarrow> client_ok E (snd (handle_send E cmd c))"
  by (auto simp: handle_send_def client_ok_turn split: option.split bool.split)

lemma client_ok_boot:
  assumes "crypto_laws E" "node_for E (cl_identity c) N"
  shows "client_ok E (boot E N c)"
proof (cases "start_listening E N")
  case (Pair r M)
  then have "node_for E (cl_identity c) M"
    using node_for_peers [OF same_peers_start [of N E]] assms(2) by simp
  with Pair assms(1) show ?thesis by (simp add: boot_def split: sum.split)
qed

lemma client_ok_start:
  assumes "client_ok E c"
  shows "client_ok E (snd (client_start E c))"
proof -
  have "client_ok E (boot E N (snd (client_now E c)))"
    if "spawn E cfg (cl_identity c) en d t = Inr N" for cfg en d t N
    using client_ok_boot [of E "snd (client_now E c)" N] node_for_spawn [OF that] assms
    by (simp add: client_ok_def)
  then show ?thesis
    using assms by (auto simp: client_start_def failed_def Let_def split_beta split: sum.splits option.splits)
qed

lemma client_ok_with_handle: "client_ok E c \<Longrightarrow> client_ok E (snd (with_handle E cmd c))"
  using client_ok_send [of E c cmd] by (simp add: with_handle_def split_beta Let_def)

lemma client_ok_execute: "client_ok E c \<Longrightarrow> client_ok E (snd (client_execute E sql params c))"
  by (auto simp: client_execute_def client_ok_send split: sum.split prod.split)

text \<open>Every call keeps the invariant.\<close>

lemma client_ok_step: "client_ok E c \<Longrightarrow> client_ok E (client_step E call c)"
proof (cases call)
  case (SendMessage raw room body)
  then show "client_ok E c \<Longrightarrow> ?thesis"
    using client_ok_execute [of E "snd (client_now E c)"]
    by (auto simp: send_message_def Let_def split_beta split: sum.split option.split prod.split)
next
  case Stop
  then show "client_ok E c \<Longrightarrow> ?thesis" by (simp add: client_stop_def client_ok_def)
next
  case (DialPeer a)
  then show "client_ok E c \<Longrightarrow> ?thesis"
    by (auto simp: mobile_dial_def client_ok_with_handle split: option.split)
next
  case (GetStatus n)
  then show "client_ok E c \<Longrightarrow> ?thesis"
    using client_ok_with_handle [of E c Status]
    by (auto simp: status_def split: sum.split option.split prod.split)
qed (auto simp: begin_enrollment_def complete_enrollment_def sync_now_def client_register_table_def
      client_ok_start client_ok_with_handle client_ok_execute client_ok_turn Let_def split_beta
      split: sum.split)

lemma client_identity_turn [simp]: "cl_identity (turn E i c) = cl_identity c"
  by (simp add: turn_def Let_def split: option.split bool.split)

lemma client_identity_send [simp]: "cl_identity (snd (handle_send E cmd c)) = cl_identity c"
  by (simp add: handle_send_def split: option.split bool.split)

lemma client_identity_handle [simp]: "cl_identity (snd (with_handle E cmd c)) = cl_identity c"
  by (simp add: with_handle_def split_beta Let_def)

lemma client_identity_execute [simp]: "cl_identity (snd (client_execute E sql params c)) = cl_identity c"
  by (simp add: client_execute_def split: sum.split prod.split)

lemma client_identity_boot [simp]: "cl_identity (boot E N c) = cl_identity c"
  by (simp add: boot_def split: sum.split prod.split)

lemma client_identity_step [simp]: "cl_identity (client_step E call c) = cl_identity c"
proof (cases call)
  case (SendMessage raw room body)
  then show ?thesis
    using client_identity_execute [of E insert_message_sql _ "snd (client_now E c)"]
    by (auto simp: send_message_def Let_def split_beta split: sum.split option.split prod.split)
next
  case (GetStatus n)
  obtain r c' where sent: "with_handle E Status c = (r, c')" by fastforce
  then have "cl_identity c' = cl_identity c" by (metis client_identity_handle snd_conv)
  with GetStatus sent show ?thesis by (simp add: status_def split: sum.split option.split prod.split)
next
  case Start
  then show ?thesis by (simp add: client_start_def Let_def split_beta split: sum.split option.split)
qed (simp_all add: begin_enrollment_def complete_enrollment_def sync_now_def client_register_table_def
    client_stop_def mobile_dial_def set_listener_def Let_def split_beta split: sum.split option.split)

section \<open>Standing through a session\<close>

text \<open>A call that gives no peer a standing: whoever has it afterwards had it before.\<close>

definition no_new_peer :: "client \<Rightarrow> client \<Rightarrow> bool" where
  "no_new_peer c c' \<longleftrightarrow> (\<forall>N' alive' p i. cl_node c' = Some (N', alive') \<longrightarrow> tbl_get (authed N') p = Some i \<longrightarrow>
     (\<exists>N alive. cl_node c = Some (N, alive) \<and> tbl_get (authed N) p = Some i
        \<and> en_org_id (nd_enrollment N') = en_org_id (nd_enrollment N)))"

lemma no_new_peer_same: "cl_node c' = cl_node c \<Longrightarrow> no_new_peer c c'"
  by (simp add: no_new_peer_def)

lemma no_new_peer_trans: "no_new_peer a b \<Longrightarrow> no_new_peer b c \<Longrightarrow> no_new_peer a c"
  unfolding no_new_peer_def by metis

lemma turn_authed:
  assumes "cl_node (turn E x c) = Some (N', alive')" "tbl_get (authed N') p = Some i"
  shows "\<exists>N alive. cl_node c = Some (N, alive) \<and> en_org_id (nd_enrollment N') = en_org_id (nd_enrollment N)
    \<and> (tbl_get (authed N) p = Some i \<or> alive \<and> vouched_at E (N\<lparr>nd_db := cl_db c\<rparr>) p x i)"
proof (cases "\<exists>N. cl_node c = Some (N, True)")
  case True
  then obtain N where N: "cl_node c = Some (N, True)" by blast
  let ?N = "N\<lparr>nd_db := cl_db c\<rparr>"
  show ?thesis
  proof (cases "x = Cmd Shutdown")
    case True
    with N assms have "N' = emit Stopped ?N" by (simp add: turn_def Let_def)
    with N assms(2) show ?thesis by (intro exI [of _ N] exI [of _ True]) simp
  next
    case False
    with N assms have N': "N' = node_step E x ?N" by (simp add: turn_def Let_def)
    have "same_member ?N N'" unfolding N' by (rule member.step)
    then have "en_org_id (nd_enrollment N') = en_org_id (nd_enrollment N)" by (simp add: same_member_def)
    moreover from authed_step [of E x ?N p i] assms(2) N'
    have "tbl_get (authed N) p = Some i \<or> vouched_at E ?N p x i" by auto
    ultimately show ?thesis using N by blast
  qed
next
  case False
  then have "turn E x c = c" by (auto simp: turn_def split: option.split bool.split)
  with assms show ?thesis by auto
qed

lemma no_new_peer_send: "no_new_peer c (snd (handle_send E cmd c))"
proof -
  have "\<not> vouched_at E M p (Cmd cmd) i" for M p i by (simp add: vouched_at_def greets_def)
  then have "no_new_peer c (turn E (Cmd cmd) c)"
    unfolding no_new_peer_def using turn_authed [of E "Cmd cmd" c] by metis
  then show ?thesis
    by (auto simp: handle_send_def no_new_peer_same split: option.split bool.split)
qed

lemma no_new_peer_handle: "no_new_peer c (snd (with_handle E cmd c))"
  using no_new_peer_send [of c E cmd] by (simp add: with_handle_def split_beta Let_def no_new_peer_same)

lemma no_new_peer_execute: "no_new_peer c (snd (client_execute E sql params c))"
proof -
  have "no_new_peer c (snd (handle_send E cmd (c\<lparr>cl_db := d\<rparr>)))" for cmd d
    using no_new_peer_trans [OF no_new_peer_same no_new_peer_send, of "c\<lparr>cl_db := d\<rparr>" c E cmd] by simp
  then show ?thesis by (simp add: client_execute_def no_new_peer_same split: sum.split prod.split)
qed

lemma no_new_peer_boot:
  assumes "cl_node c = None" "authed N = []"
  shows "no_new_peer c (boot E N c)"
proof (cases "start_listening E N")
  case (Pair r M)
  then have "authed M = []" using same_peers_start [of N E] assms(2) by (simp add: same_peers_def)
  with Pair show ?thesis by (simp add: boot_def no_new_peer_def split: sum.split)
qed

lemma no_new_peer_start: "no_new_peer c (snd (client_start E c))"
proof -
  have "no_new_peer c (boot E N (snd (client_now E c)))"
    if "cl_node c = None" "spawn E cfg sk en d t = Inr N" for cfg sk en d t N
    using no_new_peer_trans [OF no_new_peer_same no_new_peer_boot, of "snd (client_now E c)" c N E] that
    by (auto simp: spawn_ok)
  then show ?thesis
    by (cases "cl_node c = None")
      (auto simp: client_start_def failed_def Let_def split_beta no_new_peer_same split: sum.splits option.splits)
qed

lemma no_new_peer_step: "\<forall>x. call \<noteq> Turn x \<Longrightarrow> no_new_peer c (client_step E call c)"
proof (cases call)
  case (SendMessage raw room body)
  have "no_new_peer c (snd (client_execute E sql params (snd (client_now E c))))" for sql params
    using no_new_peer_trans [OF no_new_peer_same no_new_peer_execute, of "snd (client_now E c)" c] by simp
  then show ?thesis
    using SendMessage
    by (auto simp: send_message_def Let_def split_beta no_new_peer_same split: sum.split option.split prod.split)
next
  case (GetStatus n)
  obtain r c' where sent: "with_handle E Status c = (r, c')" by fastforce
  then have "no_new_peer c c'" by (metis no_new_peer_handle snd_conv)
  with GetStatus sent show ?thesis by (simp add: status_def split: sum.split option.split prod.split)
next
  case Stop
  then show ?thesis by (simp add: client_stop_def no_new_peer_def)
next
  case (DialPeer a)
  then show ?thesis
    by (auto simp: mobile_dial_def no_new_peer_handle no_new_peer_same split: option.split)
qed (auto simp: begin_enrollment_def complete_enrollment_def sync_now_def client_register_table_def set_listener_def
      no_new_peer_start no_new_peer_handle no_new_peer_execute no_new_peer_same Let_def split_beta
      split: sum.split)

text \<open>The greeting that earned a peer its standing in a session, since when the node has not been stopped.\<close>

lemma session_greeting:
  assumes "cl_node c = None" "cl_node (fold (client_step E) calls c) = Some (N, alive)" "tbl_get (authed N) p = Some i"
  shows "\<exists>pre x post M. calls = pre @ Turn x # post \<and> Stop \<notin> set post
    \<and> cl_node (fold (client_step E) pre c) = Some (M, True)
    \<and> vouched_at E (M\<lparr>nd_db := cl_db (fold (client_step E) pre c)\<rparr>) p x i
    \<and> en_org_id (nd_enrollment M) = en_org_id (nd_enrollment N)"
  using assms(2,3)
proof (induction calls arbitrary: N alive rule: rev_induct)
  case (snoc call calls)
  let ?c = "fold (client_step E) calls c"
  have now: "cl_node (client_step E call ?c) = Some (N, alive)" using snoc.prems(1) by simp
  have keep: ?case if K: "cl_node ?c = Some (K, a)" "tbl_get (authed K) p = Some i"
      "en_org_id (nd_enrollment N) = en_org_id (nd_enrollment K)" for K a
  proof -
    obtain pre x post M where ih: "calls = pre @ Turn x # post" "Stop \<notin> set post"
      "cl_node (fold (client_step E) pre c) = Some (M, True)"
      "vouched_at E (M\<lparr>nd_db := cl_db (fold (client_step E) pre c)\<rparr>) p x i"
      "en_org_id (nd_enrollment M) = en_org_id (nd_enrollment K)"
      using snoc.IH [OF K(1,2)] by blast
    have "call \<noteq> Stop" using now by (auto simp: client_stop_def)
    with ih K(3) show ?thesis
      by (intro exI [of _ pre] exI [of _ x] exI [of _ "post @ [call]"] exI [of _ M]) simp
  qed
  show ?case
  proof (cases "\<exists>x. call = Turn x")
    case True
    then obtain x where x: "call = Turn x" by blast
    obtain K a where K: "cl_node ?c = Some (K, a)" "en_org_id (nd_enrollment N) = en_org_id (nd_enrollment K)"
      "tbl_get (authed K) p = Some i \<or> a \<and> vouched_at E (K\<lparr>nd_db := cl_db ?c\<rparr>) p x i"
      using turn_authed [of E x ?c N alive p i] now snoc.prems(2) x by auto
    from K(3) show ?thesis
    proof
      assume "a \<and> vouched_at E (K\<lparr>nd_db := cl_db ?c\<rparr>) p x i"
      with K(1,2) x show ?thesis
        by (intro exI [of _ calls] exI [of _ x] exI [of _ "[]"] exI [of _ K]) simp
    qed (rule keep [OF K(1) _ K(2)])
  next
    case False
    then have "no_new_peer ?c (client_step E call ?c)" by (intro no_new_peer_step) blast
    with now snoc.prems(2) show ?thesis unfolding no_new_peer_def using keep by metis
  qed
qed (simp add: assms(1))

section \<open>The application's tables\<close>

lemma flush_and_push_app: "app (nd_db (flush_and_push E N)) = app (nd_db N)"
proof -
  have fl: "flush_local E (nd_db N) = (x, d') \<Longrightarrow> app d' = app (nd_db N)" for x d'
    using flush_local_app [of E "nd_db N"] by simp
  show ?thesis
    by (auto simp: flush_and_push_def Let_def mark_broadcast_def set_meta_def split: sum.split prod.split dest: fl)
qed

lemma send_local_changed_app: "app (cl_db (snd (handle_send E LocalChanged c))) = app (cl_db c)"
  by (simp add: handle_send_def turn_def Let_def flush_and_push_app split: option.split bool.split)

end
