(* ===== verification/Cli.thy ===== *)
theory Cli
  imports Queries
begin

text \<open>
  \<open>rust/p2p-cli/src/main.rs\<close>: the peer that runs in a terminal.  A command returns its result with
  what it printed, one entry per \<open>println!\<close>.  The HTTP client and the text of a float are arguments;
  parsing the command line, logging and the async runtime are not modelled.
\<close>

section \<open>Environment, results\<close>

datatype http_reply =
    HttpStatus string                                      \<comment> \<open>an error status, as text\<close>
  | HttpFailed string                                      \<comment> \<open>no connection\<close>
  | HttpBadBody
  | HttpReply enroll_response

record cli_env = client_env +
  http_post :: "string \<Rightarrow> enroll_request \<Rightarrow> http_reply"
  f64_display :: "u64 \<Rightarrow> string"

datatype cli_error = CliError string | CliPanic

type_synonym 'x cli_result = "cli_error + 'x"

definition newline :: string where "newline = [CHR 0x0A]"
definition em_dash :: string where "em_dash = [CHR 0xE2, CHR 0x80, CHR 0x94]"

text \<open>\<open>?\<close> on an error of the core, and \<open>context\<close>, which puts its own message in front.\<close>

definition lifted :: "error + 'x \<Rightarrow> 'x cli_result" where
  "lifted r = (case r of Inl e \<Rightarrow> Inl (CliError (error_text e)) | Inr v \<Rightarrow> Inr v)"

definition in_context :: "string \<Rightarrow> error + 'x \<Rightarrow> 'x cli_result" where
  "in_context m r = (case r of Inl e \<Rightarrow> Inl (CliError m) | Inr v \<Rightarrow> Inr v)"

text \<open>\<open>&s[..n]\<close>, which panics beyond the end and inside a character.\<close>

definition slice_to :: "nat \<Rightarrow> string \<Rightarrow> string cli_result" where
  "slice_to n s = (if char_boundary s n then Inr (take n s) else Inl CliPanic)"

section \<open>Rendering\<close>

fun render :: "'a cli_env_scheme \<Rightarrow> sql_value \<Rightarrow> string" where
  "render E VNull = ''NULL''"
| "render E (VInt i) = show_int (sint i)"
| "render E (VReal f) = f64_display E f"
| "render E (VText s) = s"
| "render E (VBlob b) = ''<'' @ show_nat (length b) @ '' bytes>''"

definition format_message :: "'a cli_env_scheme \<Rightarrow> sql_value \<Rightarrow> sql_value \<Rightarrow> string" where
  "format_message E writer body = ''<'' @ render E writer @ ''> '' @ render E body"

section \<open>Reading the replica\<close>

definition log_sql :: string where
  "log_sql = ''SELECT author_name, body, sent_at_ms FROM messages WHERE room = ?1 ORDER BY sent_at_ms''"

definition print_log :: "'a cli_env_scheme \<Rightarrow> string \<Rightarrow> db \<Rightarrow> unit cli_result \<times> string list" where
  "print_log E room d =
     (case lifted (db_query E log_sql [VText room] d) of
        Inl e \<Rightarrow> (Inl e, [])
      | Inr q \<Rightarrow>
          (Inr (), (if qr_rows q = [] then [''(no messages in #'' @ room @ '' yet)''] else [])
             @ List.map (\<lambda>r. format_message E (r ! 0) (r ! 1)) (qr_rows q)))"

definition run_sql :: "'a cli_env_scheme \<Rightarrow> string \<Rightarrow> db \<Rightarrow> unit cli_result \<times> string list" where
  "run_sql E sql d =
     (case lifted (db_query E sql [] d) of
        Inl e \<Rightarrow> (Inl e, [])
      | Inr q \<Rightarrow>
          (Inr (), join_with '' | '' (qr_columns q)
             # List.map (\<lambda>r. join_with '' | '' (List.map (render E) r)) (qr_rows q)))"

definition last_sql :: string where
  "last_sql = ''SELECT id FROM messages ORDER BY sent_at_ms DESC, id DESC LIMIT 1''"

definition last_message_id :: "'a cli_env_scheme \<Rightarrow> db \<Rightarrow> string option" where
  "last_message_id E d =
     (case db_query E last_sql [] d of
        Inl e \<Rightarrow> None
      | Inr q \<Rightarrow> (case qr_rows q of [] \<Rightarrow> None | r # _ \<Rightarrow> Some (render E (r ! 0))))"

definition new_sql :: string where
  "new_sql = ''SELECT id, author_name, body FROM messages ORDER BY sent_at_ms, id''"

text \<open>The loop of \<open>print_new_messages\<close>: whether \<open>after\<close> was reached, and the last id printed.\<close>

fun print_rows ::
  "'a cli_env_scheme \<Rightarrow> string option \<Rightarrow> bool \<Rightarrow> string option \<Rightarrow> sql_value list list \<Rightarrow> string option \<times> string list"
where
  "print_rows E after reached latest [] = (latest, [])"
| "print_rows E after reached latest (r # rs) =
     (let ident = render E (r ! 0)
      in if \<not> reached then print_rows E after (Some ident = after) latest rs
         else (case print_rows E after True (Some ident) rs of
                 (latest, out) \<Rightarrow> (latest, (''  '' @ format_message E (r ! 1) (r ! 2)) # out)))"

definition print_new_messages ::
  "'a cli_env_scheme \<Rightarrow> string option \<Rightarrow> db \<Rightarrow> string option \<times> string list" where
  "print_new_messages E after d =
     (case db_query E new_sql [] d of
        Inl e \<Rightarrow> (None, [])
      | Inr q \<Rightarrow>
          (case print_rows E after (after = None) after (qr_rows q) of
             (latest, out) \<Rightarrow> (case latest of None \<Rightarrow> after | Some _ \<Rightarrow> latest, out)))"

definition whoami_name :: "'a cli_env_scheme \<Rightarrow> db \<Rightarrow> string" where
  "whoami_name E d =
     (case stored_enrollment E d of
        Inr (Some en) \<Rightarrow> display_name (claims (en_cert en)) | _ \<Rightarrow> ''desktop'')"

section \<open>Enrolment and identity\<close>

definition cli_identity :: "'a crypto_scheme \<Rightarrow> bytes \<Rightarrow> data_dir \<Rightarrow> bytes cli_result \<times> data_dir" where
  "cli_identity E fresh dir =
     (case dd_key dir of
        Some raw \<Rightarrow> (lifted (device_from_secret E raw), dir)
      | None \<Rightarrow> (Inr fresh, dir\<lparr>dd_key := Some fresh\<rparr>))"

definition trim_slashes :: "string \<Rightarrow> string" where
  "trim_slashes s = rev (dropWhile (\<lambda>c. c = CHR ''/'') (rev s))"

definition cli_post :: "'a cli_env_scheme \<Rightarrow> string \<Rightarrow> enroll_request \<Rightarrow> enroll_response cli_result" where
  "cli_post E base rq =
     (case http_post E (base @ ''/v1/enroll'') rq of
        HttpStatus code \<Rightarrow> Inl (CliError (''the seed server refused the enrolment (HTTP '' @ code @ '')''))
      | HttpFailed m \<Rightarrow> Inl (CliError (''could not reach '' @ base @ '': '' @ m))
      | HttpBadBody \<Rightarrow> Inl (CliError (''the server'' @ [CHR 0x27] @ ''s reply was not a valid enrolment response''))
      | HttpReply resp \<Rightarrow> Inr resp)"

definition joined_text :: "'a crypto_scheme \<Rightarrow> bytes \<Rightarrow> enrollment \<Rightarrow> string list cli_result" where
  "joined_text E sk en =
     (case slice_to 12 (en_org_id en) of
        Inl e \<Rightarrow> Inl e
      | Inr short \<Rightarrow>
          Inr ([''Joined '' @ en_org_name en @ '' ('' @ short @ '').'',
                ''  peer id  '' @ peer_text E (device_peer_id E sk),
                ''  role     '' @ role_as_str (claim_role (claims (en_cert en)))]
               @ (if en_bootstrap en = []
                  then [newline @ ''  The server advertised no dialable address, so this peer will find'',
                        ''  others on the local network only. That is expected behind an'',
                        ''  HTTP-only tunnel.'']
                  else [''  seeds    '' @ show_nat (length (en_bootstrap en))])))"

definition cli_enroll ::
  "'a cli_env_scheme \<Rightarrow> string \<Rightarrow> string \<Rightarrow> string \<Rightarrow> bytes \<Rightarrow> db \<Rightarrow> (unit cli_result \<times> string list) \<times> db" where
  "cli_enroll E url code name sk d =
     (let base = trim_slashes url;
          (at, d) = db_now E d;
          rq = build_enroll_request E sk code name ''desktop'' at
      in (case cli_post E base rq of
            Inl e \<Rightarrow> ((Inl e, []), d)
          | Inr resp \<Rightarrow>
              (let (t, d) = db_now E d
               in (case in_context ''the certificate the server returned did not check out'' (accept E resp sk t) of
                     Inl e \<Rightarrow> ((Inl e, []), d)
                   | Inr en \<Rightarrow>
                       (let d = save_enrollment (enrollment_json E) en d
                        in (case joined_text E sk en of
                              Inl e \<Rightarrow> ((Inl e, []), d)
                            | Inr out \<Rightarrow> ((Inr (), out), d)))))))"

definition validity_line :: "unit result \<Rightarrow> string" where
  "validity_line r = (case r of Inr _ \<Rightarrow> ''status    valid'' | Inl e \<Rightarrow> ''status    NOT USABLE: '' @ error_text e)"

text \<open>\<open>now\<close> is the reading \<open>validate\<close> takes; a panic keeps what was printed before it.\<close>

definition whoami :: "'a cli_env_scheme \<Rightarrow> bytes \<Rightarrow> u64 \<Rightarrow> db \<Rightarrow> unit cli_result \<times> string list" where
  "whoami E sk now d =
     (let first = ''peer id   '' @ peer_text E (device_peer_id E sk);
          replica = ''replica   '' @ show_nat (st_changes (stats d)) @ '' changes from ''
             @ show_nat (st_known_devices (stats d)) @ '' devices''
      in (case lifted (stored_enrollment E d) of
            Inl e \<Rightarrow> (Inl e, [first])
          | Inr None \<Rightarrow>
              (Inr (), [first, ''org       not enrolled '' @ em_dash @ '' run `p2p-cli enroll`'', replica])
          | Inr (Some en) \<Rightarrow>
              (case slice_to 12 (en_org_id en) of
                 Inl e \<Rightarrow> (Inl e, [first])
               | Inr short \<Rightarrow>
                   (let c = claims (en_cert en)
                    in (Inr (), [first, ''org       '' @ en_org_name en @ '' ('' @ short @ '')'',
                          ''user      '' @ user_id c, ''device    '' @ display_name c,
                          ''role      '' @ role_as_str (claim_role c),
                          ''serial    '' @ show_nat (unat (serial c)), validity_line (validate E en sk now)]
                        @ List.map (\<lambda>b. ''seed      '' @ b) (en_bootstrap en) @ [replica])))))"

section \<open>Running a node\<close>

definition short_peer :: "string \<Rightarrow> string cli_result" where
  "short_peer peer = slice_to (min 12 (length peer)) peer"

text \<open>What one event prints; nothing but a panic stops the loop here.\<close>

fun event_text :: "node_event \<Rightarrow> string list cli_result" where
  "event_text (Started peer org) =
     (case slice_to 12 org of
        Inl e \<Rightarrow> Inl e | Inr short \<Rightarrow> Inr [''running as '' @ peer @ newline @ ''  org '' @ short])"
| "event_text (Listening addr) = Inr [''  listening  '' @ addr]"
| "event_text (RelayReserved addr) = Inr [''  reachable  '' @ addr]"
| "event_text (PeerConnected peer user name rl) = Inr [''+ '' @ name @ '' ('' @ rl @ '') joined'']"
| "event_text (PeerDisconnected peer) =
     (case short_peer peer of Inl e \<Rightarrow> Inl e | Inr s \<Rightarrow> Inr [''- '' @ s @ '' left''])"
| "event_text (PeerRejected peer reason) =
     (case short_peer peer of Inl e \<Rightarrow> Inl e | Inr s \<Rightarrow> Inr [''! refused '' @ s @ '': '' @ reason])"
| "event_text (Synced peer n tbls) =
     Inr [''  synced '' @ show_nat (unat n) @ '' changes ('' @ join_with '', '' tbls @ '')'']"
| "event_text (NodeError m) = Inr [''! '' @ m]"
| "event_text (LocalChanges n) = Inr []"
| "event_text Stopped = Inr []"

text \<open>
  What the loop receives: an event, with the replica as it is then, the end of the channel (or a
  lagging receiver, which ends the loop too), or the deadline.
\<close>

datatype signal = Received node_event db | ChannelEnd | Deadline

fun watch_loop ::
  "'a cli_env_scheme \<Rightarrow> bool \<Rightarrow> string option \<Rightarrow> signal list \<Rightarrow> unit cli_result \<times> string list" where
  "watch_loop E watch seen [] = (Inr (), [])"
| "watch_loop E watch seen (ChannelEnd # sigs) = (Inr (), [])"
| "watch_loop E watch seen (Deadline # sigs) = (Inr (), [])"
| "watch_loop E watch seen (Received ev d # sigs) =
     (case event_text ev of
        Inl e \<Rightarrow> (Inl e, [])
      | Inr out \<Rightarrow>
          (let (seen, more) = (case ev of
                   Synced _ _ _ \<Rightarrow> if watch then print_new_messages E seen d else (seen, [])
                 | _ \<Rightarrow> (seen, []));
               (r, rest) = watch_loop E watch seen sigs
           in (r, out @ more @ rest)))"

definition cli_boot :: "'a node_env_scheme \<Rightarrow> node \<Rightarrow> node \<times> bool" where
  "cli_boot E N =
     (case start_listening E N of
        (Inl e, M) \<Rightarrow> (emit (NodeError (error_text e)) M, False)
      | (Inr _, M) \<Rightarrow> (emit (Started (peer_text E (nd_self M)) (en_org_id (nd_enrollment M))) M, True))"

text \<open>Posting: an insert on the shared replica, then the node is told.\<close>

definition cli_send ::
  "'a cli_env_scheme \<Rightarrow> bytes \<Rightarrow> bytes \<Rightarrow> string \<Rightarrow> string \<Rightarrow> node \<times> bool \<Rightarrow> string list cli_result \<times> node \<times> bool" where
  "cli_send E sk raw room body na =
     (let (N, alive) = na;
          name = whoami_name E (nd_db N);
          (t, d) = db_now E (nd_db N)
      in (case db_execute E insert_message_sql
                [VText (hex_encode E raw), VText room, VText (peer_text E (device_peer_id E sk)), VText name,
                 VText body, VInt t] d of
            (Inl e, d) \<Rightarrow> (Inl (CliError (error_text e)), N\<lparr>nd_db := d\<rparr>, alive)
          | (Inr _, d) \<Rightarrow>
              if alive then (Inr [''posted to #'' @ room], node_step E (Cmd LocalChanged) (N\<lparr>nd_db := d\<rparr>), alive)
              else (Inl (CliError (error_text ENotRunning)), N\<lparr>nd_db := d\<rparr>, alive)))"

text \<open>The node \<open>run\<close> starts, after the stored enrolment has been checked.\<close>

definition cli_start :: "'a cli_env_scheme \<Rightarrow> bytes \<Rightarrow> db \<Rightarrow> (node \<times> bool) cli_result" where
  "cli_start E sk d =
     (case lifted (stored_enrollment E d) of
        Inl e \<Rightarrow> Inl e
      | Inr None \<Rightarrow>
          Inl (CliError (''this peer has not joined an organisation yet '' @ em_dash @ '' run `p2p-cli enroll` first''))
      | Inr (Some en) \<Rightarrow>
          (let (t, d) = db_now E d
           in (case in_context (''this peer'' @ [CHR 0x27] @ ''s certificate is no longer usable'') (validate E en sk t) of
                 Inl e \<Rightarrow> Inl e
               | Inr _ \<Rightarrow>
                   (case lifted (default_config E) of
                      Inl e \<Rightarrow> Inl CliPanic
                    | Inr cfg \<Rightarrow>
                        (let (u, d) = db_now E d
                         in (case lifted (spawn E cfg sk en d u) of
                               Inl e \<Rightarrow> Inl e
                             | Inr N \<Rightarrow> Inr (cli_boot E N)))))))"

definition cli_run ::
  "'a cli_env_scheme \<Rightarrow> bytes \<Rightarrow> bytes \<Rightarrow> bool \<Rightarrow> (string \<times> string) option \<Rightarrow> signal list \<Rightarrow> db
    \<Rightarrow> unit cli_result \<times> string list" where
  "cli_run E sk raw watch post sigs d =
     (case cli_start E sk d of
        Inl e \<Rightarrow> (Inl e, [])
      | Inr na \<Rightarrow>
          (case (case post of
                   None \<Rightarrow> (Inr [], na)
                 | Some (room, body) \<Rightarrow> cli_send E sk raw room body na) of
             (Inl e, na) \<Rightarrow> (Inl e, [])
           | (Inr out, na) \<Rightarrow>
               (let (r, rest) = watch_loop E watch (last_message_id E (nd_db (fst na))) sigs
                in (r, out @ rest))))"

section \<open>The commands\<close>

datatype cli_cmd =
    EnrollCmd string string string
  | RunCmd bool
  | SendCmd string string
  | LogCmd string
  | SqlCmd string
  | WhoamiCmd

text \<open>\<open>main\<close>: the key, the replica, then the command.\<close>

definition cli_main ::
  "'a cli_env_scheme \<Rightarrow> bytes \<Rightarrow> bytes \<Rightarrow> u64 \<Rightarrow> signal list \<Rightarrow> cli_cmd \<Rightarrow> data_dir
    \<Rightarrow> unit cli_result \<times> string list" where
  "cli_main E fresh raw now sigs cmd dir =
     (case fst (cli_identity E fresh dir) of
        Inl e \<Rightarrow> (Inl e, [])
      | Inr sk \<Rightarrow>
          (case lifted (open_authenticated E (dd_replica dir) sk) of
             Inl e \<Rightarrow> (Inl e, [])
           | Inr d \<Rightarrow>
               (case cmd of
                  EnrollCmd url code name \<Rightarrow> fst (cli_enroll E url code name sk d)
                | WhoamiCmd \<Rightarrow> whoami E sk now d
                | LogCmd room \<Rightarrow> print_log E room d
                | SqlCmd sql \<Rightarrow> run_sql E sql d
                | RunCmd watch \<Rightarrow> cli_run E sk raw watch None sigs d
                | SendCmd body room \<Rightarrow> cli_run E sk raw True (Some (room, body)) sigs d)))"

end
