(* ===== verification/ClientProperties.thy ===== *)
theory ClientProperties
  imports Clients Cli NodeSamples
begin

text \<open>
  The properties of the two clients: what a session of the mobile client admits, what a call stores and
  announces, how values cross the JSON boundary, and what the terminal client prints.  The first section
  holds the clients they are instantiated on.
\<close>

section \<open>Samples\<close>

text \<open>Numbers are an \<open>i64\<close> or a float; the parser knows one text.\<close>

definition toy_message :: "(i64 + u64) json" where
  "toy_message = JArr [JStr ''m1'', JStr ''general'', JStr (bytes_str (toy_public [2])), JStr ''d'', JStr ''hi'',
     JNum (Inl 1000)]"

definition toy_client_env :: client_env where
  "toy_client_env = node_env.extend toy_node_env
     \<lparr>sql_columns = (\<lambda>sql d. Inr []), sql_rows = (\<lambda>sql args d. Inr []),
      sql_writes = (\<lambda>sql args d. if tbl_get (app d) ''messages'' = None then Inl (ESqlite []) else
         Inr [WInsert ''messages'' (zip message_cols args)]),
      enrollment_of_json = (\<lambda>s. Inr toy_enrollment)\<rparr>"

definition toy_reply :: enroll_response where
  "toy_reply = \<lparr>rs_cert = issue_cert toy_node_env [7] (toy_public [2]) ''u'' ''d'' Member 1 1000000 0,
     rs_crl = crl_empty (org_id toy_node_env [7]),
     rs_org = \<lparr>oi_org_id = org_id toy_node_env [7], oi_org_pub = bytes_str (toy_public [7]), oi_name = ''other'',
       oi_bootstrap = []\<rparr>\<rparr>"

definition toy_mobile_on :: "(multiaddr \<Rightarrow> string option) \<Rightarrow> enrollment \<Rightarrow> (i64 + u64) mobile_env" where
  "toy_mobile_on lis en = client_env.extend (toy_client_env\<lparr>listen_error := lis, enrollment_of_json := (\<lambda>s. Inr en)\<rparr>)
     \<lparr>json_parse = (\<lambda>s. Inr toy_message), json_print = (\<lambda>v. ''x''),
      num_as_i64 = (\<lambda>n. case n of Inl i \<Rightarrow> Some i | Inr f \<Rightarrow> None),
      num_as_f64 = (\<lambda>n. case n of Inl i \<Rightarrow> None | Inr f \<Rightarrow> Some f),
      num_of_i64 = Inl, num_of_f64 = (\<lambda>f. if f = - 1 then None else Some (Inr f)),
      request_json = (\<lambda>r. []), response_of_json = (\<lambda>s. Inr toy_reply), event_json = (\<lambda>e. Some []),
      status_json = (\<lambda>s. []), addr_error = (\<lambda>s. [])\<rparr>"

abbreviation toy_mobile :: "(i64 + u64) mobile_env" where
  "toy_mobile \<equiv> toy_mobile_on (\<lambda>a. None) toy_enrollment"

definition toy_client :: client where
  "toy_client = \<lparr>cl_identity = [2], cl_config = \<lparr>mb_data_dir = [], mb_enable_mdns = True, mb_enable_relay = True\<rparr>,
     cl_db = (small ''a'')\<lparr>meta := [(META_KEY, [])], app := [(''messages'', messages_table)]\<rparr>, cl_node = None, cl_listening = False, cl_events = []\<rparr>"

lemmas toy_mobile_defs =
  toy_mobile_on_def client_env.defs toy_client_env_def node_env.defs toy_node_env_def env.defs toy_env_def
  crypto.defs toy_crypto_def

lemma toy_mobile_fields:
  "num_of_f64 (toy_mobile_on lis en) = (\<lambda>f. if f = - 1 then None else Some (Inr f))" "num_of_i64 (toy_mobile_on lis en) = Inl"
  "wall (toy_mobile_on lis en) = (\<lambda>n. 1000 + word_of_nat n)" "enrollment_of_json (toy_mobile_on lis en) = (\<lambda>s. Inr en)"
  "addr_parse (toy_mobile_on lis en) = (\<lambda>s. Some [Transport s])" "listen_error (toy_mobile_on lis en) = lis"
  "subscribe_error (toy_mobile_on lis en) = (\<lambda>t. None)" "response_of_json (toy_mobile_on lis en) = (\<lambda>s. Inr toy_reply)"
  "enrollment_json (toy_mobile_on lis en) = (\<lambda>e. [])" "hex_encode (toy_mobile_on lis en) = bytes_str"
  "device_peer_id (toy_mobile_on lis en) sk = toy_public sk" "peer_text (toy_mobile_on lis en) = bytes_str"
  "json_parse (toy_mobile_on lis en) = (\<lambda>s. Inr toy_message)" "json_print (toy_mobile_on lis en) = (\<lambda>v. ''x'')"
  "sql_writes (toy_mobile_on lis en) = (\<lambda>sql args d. if tbl_get (app d) ''messages'' = None then Inl (ESqlite []) else
       Inr [WInsert ''messages'' (zip message_cols args)])"
  by (simp_all add: toy_mobile_defs device_peer_id_def)

lemma toy_mobile_swarm: "\<exists>swarm idle. build_swarm (toy_mobile_on lis en) sk cfg = Inr (swarm, idle)"
  using build_swarm_works [of "toy_mobile_on lis en" sk cfg] by (auto simp: toy_mobile_defs)


lemma toy_mobile_laws: "crypto_laws (toy_mobile_on lis en)"
  by (simp add: crypto_laws_def toy_mobile_defs)

lemma toy_mobile_cert:
  assumes "t < 1000000"
  shows "cert_verify (toy_mobile_on lis en) (toy_cert k r) (org_id toy_node_env [1]) (Some (toy_public [k])) None t = Inr ()"
  using assms
  by (simp add: cert_verify_ok toy_cert_def issue_cert_def Let_def org_id_def org_id_from_public_def
      cert_peer_id_def device_pub_to_peer_id_def ed25519_public_def toy_mobile_defs sat_add_def MAX_CLOCK_DRIFT_MS_def)

lemma toy_stored: "stored_enrollment (toy_mobile_on lis en) (cl_db toy_client) = Inr (Some en)"
  by (simp add: stored_enrollment_def load_enrollment_def get_meta_def toy_client_def META_KEY_def toy_mobile_defs)

section \<open>Values across the boundary\<close>

text \<open>What \<open>serde_json\<close> documents of its numbers, and what becomes of a value that crosses.\<close>

definition json_laws :: "('n, 'a) mobile_env_scheme \<Rightarrow> bool" where
  "json_laws E \<longleftrightarrow> (\<forall>i. num_as_i64 E (num_of_i64 E i) = Some i)
     \<and> (\<forall>f n. num_of_f64 E f = Some n \<longrightarrow> num_as_i64 E n = None \<and> num_as_f64 E n = Some f)"

definition crossed :: "('n, 'a) mobile_env_scheme \<Rightarrow> sql_value \<Rightarrow> sql_value" where
  "crossed E v = (case v of VReal f \<Rightarrow> if num_of_f64 E f = None then VNull else v | _ \<Rightarrow> v)"

lemma json_value_crossed:
  "crypto_laws E \<Longrightarrow> json_laws E \<Longrightarrow> json_to_value E (value_to_json E v) = Inr (crossed E v)"
  by (cases v) (auto simp: json_laws_def crypto_laws_def crossed_def as_str_def split: option.splits)

text \<open>A SQL value sent to the app and handed back is the same value, except that a float that is not
  finite comes back as \<open>NULL\<close>: JSON has no word for it.\<close>

theorem json_values_round_trip:
  assumes "crypto_laws E" "json_laws E"
  shows "json_values E (List.map (value_to_json E) vs) = Inr (List.map (crossed E) vs)"
  by (induction vs) (simp_all add: json_value_crossed [OF assms])

theorem json_values_round_trip_witness:
  "json_values toy_mobile (List.map (value_to_json toy_mobile) [VBlob [1, 255], VReal 3, VReal (- 1), VInt (- 2)])
     = Inr [VBlob [1, 255], VReal 3, VNull, VInt (- 2)]"
proof -
  have "json_laws toy_mobile" by (auto simp: json_laws_def toy_mobile_defs split: if_splits)
  note json_values_round_trip [OF toy_mobile_laws this, of "[VBlob [1, 255], VReal 3, VReal (- 1), VInt (- 2)]"]
  moreover have "List.map (crossed toy_mobile) [VBlob [1, 255], VReal 3, VReal (- 1), VInt (- 2)] =
      [VBlob [1, 255], VReal 3, VNull, VInt (- 2)]"
    by (simp add: crossed_def toy_mobile_fields)
  ultimately show ?thesis by (simp only:)
qed

section \<open>A session of the mobile client\<close>

text \<open>C20: Whatever the app calls and whatever the network sends, in any order, beginning with no node: a peer
  that the client's node counts as authenticated has greeted that node in this session, since the last
  \<open>stop\<close>, with a certificate that was in force when the greeting was handled (signed by the key of the
  node's organisation, made out to the peer's own key, not expired by the clock of that moment, not on the
  revocation list of that moment), and its user, name and role are those of that certificate.  The node
  itself runs on a certificate signed by that organisation's key and made out to this device.\<close>

theorem session_admits_only_vouched_peers:
  assumes "crypto_laws E" "cl_node c = None"
    "cl_node (fold (client_step E) calls c) = Some (N, alive)" "tbl_get (authed N) p = Some i"
  shows "(\<exists>before x after M cert crl rep. calls = before @ Turn x # after \<and> Stop \<notin> set after
      \<and> cl_node (fold (client_step E) before c) = Some (M, True) \<and> greets p cert crl rep x
      \<and> in_force E (en_org_id (nd_enrollment N)) p (en_crl (snd (merge_crl E crl (nd_enrollment M))))
          (wall E (reads (clock (cl_db (fold (client_step E) before c))))) cert
      \<and> ap_user_id i = user_id (claims cert) \<and> ap_display_name i = display_name (claims cert)
      \<and> ap_role i = claim_role (claims cert))
    \<and> (let own = en_cert (nd_enrollment N) in
        org_id_from_public E (cert_org_pub own) = en_org_id (nd_enrollment N)
        \<and> claim_org_id (claims own) = en_org_id (nd_enrollment N)
        \<and> ed_verify E (cert_org_pub own) (cert_signing_bytes (claims own)) (cert_signature own)
        \<and> cert_peer_id E own = Inr (device_peer_id E (cl_identity c)))"
proof -
  have run: "client_ok E (fold (client_step E) calls c) \<and> cl_identity (fold (client_step E) calls c) = cl_identity c"
    if "client_ok E c" for c
    using that by (induction calls arbitrary: c) (auto simp: client_ok_step)
  have "client_ok E c" using assms(1,2) by (simp add: client_ok_def)
  from run [OF this] assms(3) have "node_for E (cl_identity c) N" by (auto simp: client_ok_def)
  then obtain t where own: "cert_verify E (en_cert (nd_enrollment N)) (en_org_id (nd_enrollment N))
      (Some (device_peer_id E (cl_identity c))) None t = Inr ()"
    unfolding node_for_def by auto
  obtain before x after M where g: "calls = before @ Turn x # after" "Stop \<notin> set after"
    "cl_node (fold (client_step E) before c) = Some (M, True)"
    "vouched_at E (M\<lparr>nd_db := cl_db (fold (client_step E) before c)\<rparr>) p x i"
    "en_org_id (nd_enrollment M) = en_org_id (nd_enrollment N)"
    using session_greeting [OF assms(2-4)] by blast
  from g(4) obtain cert crl rep where v: "greets p cert crl rep x"
    "in_force E (en_org_id (nd_enrollment N)) p (en_crl (snd (merge_crl E crl (nd_enrollment M))))
      (wall E (reads (clock (cl_db (fold (client_step E) before c))))) cert"
    "ap_user_id i = user_id (claims cert)" "ap_display_name i = display_name (claims cert)"
    "ap_role i = claim_role (claims cert)"
    by (auto simp: vouched_at_def g(5))
  have "\<exists>before x after M cert crl rep. calls = before @ Turn x # after \<and> Stop \<notin> set after
      \<and> cl_node (fold (client_step E) before c) = Some (M, True) \<and> greets p cert crl rep x
      \<and> in_force E (en_org_id (nd_enrollment N)) p (en_crl (snd (merge_crl E crl (nd_enrollment M))))
          (wall E (reads (clock (cl_db (fold (client_step E) before c))))) cert
      \<and> ap_user_id i = user_id (claims cert) \<and> ap_display_name i = display_name (claims cert)
      \<and> ap_role i = claim_role (claims cert)"
    using g(1-3) v by blast
  then show ?thesis using own by (simp add: cert_verify_ok Let_def)
qed

lemma listen_all_ok: "(\<And>a. listen_error E a = None) \<Longrightarrow> fst (listen_all E as N) = Inr ()"
  by (induction E as N rule: listen_all.induct) (simp_all add: Let_def)

lemma start_listening_ok:
  assumes "\<And>a. listen_error E a = None" "\<And>t. subscribe_error E t = None"
  shows "\<exists>M. start_listening E N = (Inr (), M)"
  using listen_all_ok [OF assms(1), of "cf_listen (nd_cfg N)" N]
  by (cases "listen_all E (cf_listen (nd_cfg N)) N") (simp add: start_listening_def assms(2) Let_def)

lemma toy_valid: "t < 1000000 \<Longrightarrow> validate (toy_mobile_on lis en) toy_enrollment [2] t = Inr ()"
  using toy_mobile_cert [of t lis en 2 Member]
  by (simp add: validate_def cert_verify_crl toy_enrollment_def is_revoked_def crl_empty_def binary_search_iff
      toy_mobile_fields)

lemma nd_db_fold_dial [simp]: "nd_db (fold (dial_bootstrap E) as N) = nd_db N"
  by (induction as arbitrary: N) (simp_all add: dial_bootstrap_def Let_def split: option.split prod.split)

lemma nd_db_listen_all: "nd_db (snd (listen_all E as N)) = nd_db N"
  by (induction E as N rule: listen_all.induct) (simp_all add: Let_def split: option.split)

lemma start_listening_db: "nd_db (snd (start_listening E N)) = nd_db N"
  using nd_db_listen_all [of E "cf_listen (nd_cfg N)" N]
  by (auto simp: start_listening_def Let_def split: sum.split option.split prod.split)

lemma toy_crl_mobile: "merge_crl toy_mobile (crl_empty (org_id toy_node_env [1])) toy_enrollment = (False, toy_enrollment)"
  by (simp add: merge_crl_def crl_empty_def)

lemma toy_enrolled:
  "en_org_id toy_enrollment = org_id toy_node_env [1]" "\<not> is_revoked (en_crl toy_enrollment) n"
  "en_crl toy_enrollment = crl_empty (org_id toy_node_env [1])"
  by (simp_all add: toy_enrollment_def is_revoked_def crl_empty_def binary_search_iff)

lemma client_start_boot:
  assumes "cl_node c = None" "stored_enrollment E (cl_db c) = Inr (Some en)"
    "mobile_node_config E (cl_config c) = Inr cfg"
    "spawn E cfg (cl_identity c) en (cl_db (snd (client_now E c))) (fst (client_now E c)) = Inr N"
  shows "client_start E c = (Inr (), boot E N (snd (client_now E c)))"
  using assms by (simp add: client_start_def failed_def Let_def split_beta)

lemma toy_reads: "reads (clock (cl_db toy_client)) = 0"
  by (simp add: toy_client_def toy_wall)

lemma toy_boot:
  "\<exists>N. client_start (toy_mobile_on lis toy_enrollment) toy_client =
       (Inr (), boot (toy_mobile_on lis toy_enrollment) N (snd (client_now (toy_mobile_on lis toy_enrollment) toy_client)))
     \<and> nd_enrollment N = toy_enrollment \<and> reads (clock (nd_db N)) = 1"
proof -
  let ?E = "toy_mobile_on lis toy_enrollment"
  let ?now = "client_now ?E toy_client"
  have c: "cl_node toy_client = None" "cl_identity toy_client = [2]" by (simp_all add: toy_client_def)
  obtain cfg where cfg: "mobile_node_config ?E (cl_config toy_client) = Inr cfg"
    by (simp add: mobile_node_config_def default_config_def toy_mobile_fields)
  have "validate ?E toy_enrollment [2] (fst ?now) = Inr ()"
    by (rule toy_valid) (simp add: toy_mobile_fields toy_reads)
  then obtain N where N: "spawn ?E cfg [2] toy_enrollment (cl_db (snd ?now)) (fst ?now) = Inr N"
    "nd_enrollment N = toy_enrollment" "nd_db N = cl_db (snd ?now)"
    using toy_mobile_swarm [of lis toy_enrollment "[2]" cfg] by (auto simp: spawn_ok)
  have "client_start ?E toy_client = (Inr (), boot ?E N (snd ?now))"
    by (rule client_start_boot [OF c(1) toy_stored cfg]) (simp only: c(2) N(1))
  moreover have "reads (clock (nd_db N)) = 1"
    by (simp add: N(3) client_now_def db_now_def now_ms_def Let_def toy_reads)
  ultimately show ?thesis using N(2) by blast
qed

lemma toy_start:
  "\<exists>N. cl_node (client_step toy_mobile Start toy_client) = Some (N, True) \<and> nd_enrollment N = toy_enrollment
    \<and> reads (clock (cl_db (client_step toy_mobile Start toy_client))) = 1"
proof -
  obtain N where N: "snd (client_start toy_mobile toy_client) = boot toy_mobile N (snd (client_now toy_mobile toy_client))"
    "nd_enrollment N = toy_enrollment" "reads (clock (nd_db N)) = 1"
    using toy_boot [of "\<lambda>a. None"] by auto
  obtain M where M: "start_listening toy_mobile N = (Inr (), M)"
    using start_listening_ok [of toy_mobile N] by (auto simp: toy_mobile_fields)
  have "nd_enrollment M = toy_enrollment" "nd_db M = nd_db N"
    using same_peers_start [of N toy_mobile] start_listening_db [of toy_mobile N] M N(2) by (simp_all add: same_peers_def)
  with M N show ?thesis by (simp add: boot_def)
qed

theorem session_admits_only_vouched_peers_witness:
  "\<exists>N i. cl_node (fold (client_step toy_mobile) [Start, Turn (hello_from 4 ReadOnly)] toy_client) = Some (N, True)
     \<and> tbl_get (authed N) (toy_public [4]) = Some i
     \<and> in_force toy_mobile (org_id toy_node_env [1]) (toy_public [4]) (crl_empty (org_id toy_node_env [1])) 1001
          (toy_cert 4 ReadOnly)
     \<and> ap_role i = claim_role (claims (toy_cert 4 ReadOnly))"
proof -
  obtain K where K: "cl_node (client_step toy_mobile Start toy_client) = Some (K, True)"
    "nd_enrollment K = toy_enrollment" "reads (clock (cl_db (client_step toy_mobile Start toy_client))) = 1"
    using toy_start by blast
  let ?c = "client_step toy_mobile Start toy_client"
  let ?K = "K\<lparr>nd_db := cl_db ?c\<rparr>" and ?h = "hello_from 4 ReadOnly"
  let ?N = "node_step toy_mobile ?h ?K"
  have run: "cl_node (fold (client_step toy_mobile) [Start, Turn ?h] toy_client) = Some (?N, True)"
    using K(1) by (simp add: turn_def Let_def hello_from_def)
  have "(1000 :: u64) + word_of_nat (reads (clock (cl_db ?c))) < 1000000"
    by (simp add: K(3) del: client_step.simps)
  from toy_mobile_cert [OF this, of "\<lambda>a. None" toy_enrollment 4 ReadOnly]
  have "cert_verify toy_mobile (toy_cert 4 ReadOnly) (en_org_id (nd_enrollment ?K)) (Some (toy_public [4]))
      (Some (en_crl (snd (merge_crl toy_mobile (crl_empty (org_id toy_node_env [1])) (nd_enrollment ?K)))))
      (wall toy_mobile (reads (clock (nd_db ?K)))) = Inr ()"
    by (simp add: K(2) toy_crl_mobile toy_enrolled(1,2) cert_verify_crl toy_mobile_fields)
  then have "is_authed ?N (toy_public [4])"
    using hello_decides [of toy_mobile "toy_public [4]" PROTOCOL_VERSION "toy_cert 4 ReadOnly"
        "crl_empty (org_id toy_node_env [1])" True ?K]
    by (simp add: hello_from_def PROTOCOL_VERSION_def Let_def del: node_step.simps client_step.simps)
  then obtain i where i: "tbl_get (authed ?N) (toy_public [4]) = Some i" by (auto simp: is_authed_def)
  have "cl_node toy_client = None" by (simp add: toy_client_def)
  from session_admits_only_vouched_peers [OF toy_mobile_laws this run i]
  obtain before x after M cert crl rep where g: "[Start, Turn ?h] = before @ Turn x # after"
    "cl_node (fold (client_step toy_mobile) before toy_client) = Some (M, True)" "greets (toy_public [4]) cert crl rep x"
    "in_force toy_mobile (en_org_id (nd_enrollment ?N)) (toy_public [4])
      (en_crl (snd (merge_crl toy_mobile crl (nd_enrollment M))))
      (wall toy_mobile (reads (clock (cl_db (fold (client_step toy_mobile) before toy_client))))) cert"
    "ap_role i = claim_role (claims cert)"
    by blast
  from g(1) have b: "before = [Start]" "x = ?h" by (auto simp: Cons_eq_append_conv)
  with g(3) have "cert = toy_cert 4 ReadOnly" "crl = crl_empty (org_id toy_node_env [1])"
    by (auto simp: greets_def hello_from_def)
  moreover have "nd_enrollment M = toy_enrollment" using g(2) K(1,2) b(1) by (simp del: client_step.simps)
  moreover have "en_org_id (nd_enrollment ?N) = org_id toy_node_env [1]"
    using member.step [of ?K toy_mobile ?h] K(2) by (simp add: same_member_def toy_enrolled(1) del: node_step.simps)
  ultimately have "in_force toy_mobile (org_id toy_node_env [1]) (toy_public [4]) (crl_empty (org_id toy_node_env [1])) 1001
      (toy_cert 4 ReadOnly)" "ap_role i = claim_role (claims (toy_cert 4 ReadOnly))"
    using g(4,5) K(3) b(1)
    by (simp_all add: toy_crl_mobile toy_enrolled(1,3) toy_mobile_fields del: client_step.simps)
  then show ?thesis using run i by (intro exI conjI)
qed

section \<open>Starting a node that cannot listen\<close>

text \<open>C23: When no address can be listened on, the node's task ends without ever turning its loop, yet
  \<open>start\<close> succeeds.  Once the task has ended (the model runs it up to there inside \<open>start\<close>; in the
  code it runs beside, so that a command sent before it ends is still put into the channel, and lost), the
  client says it is running, starting again does nothing, no input has any effect, and every command of
  the app, dialling and asking for the status included, fails and changes nothing.\<close>

theorem dead_node_looks_running:
  assumes "\<And>a. listen_error E a \<noteq> None" "cl_node c = None" "client_start E c = (Inr (), c')"
  shows "is_running c' \<and> client_start E c' = (Inr (), c') \<and> (\<forall>i. turn E i c' = c')
    \<and> (\<forall>cmd. with_handle E cmd c' = (Inl (Failed ''node is not running''), c'))
    \<and> sync_now E c' = (Inl (Failed ''node is not running''), c')
    \<and> status E n c' = (Inl (Failed ''node is not running''), c')
    \<and> (\<exists>e. mobile_dial E addr c' = (Inl (Failed e), c'))"
proof -
  obtain N cfg en d t where N: "spawn E cfg (cl_identity c) en d t = Inr N"
    "mobile_node_config E (cl_config c) = Inr cfg" and c': "c' = boot E N (snd (client_now E c))"
    using assms(2,3) by (auto simp: client_start_def failed_def Let_def split_beta split: sum.splits option.splits)
  have "nd_cfg N = cfg" using N(1) by (auto simp: spawn_ok)
  moreover obtain a as where "cf_listen cfg = a # as"
    using N(2) by (auto simp: mobile_node_config_def default_config_def split: sum.splits option.splits)
  moreover obtain m where "listen_error E a = Some m" using assms(1) by blast
  ultimately have "\<exists>e M. start_listening E N = (Inl e, M)" by (simp add: start_listening_def Let_def)
  then obtain M where "cl_node c' = Some (M, False)" by (auto simp: c' boot_def)
  then show ?thesis
    by (simp add: is_running_def client_start_def turn_def with_handle_def handle_send_def failed_def
        sync_now_def status_def mobile_dial_def split: option.split)
qed

theorem dead_node_looks_running_witness:
  "\<exists>c. client_start (toy_mobile_on (\<lambda>a. Some ''in use'') toy_enrollment) toy_client = (Inr (), c) \<and> is_running c
     \<and> status (toy_mobile_on (\<lambda>a. Some ''in use'') toy_enrollment) 0 c = (Inl (Failed ''node is not running''), c)
     \<and> with_handle (toy_mobile_on (\<lambda>a. Some ''in use'') toy_enrollment) LocalChanged c =
         (Inl (Failed ''node is not running''), c)"
proof -
  let ?E = "toy_mobile_on (\<lambda>a. Some ''in use'') toy_enrollment"
  obtain N where N: "client_start ?E toy_client = (Inr (), boot ?E N (snd (client_now ?E toy_client)))"
    using toy_boot by blast
  have "\<And>a. listen_error ?E a \<noteq> None" "cl_node toy_client = None" by (simp_all add: toy_mobile_fields toy_client_def)
  from dead_node_looks_running [OF this N, of 0] N show ?thesis by blast
qed

section \<open>Joining another organisation\<close>

lemma accept_peer_meta:
  "meta (nd_db (snd (accept_peer E p cert crl rep N))) =
     (if fst (merge_crl E crl (nd_enrollment N))
      then tbl_put META_KEY (enrollment_json E (snd (merge_crl E crl (nd_enrollment N)))) (meta (nd_db N))
      else meta (nd_db N))"
  by (simp add: accept_peer_def Let_def node_now_eq split_beta save_enrollment_def set_meta_def record_peer_def
      split: sum.split)

lemma hello_meta:
  "meta (nd_db (node_step E (Swarm (Request p (HelloReq PROTOCOL_VERSION cert crl rep))) N)) =
     meta (nd_db (snd (accept_peer E p cert crl rep N)))"
  by (auto simp: on_request_def refuse_def split: sum.split prod.split)

text \<open>C22: While the node runs it keeps the enrolment it was started with.  If the device joins again in
  the meantime, the new enrolment is stored and reported; the next revocation list the node adopts puts
  the old enrolment back in its place.\<close>

theorem running_node_undoes_enrolment:
  assumes "cl_node c = Some (N, True)" "complete_enrollment E raw c = (Inr txt, c1)"
    "merge_crl E crl (nd_enrollment N) = (True, en')" "enrollment_of_json E (enrollment_json E en') = Inr en'"
    "c2 = client_step E (Turn (Swarm (Request p (HelloReq PROTOCOL_VERSION cert crl rep)))) c1"
  shows "get_meta (cl_db c1) META_KEY = Some txt \<and> stored_enrollment E (cl_db c2) = Inr (Some en')
    \<and> en_org_id en' = en_org_id (nd_enrollment N) \<and> en_cert en' = en_cert (nd_enrollment N)"
proof -
  have c1: "cl_node c1 = Some (N, True)" "get_meta (cl_db c1) META_KEY = Some txt"
    using assms(1,2)
    by (auto simp: complete_enrollment_def failed_def save_enrollment_def set_meta_def get_meta_def tbl_get_put
        client_now_def db_now_def now_ms_def Let_def split: sum.splits)
  let ?K = "N\<lparr>nd_db := cl_db c1\<rparr>"
  have "cl_db c2 = nd_db (node_step E (Swarm (Request p (HelloReq PROTOCOL_VERSION cert crl rep))) ?K)"
    using c1(1) by (simp add: assms(5) turn_def Let_def del: node_step.simps)
  then have "get_meta (cl_db c2) META_KEY = Some (enrollment_json E en')"
    using hello_meta [of E p cert crl rep ?K] accept_peer_meta [of E p cert crl rep ?K] assms(3)
    by (simp add: get_meta_def tbl_get_put del: node_step.simps)
  then have "stored_enrollment E (cl_db c2) = Inr (Some en')"
    by (simp add: stored_enrollment_def load_enrollment_def assms(4))
  moreover have "en_org_id en' = en_org_id (nd_enrollment N)" "en_cert en' = en_cert (nd_enrollment N)"
    using merge_crl_simps [of E crl "nd_enrollment N"] assms(3) by simp_all
  ultimately show ?thesis using c1(2) by blast
qed

definition toy_renewed :: enrollment where
  "toy_renewed = toy_enrollment\<lparr>en_crl := revoking_list\<rparr>"

lemma toy_accepts:
  assumes "t < 1000000"
  shows "\<exists>en. accept (toy_mobile_on lis en0) toy_reply [2] t = Inr en"
  using assms
  by (simp add: accept_ok toy_reply_def decode_org_pub_def issue_cert_def Let_def org_id_def org_id_from_public_def
      crl_verify_def crl_empty_def cert_verify_ok cert_peer_id_def device_pub_to_peer_id_def ed25519_public_def
      toy_mobile_defs device_peer_id_def sat_add_def MAX_CLOCK_DRIFT_MS_def)

theorem running_node_undoes_enrolment_witness:
  "\<exists>c. snd (complete_enrollment (toy_mobile_on (\<lambda>a. None) toy_renewed) [] (toy_client\<lparr>cl_node := Some (toy_node, True)\<rparr>)) = c
     \<and> stored_enrollment (toy_mobile_on (\<lambda>a. None) toy_renewed)
         (cl_db (turn (toy_mobile_on (\<lambda>a. None) toy_renewed)
            (Swarm (Request [9] (HelloReq PROTOCOL_VERSION (toy_cert 9 Member) revoking_list True))) c)) = Inr (Some toy_renewed)"
proof -
  let ?E = "toy_mobile_on (\<lambda>a. None) toy_renewed" and ?c = "toy_client\<lparr>cl_node := Some (toy_node, True)\<rparr>"
  let ?i = "Swarm (Request [9] (HelloReq PROTOCOL_VERSION (toy_cert 9 Member) revoking_list True))"
  have "fst (client_now ?E ?c) < 1000000" by (simp add: toy_mobile_fields toy_reads)
  from toy_accepts [OF this] obtain en where "accept ?E toy_reply [2] (fst (client_now ?E ?c)) = Inr en" by blast
  then obtain c1 where c1: "complete_enrollment ?E [] ?c = (Inr [], c1)"
    by (simp add: complete_enrollment_def toy_mobile_fields failed_def Let_def split_beta toy_client_def)
  have "merge_crl ?E revoking_list (nd_enrollment toy_node) = (True, toy_renewed)"
    by (simp add: merge_crl_def crl_signing_bytes_def toy_renewed_def revoking_list_def sign_crl_def Let_def crl_verify_def toy_node_def
        toy_enrollment_def crl_empty_def toy_mobile_defs org_id_def org_id_from_public_def ed25519_public_def)
  from running_node_undoes_enrolment [OF _ c1 this, of "client_step ?E (Turn ?i) c1" "[9]" "toy_cert 9 Member" True]
  show ?thesis using c1 by (simp add: toy_mobile_fields)
qed

section \<open>Posting a message\<close>







section \<open>Watching messages in a terminal\<close>

text \<open>The rows a snapshot of the replica yields, the line of a row, and the marker after a list of rows.\<close>

definition new_rows :: "'a cli_env_scheme \<Rightarrow> db \<Rightarrow> sql_value list list" where
  "new_rows E d = (case db_query E new_sql [] d of Inl e \<Rightarrow> [] | Inr q \<Rightarrow> qr_rows q)"

definition row_ident :: "'a cli_env_scheme \<Rightarrow> sql_value list \<Rightarrow> string" where
  "row_ident E r = render E (r ! 0)"

definition message_line :: "'a cli_env_scheme \<Rightarrow> sql_value list \<Rightarrow> string" where
  "message_line E r = ''  '' @ format_message E (r ! 1) (r ! 2)"

definition marker :: "'a cli_env_scheme \<Rightarrow> sql_value list list \<Rightarrow> string option" where
  "marker E rs = (if rs = [] then None else Some (row_ident E (last rs)))"

text \<open>The calls a watching peer makes, one per snapshot, each with the marker the last one left.\<close>

fun print_calls :: "'a cli_env_scheme \<Rightarrow> string option \<Rightarrow> db list \<Rightarrow> string option \<times> string list" where
  "print_calls E seen [] = (seen, [])"
| "print_calls E seen (d # ds) =
     (let (seen, out) = print_new_messages E seen d; (seen, rest) = print_calls E seen ds in (seen, out @ rest))"

lemma print_rows_reached:
  "print_rows E after True latest rs = (if rs = [] then latest else marker E rs, List.map (message_line E) rs)"
  by (induction rs arbitrary: latest) (simp_all add: marker_def row_ident_def message_line_def Let_def)

lemma print_rows_seeking:
  "print_rows E (Some m) False latest rs =
     (case dropWhile (\<lambda>r. row_ident E r \<noteq> m) rs of
        [] \<Rightarrow> (latest, []) | r # ys \<Rightarrow> print_rows E (Some m) True latest ys)"
  by (induction rs) (simp_all add: row_ident_def Let_def)

text \<open>One call, in terms of the row it resumes after.\<close>

lemma print_new_eq:
  assumes "db_query E new_sql [] d = Inr q"
  shows "print_new_messages E None d = (marker E (new_rows E d), List.map (message_line E) (new_rows E d))"
    "print_new_messages E (Some m) d =
       (case dropWhile (\<lambda>r. row_ident E r \<noteq> m) (new_rows E d) of
          [] \<Rightarrow> (Some m, []) | r # ys \<Rightarrow> (if ys = [] then Some m else marker E ys, List.map (message_line E) ys))"
  using assms
  by (simp add: print_new_messages_def new_rows_def print_rows_reached marker_def)
    (cases "dropWhile (\<lambda>r. row_ident E r \<noteq> m) (qr_rows q)",
     simp_all add: assms print_new_messages_def new_rows_def print_rows_reached print_rows_seeking marker_def
       del: dropWhile_eq_Nil_conv)

lemma print_new_extends:
  assumes "db_query E new_sql [] d = Inr q" "new_rows E d = xs @ ys" "distinct (List.map (row_ident E) (xs @ ys))"
  shows "print_new_messages E (marker E xs) d = (marker E (xs @ ys), List.map (message_line E) ys)"
proof (cases xs rule: rev_cases)
  case Nil
  then show ?thesis using print_new_eq(1) [OF assms(1)] assms(2) by (simp add: marker_def)
next
  case (snoc zs z)
  have "row_ident E z \<notin> row_ident E ` set zs" using assms(3) snoc by simp
  then have "\<forall>x\<in>set zs. row_ident E x \<noteq> row_ident E z" by (metis imageI)
  then have "dropWhile (\<lambda>r. row_ident E r \<noteq> row_ident E z) (zs @ z # ys) = z # ys"
    by (subst dropWhile_append2) auto
  then show ?thesis
    using print_new_eq(2) [OF assms(1), of "row_ident E z"] assms(2) snoc by (simp add: marker_def)
qed

text \<open>C26: As long as messages only arrive at the end of the order, a watching peer prints every message
  that arrives exactly once, in order, and nothing else.\<close>

theorem watching_prints_each_message_once:
  assumes "sorted_wrt (\<lambda>a b. \<exists>ys. new_rows E b = new_rows E a @ ys) (d # ds)"
    "list_all (\<lambda>d. \<exists>q. db_query E new_sql [] d = Inr q) ds"
    "distinct (List.map (row_ident E) (new_rows E (last (d # ds))))"
  shows "print_calls E (marker E (new_rows E d)) ds =
    (marker E (new_rows E (last (d # ds))),
     List.map (message_line E) (drop (length (new_rows E d)) (new_rows E (last (d # ds)))))"
  using assms
proof (induction ds arbitrary: d)
  case (Cons d1 ds)
  let ?last = "new_rows E (last (d1 # ds))"
  obtain ys where ys: "new_rows E d1 = new_rows E d @ ys" using Cons.prems(1) by auto
  obtain zs where zs: "?last = new_rows E d1 @ zs"
  proof (cases "ds = []")
    case False
    then have "last ds \<in> set ds" by simp
    with Cons.prems(1) have "\<exists>zs. new_rows E (last ds) = new_rows E d1 @ zs" by auto
    with False that show ?thesis by auto
  qed (use that in simp)
  obtain q where q: "db_query E new_sql [] d1 = Inr q" using Cons.prems(2) by auto
  have "distinct (List.map (row_ident E) (new_rows E d @ ys))" using Cons.prems(3) zs ys by auto
  from print_new_extends [OF q ys this]
  have first: "print_new_messages E (marker E (new_rows E d)) d1 = (marker E (new_rows E d1), List.map (message_line E) ys)"
    by (simp add: ys)
  have "print_calls E (marker E (new_rows E d1)) ds = (marker E ?last, List.map (message_line E) (drop (length (new_rows E d1)) ?last))"
    using Cons.prems by (intro Cons.IH) auto
  then show ?case using first zs ys by simp
qed simp

text \<open>A replica seen through a query that lists \<open>k\<close> messages, \<open>k\<close> being the size of its metadata.\<close>

definition toy_cli :: cli_env where
  "toy_cli = client_env.extend (toy_client_env\<lparr>sql_rows :=
       (\<lambda>sql args d. Inr (take (length (meta d)) [[RefText (as_bytes ''a''), RefText (as_bytes ''A''), RefText (as_bytes ''x'')], [RefText (as_bytes ''b''), RefText (as_bytes ''B''), RefNull],
          [RefText (as_bytes ''c''), RefText (as_bytes ''C''), RefBlob [1, 2]]]))\<rparr>)
     \<lparr>http_post = (\<lambda>url rq. HttpBadBody), f64_display = (\<lambda>f. [])\<rparr>"

definition toy_snapshot :: "nat \<Rightarrow> db" where
  "toy_snapshot k = (small ''a'')\<lparr>meta := replicate k ([], [])\<rparr>"

lemma toy_snapshot_rows:
  "db_query toy_cli new_sql [] (toy_snapshot k) = Inr \<lparr>qr_columns = [], qr_rows = take k [[VText ''a'', VText ''A'', VText ''x''],
     [VText ''b'', VText ''B'', VNull], [VText ''c'', VText ''C'', VBlob [1, 2]]]\<rparr>"
  "new_rows toy_cli (toy_snapshot k) = take k [[VText ''a'', VText ''A'', VText ''x''],
     [VText ''b'', VText ''B'', VNull], [VText ''c'', VText ''C'', VBlob [1, 2]]]"
proof -
  have ascii: "utf8_lossy (as_bytes ''a'') = as_bytes ''a''" "utf8_lossy (as_bytes ''b'') = as_bytes ''b''"
    "utf8_lossy (as_bytes ''c'') = as_bytes ''c''" "utf8_lossy (as_bytes ''A'') = as_bytes ''A''"
    "utf8_lossy (as_bytes ''B'') = as_bytes ''B''" "utf8_lossy (as_bytes ''C'') = as_bytes ''C''"
    "utf8_lossy (as_bytes ''x'') = as_bytes ''x''"
    by code_simp+
  show "db_query toy_cli new_sql [] (toy_snapshot k) = Inr \<lparr>qr_columns = [], qr_rows = take k [[VText ''a'', VText ''A'', VText ''x''],
     [VText ''b'', VText ''B'', VNull], [VText ''c'', VText ''C'', VBlob [1, 2]]]\<rparr>"
    by (simp add: db_query_def toy_cli_def toy_snapshot_def toy_client_env_def client_env.defs
      node_env.defs toy_node_env_def env.defs toy_env_def crypto.defs toy_crypto_def take_map [symmetric] ascii)
  then show "new_rows toy_cli (toy_snapshot k) = take k [[VText ''a'', VText ''A'', VText ''x''],
     [VText ''b'', VText ''B'', VNull], [VText ''c'', VText ''C'', VBlob [1, 2]]]"
    by (simp add: new_rows_def)
qed

theorem watching_prints_each_message_once_witness:
  "snd (print_calls toy_cli (Some ''a'') [toy_snapshot 1, toy_snapshot 3]) = [''  <B> NULL'', ''  <C> <2 bytes>'']"
proof -
  have two: "show_nat (Suc (Suc 0)) = ''2''" by code_simp
  have "sorted_wrt (\<lambda>a b. \<exists>ys. new_rows toy_cli b = new_rows toy_cli a @ ys)
      (toy_snapshot 1 # [toy_snapshot 1, toy_snapshot 3])"
    "list_all (\<lambda>d. \<exists>q. db_query toy_cli new_sql [] d = Inr q) [toy_snapshot 1, toy_snapshot 3]"
    "distinct (List.map (row_ident toy_cli) (new_rows toy_cli (last (toy_snapshot 1 # [toy_snapshot 1, toy_snapshot 3]))))"
    by (simp_all add: toy_snapshot_rows row_ident_def)
  from watching_prints_each_message_once [OF this] show ?thesis
    by (simp add: toy_snapshot_rows marker_def row_ident_def message_line_def format_message_def two)
qed

text \<open>When the message the marker stands for is deleted, a watching peer falls silent: it prints none of
  the messages that arrive afterwards, whatever they are, until it is started again.\<close>

theorem deleted_marker_silences_the_watch:
  assumes "list_all (\<lambda>d. (\<exists>q. db_query E new_sql [] d = Inr q) \<and> m \<notin> row_ident E ` set (new_rows E d)) ds"
  shows "print_calls E (Some m) ds = (Some m, [])"
  using assms
proof (induction ds)
  case (Cons d ds)
  then obtain q where q: "db_query E new_sql [] d = Inr q" by auto
  have "dropWhile (\<lambda>r. row_ident E r \<noteq> m) (new_rows E d) = []" using Cons.prems by auto
  with print_new_eq(2) [OF q, of m] have "print_new_messages E (Some m) d = (Some m, [])" by simp
  with Cons show ?case by simp
qed simp

theorem deleted_marker_silences_the_watch_witness:
  "print_calls toy_cli (Some ''z'') [toy_snapshot 1, toy_snapshot 3] = (Some ''z'', [])"
  by (rule deleted_marker_silences_the_watch) (simp add: toy_snapshot_rows row_ident_def)

section \<open>The device's key\<close>

text \<open>The key drawn on the first run is the device's from then on, whatever another run would have drawn,
  and both clients read it alike.\<close>

theorem device_key_is_permanent:
  assumes "load_or_create_identity E fresh dir = (Inr sk, dir')" "device_from_secret E fresh = Inr fresh"
  shows "load_or_create_identity E other dir' = (Inr sk, dir') \<and> cli_identity E other dir' = (Inr sk, dir')"
  using assms
  by (auto simp: load_or_create_identity_def cli_identity_def failed_def lifted_def split: option.splits sum.splits)

theorem device_key_is_permanent_witness:
  "\<exists>dir. load_or_create_identity toy_crypto (replicate 32 7) \<lparr>dd_key = None, dd_replica = empty_file\<rparr> = (Inr (replicate 32 7), dir)
     \<and> cli_identity toy_crypto [] dir = (Inr (replicate 32 7), dir)"
proof -
  have "load_or_create_identity toy_crypto (replicate 32 7) \<lparr>dd_key = None, dd_replica = empty_file\<rparr> =
      (Inr (replicate 32 7), \<lparr>dd_key = Some (replicate 32 7), dd_replica = empty_file\<rparr>)"
    by (simp add: load_or_create_identity_def)
  moreover have "device_from_secret toy_crypto (replicate 32 7) = Inr (replicate 32 7)"
    by (simp add: device_from_secret_def toy_crypto_def)
  ultimately show ?thesis using device_key_is_permanent [of toy_crypto "replicate 32 7" _ "replicate 32 7"] by blast
qed

end
