(* ===== verification/Json.thy ===== *)
theory Json
  imports Mobile
begin

text \<open>
  The JSON of what is stored, sent and shown: what \<open>serde\<close> derives from the attributes of
  \<open>identity.rs\<close>, \<open>enroll.rs\<close> and \<open>net/node.rs\<close>.  A type has an encoder to the tree and, where the code
  reads it, a decoder; the text of a tree, the numbers and the wording of errors stay arguments.

  A decoder of a struct accepts the object form, whose keys may come in any order and beside others
  but not twice, and the array form, whose items are the fields in the order of the declaration.
\<close>

record 'n serde_env = "'n mobile_env" +
  serde_read :: "string \<Rightarrow> 'n json option"          \<comment> \<open>the text as a tree, repeated keys kept\<close>
  serde_error :: "string \<Rightarrow> string"                 \<comment> \<open>what \<open>from_str\<close> says of a text it refuses\<close>
  num_of_u64 :: "u64 \<Rightarrow> 'n"
  num_as_u64 :: "'n \<Rightarrow> u64 option"

text \<open>
  What \<open>serde_json\<close> documents of its texts: a tree that is not nested deeper than its recursion limit (128)
  and has no numbers but integers is read back from its text as it was.  The trees of this program are of
  this kind; nothing is said of floats or of deeper trees.
\<close>

fun plain :: "('n, 'a) serde_env_scheme \<Rightarrow> nat \<Rightarrow> 'n json \<Rightarrow> bool" where
  "plain E n JNull = True"
| "plain E n (JBool b) = True"
| "plain E n (JNum x) = (\<exists>u. x = num_of_u64 E u)"
| "plain E n (JStr s) = True"
| "plain E n (JArr vs) = (if n = 0 then False else list_all (plain E (n - 1)) vs)"
| "plain E n (JObj m) = (if n = 0 then False else list_all (\<lambda>e. plain E (n - 1) (snd e)) m)"

definition serde_laws :: "('n, 'a) serde_env_scheme \<Rightarrow> bool" where
  "serde_laws E \<longleftrightarrow> (\<forall>j. plain E 100 j \<longrightarrow> serde_read E (json_print E j) = Some j)
     \<and> (\<forall>n. num_as_u64 E (num_of_u64 E n) = Some n)"

section \<open>Reading\<close>

fun json_str :: "'n json \<Rightarrow> string option" where
  "json_str (JStr s) = Some s"
| "json_str v = None"

fun json_u64 :: "('n, 'a) serde_env_scheme \<Rightarrow> 'n json \<Rightarrow> u64 option" where
  "json_u64 E (JNum n) = num_as_u64 E n"
| "json_u64 E v = None"

fun json_seq :: "('n json \<Rightarrow> 'x option) \<Rightarrow> 'n json \<Rightarrow> 'x list option" where
  "json_seq dec (JArr vs) = those (List.map dec vs)"
| "json_seq dec v = None"

definition member :: "(string \<times> 'n json) list \<Rightarrow> string \<Rightarrow> 'n json option" where
  "member m name = (case List.filter (\<lambda>(k, v). k = name) m of [(k, v)] \<Rightarrow> Some v | _ \<Rightarrow> None)"

fun json_fields :: "string list \<Rightarrow> 'n json \<Rightarrow> 'n json list option" where
  "json_fields names (JObj m) = those (List.map (member m) names)"
| "json_fields names (JArr vs) = (if length vs = length names then Some vs else None)"
| "json_fields names v = None"

text \<open>\<open>hex_bytes\<close> and \<open>hex_bytes32\<close>.\<close>

definition hex_tree :: "'a crypto_scheme \<Rightarrow> bytes \<Rightarrow> 'n json" where
  "hex_tree C b = JStr (hex_encode C b)"

definition hex_of_tree :: "'a crypto_scheme \<Rightarrow> 'n json \<Rightarrow> bytes option" where
  "hex_of_tree C v = Option.bind (json_str v) (hex_decode C)"

definition hex32_of_tree :: "'a crypto_scheme \<Rightarrow> 'n json \<Rightarrow> bytes option" where
  "hex32_of_tree C v =
     Option.bind (hex_of_tree C v) (\<lambda>raw. if length raw = 32 then Some raw else None)"

section \<open>Identity\<close>

definition role_tree :: "role \<Rightarrow> 'n json" where
  "role_tree r = JStr (case r of Admin \<Rightarrow> ''admin'' | Member \<Rightarrow> ''member'' | ReadOnly \<Rightarrow> ''readonly'')"

text \<open>A variant without data is read from its name or from an object of that one name and \<open>null\<close>.\<close>

definition role_of_tree :: "'n json \<Rightarrow> role option" where
  "role_of_tree v =
     Option.bind (case v of JStr s \<Rightarrow> Some s | JObj [(s, JNull)] \<Rightarrow> Some s | _ \<Rightarrow> None)
       (\<lambda>s. if s = ''admin'' then Some Admin else if s = ''member'' then Some Member
            else if s = ''readonly'' then Some ReadOnly else None)"

definition claims_tree :: "('n, 'a) serde_env_scheme \<Rightarrow> cert_claims \<Rightarrow> 'n json" where
  "claims_tree E c = JObj
     [(''org_id'', JStr (claim_org_id c)), (''device_pub'', hex_tree E (device_pub c)),
      (''user_id'', JStr (user_id c)), (''display_name'', JStr (display_name c)),
      (''role'', role_tree (claim_role c)), (''issued_at_ms'', JNum (num_of_u64 E (issued_at_ms c))),
      (''expires_at_ms'', JNum (num_of_u64 E (expires_at_ms c))),
      (''serial'', JNum (num_of_u64 E (serial c)))]"

definition claims_of_tree :: "('n, 'a) serde_env_scheme \<Rightarrow> 'n json \<Rightarrow> cert_claims option" where
  "claims_of_tree E v =
     (case json_fields [''org_id'', ''device_pub'', ''user_id'', ''display_name'', ''role'', ''issued_at_ms'',
             ''expires_at_ms'', ''serial''] v of
        Some [org, pub, user, display, role, issued, expires, ser] \<Rightarrow>
          (case (json_str org, hex32_of_tree E pub, json_str user, json_str display, role_of_tree role,
                 json_u64 E issued, json_u64 E expires, json_u64 E ser) of
             (Some org, Some pub, Some user, Some display, Some role, Some issued, Some expires, Some ser) \<Rightarrow>
               Some \<lparr>claim_org_id = org, device_pub = pub, user_id = user, display_name = display,
                     claim_role = role, issued_at_ms = issued, expires_at_ms = expires, serial = ser\<rparr>
           | _ \<Rightarrow> None)
      | _ \<Rightarrow> None)"

definition cert_tree :: "('n, 'a) serde_env_scheme \<Rightarrow> device_cert \<Rightarrow> 'n json" where
  "cert_tree E cert = JObj
     [(''claims'', claims_tree E (claims cert)), (''org_pub'', hex_tree E (cert_org_pub cert)),
      (''signature'', hex_tree E (cert_signature cert))]"

definition cert_of_tree :: "('n, 'a) serde_env_scheme \<Rightarrow> 'n json \<Rightarrow> device_cert option" where
  "cert_of_tree E v =
     (case json_fields [''claims'', ''org_pub'', ''signature''] v of
        Some [c, pub, sig] \<Rightarrow>
          (case (claims_of_tree E c, hex32_of_tree E pub, hex_of_tree E sig) of
             (Some c, Some pub, Some sig) \<Rightarrow> Some \<lparr>claims = c, cert_org_pub = pub, cert_signature = sig\<rparr>
           | _ \<Rightarrow> None)
      | _ \<Rightarrow> None)"

definition crl_tree :: "('n, 'a) serde_env_scheme \<Rightarrow> revocation_list \<Rightarrow> 'n json" where
  "crl_tree E l = JObj
     [(''org_id'', JStr (crl_org_id l)), (''updated_at_ms'', JNum (num_of_u64 E (updated_at_ms l))),
      (''revoked'', JArr (List.map (\<lambda>s. JNum (num_of_u64 E s)) (revoked l))),
      (''org_pub'', hex_tree E (crl_org_pub l)), (''signature'', hex_tree E (crl_signature l))]"

definition crl_of_tree :: "('n, 'a) serde_env_scheme \<Rightarrow> 'n json \<Rightarrow> revocation_list option" where
  "crl_of_tree E v =
     (case json_fields [''org_id'', ''updated_at_ms'', ''revoked'', ''org_pub'', ''signature''] v of
        Some [org, at, gone, pub, sig] \<Rightarrow>
          (case (json_str org, json_u64 E at, json_seq (json_u64 E) gone, hex32_of_tree E pub, hex_of_tree E sig) of
             (Some org, Some at, Some gone, Some pub, Some sig) \<Rightarrow>
               Some \<lparr>crl_org_id = org, updated_at_ms = at, revoked = gone, crl_org_pub = pub, crl_signature = sig\<rparr>
           | _ \<Rightarrow> None)
      | _ \<Rightarrow> None)"

section \<open>Enrolment\<close>

definition request_tree :: "('n, 'a) serde_env_scheme \<Rightarrow> enroll_request \<Rightarrow> 'n json" where
  "request_tree E rq = JObj
     [(''invite_token'', JStr (rq_invite_token rq)), (''device_name'', JStr (rq_device_name rq)),
      (''platform'', JStr (rq_platform rq)), (''device_pub'', JStr (rq_device_pub rq)),
      (''at_ms'', JNum (num_of_u64 E (rq_at_ms rq))), (''proof'', JStr (rq_proof rq))]"

definition request_of_tree :: "('n, 'a) serde_env_scheme \<Rightarrow> 'n json \<Rightarrow> enroll_request option" where
  "request_of_tree E v =
     (case json_fields [''invite_token'', ''device_name'', ''platform'', ''device_pub'', ''at_ms'', ''proof''] v of
        Some [token, device, platform, pub, at, prf] \<Rightarrow>
          (case (json_str token, json_str device, json_str platform, json_str pub, json_u64 E at, json_str prf) of
             (Some token, Some device, Some platform, Some pub, Some at, Some prf) \<Rightarrow>
               Some \<lparr>rq_invite_token = token, rq_device_name = device, rq_platform = platform,
                     rq_device_pub = pub, rq_at_ms = at, rq_proof = prf\<rparr>
           | _ \<Rightarrow> None)
      | _ \<Rightarrow> None)"

definition strings_tree :: "string list \<Rightarrow> 'n json" where
  "strings_tree ss = JArr (List.map JStr ss)"

definition org_tree :: "org_info \<Rightarrow> 'n json" where
  "org_tree org = JObj
     [(''org_id'', JStr (oi_org_id org)), (''org_pub'', JStr (oi_org_pub org)), (''name'', JStr (oi_name org)),
      (''bootstrap'', strings_tree (oi_bootstrap org))]"

definition org_of_tree :: "'n json \<Rightarrow> org_info option" where
  "org_of_tree v =
     (case json_fields [''org_id'', ''org_pub'', ''name'', ''bootstrap''] v of
        Some [org, pub, name, addrs] \<Rightarrow>
          (case (json_str org, json_str pub, json_str name, json_seq json_str addrs) of
             (Some org, Some pub, Some name, Some addrs) \<Rightarrow>
               Some \<lparr>oi_org_id = org, oi_org_pub = pub, oi_name = name, oi_bootstrap = addrs\<rparr>
           | _ \<Rightarrow> None)
      | _ \<Rightarrow> None)"

definition response_tree :: "('n, 'a) serde_env_scheme \<Rightarrow> enroll_response \<Rightarrow> 'n json" where
  "response_tree E r = JObj
     [(''cert'', cert_tree E (rs_cert r)), (''crl'', crl_tree E (rs_crl r)), (''org'', org_tree (rs_org r))]"

definition response_of_tree :: "('n, 'a) serde_env_scheme \<Rightarrow> 'n json \<Rightarrow> enroll_response option" where
  "response_of_tree E v =
     (case json_fields [''cert'', ''crl'', ''org''] v of
        Some [cert, crl, org] \<Rightarrow>
          (case (cert_of_tree E cert, crl_of_tree E crl, org_of_tree org) of
             (Some cert, Some crl, Some org) \<Rightarrow> Some \<lparr>rs_cert = cert, rs_crl = crl, rs_org = org\<rparr>
           | _ \<Rightarrow> None)
      | _ \<Rightarrow> None)"

definition enrollment_tree :: "('n, 'a) serde_env_scheme \<Rightarrow> enrollment \<Rightarrow> 'n json" where
  "enrollment_tree E en = JObj
     [(''org_id'', JStr (en_org_id en)), (''org_name'', JStr (en_org_name en)),
      (''cert'', cert_tree E (en_cert en)), (''crl'', crl_tree E (en_crl en)),
      (''bootstrap'', strings_tree (en_bootstrap en))]"

definition enrollment_of_tree :: "('n, 'a) serde_env_scheme \<Rightarrow> 'n json \<Rightarrow> enrollment option" where
  "enrollment_of_tree E v =
     (case json_fields [''org_id'', ''org_name'', ''cert'', ''crl'', ''bootstrap''] v of
        Some [org, name, cert, crl, addrs] \<Rightarrow>
          (case (json_str org, json_str name, cert_of_tree E cert, crl_of_tree E crl, json_seq json_str addrs) of
             (Some org, Some name, Some cert, Some crl, Some addrs) \<Rightarrow>
               Some \<lparr>en_org_id = org, en_org_name = name, en_cert = cert, en_crl = crl, en_bootstrap = addrs\<rparr>
           | _ \<Rightarrow> None)
      | _ \<Rightarrow> None)"

section \<open>Events and status\<close>

text \<open>The name of the variant under \<open>type\<close>, its fields beside it; all names in camel case.\<close>

fun event_tree :: "('n, 'a) serde_env_scheme \<Rightarrow> node_event \<Rightarrow> 'n json" where
  "event_tree E (Started peer org) =
     JObj [(''type'', JStr ''started''), (''peerId'', JStr peer), (''orgId'', JStr org)]"
| "event_tree E (Listening addr) = JObj [(''type'', JStr ''listening''), (''addr'', JStr addr)]"
| "event_tree E (RelayReserved addr) = JObj [(''type'', JStr ''relayReserved''), (''addr'', JStr addr)]"
| "event_tree E (PeerConnected peer user display r) =
     JObj [(''type'', JStr ''peerConnected''), (''peer'', JStr peer), (''userId'', JStr user),
           (''displayName'', JStr display), (''role'', JStr r)]"
| "event_tree E (PeerDisconnected peer) = JObj [(''type'', JStr ''peerDisconnected''), (''peer'', JStr peer)]"
| "event_tree E (PeerRejected peer reason) =
     JObj [(''type'', JStr ''peerRejected''), (''peer'', JStr peer), (''reason'', JStr reason)]"
| "event_tree E (Synced peer n ts) =
     JObj [(''type'', JStr ''synced''), (''peer'', JStr peer), (''applied'', JNum (num_of_u64 E (ucast n))),
           (''tables'', strings_tree ts)]"
| "event_tree E (LocalChanges n) =
     JObj [(''type'', JStr ''localChanges''), (''count'', JNum (num_of_u64 E (ucast n)))]"
| "event_tree E Stopped = JObj [(''type'', JStr ''stopped'')]"
| "event_tree E (NodeError m) = JObj [(''type'', JStr ''error''), (''message'', JStr m)]"

definition summary_tree :: "('n, 'a) serde_env_scheme \<Rightarrow> peer_summary \<Rightarrow> 'n json" where
  "summary_tree E p = JObj
     [(''peerId'', JStr (ps_peer_id p)), (''userId'', JStr (ps_user_id p)),
      (''displayName'', JStr (ps_display_name p)), (''role'', JStr (ps_role p)),
      (''sinceMs'', JNum (num_of_u64 E (ps_since_ms p)))]"

definition status_tree :: "('n, 'a) serde_env_scheme \<Rightarrow> node_status \<Rightarrow> 'n json" where
  "status_tree E n = JObj
     [(''peerId'', JStr (nt_peer_id n)), (''orgId'', JStr (nt_org_id n)), (''orgName'', JStr (nt_org_name n)),
      (''displayName'', JStr (nt_display_name n)), (''listenAddrs'', strings_tree (nt_listen_addrs n)),
      (''externalAddrs'', strings_tree (nt_external_addrs n)),
      (''connections'', JNum (num_of_u64 E (ucast (nt_connections n)))),
      (''peers'', JArr (List.map (summary_tree E) (nt_peers n))),
      (''changes'', JNum (num_of_u64 E (word_of_nat (nt_changes n)))),
      (''knownDevices'', JNum (num_of_u64 E (word_of_nat (nt_known_devices n)))),
      (''certExpiresAtMs'', JNum (num_of_u64 E (nt_cert_expires_at_ms n)))]"

section \<open>The texts\<close>

definition from_json :: "('n, 'a) serde_env_scheme \<Rightarrow> ('n json \<Rightarrow> 'x option) \<Rightarrow> string \<Rightarrow> string + 'x" where
  "from_json E dec raw =
     (case Option.bind (serde_read E raw) dec of None \<Rightarrow> Inl (serde_error E raw) | Some x \<Rightarrow> Inr x)"

text \<open>The texts a client works with are those of the derived trees.\<close>

definition derives_json :: "('n, 'a) serde_env_scheme \<Rightarrow> bool" where
  "derives_json E \<longleftrightarrow>
     enrollment_json E = json_print E \<circ> enrollment_tree E
     \<and> enrollment_of_json E = (\<lambda>raw. case from_json E (enrollment_of_tree E) raw of
           Inl m \<Rightarrow> Inl (ECodec m) | Inr en \<Rightarrow> Inr en)
     \<and> cert_json E = json_print E \<circ> cert_tree E
     \<and> request_json E = json_print E \<circ> request_tree E
     \<and> response_of_json E = from_json E (response_of_tree E)
     \<and> event_json E = Some \<circ> json_print E \<circ> event_tree E
     \<and> status_json E = json_print E \<circ> status_tree E"

section \<open>Round trips\<close>

lemma those_Some [simp]: "those (List.map Some xs) = Some xs"
  by (induction xs) simp_all

lemma member_Nil [simp]: "member [] n = None"
  by (simp add: member_def)

lemma member_Cons [simp]:
  "member ((k, v) # m) n =
     (if k = n then (if n \<in> fst ` set m then None else Some v) else member m n)"
proof -
  have "List.filter (\<lambda>(k, v). k = n) m = [] \<longleftrightarrow> n \<notin> fst ` set m"
    by (force simp: filter_empty_conv)
  then show ?thesis by (cases "List.filter (\<lambda>(k, v). k = n) m") (auto simp: member_def)
qed

lemma hex_round_trip: "crypto_laws C \<Longrightarrow> hex_of_tree C (hex_tree C b) = Some b"
  by (simp add: hex_of_tree_def hex_tree_def crypto_laws_def)

lemma hex32_round_trip: "crypto_laws C \<Longrightarrow> length b = 32 \<Longrightarrow> hex32_of_tree C (hex_tree C b) = Some b"
  by (simp add: hex32_of_tree_def hex_round_trip)

lemma hex32_sized: "hex32_of_tree C v = Some b \<Longrightarrow> length b = 32"
  by (auto simp: hex32_of_tree_def split: Option.bind_splits if_splits)

lemma role_round_trip [simp]: "role_of_tree (role_tree r) = Some r"
  by (cases r) (simp_all add: role_of_tree_def role_tree_def)

lemma strings_round_trip [simp]: "json_seq json_str (strings_tree ss) = Some ss"
  by (simp add: strings_tree_def o_def)

lemma num_round_trip: "serde_laws E \<Longrightarrow> num_as_u64 E (num_of_u64 E n) = Some n"
  by (simp add: serde_laws_def)

text \<open>Keys are arrays of 32 bytes: what their types say of the values.\<close>

definition sized_cert :: "device_cert \<Rightarrow> bool" where
  "sized_cert cert \<longleftrightarrow> length (device_pub (claims cert)) = 32 \<and> length (cert_org_pub cert) = 32"

definition sized_crl :: "revocation_list \<Rightarrow> bool" where
  "sized_crl l \<longleftrightarrow> length (crl_org_pub l) = 32"

lemma claims_round_trip:
  "crypto_laws E \<Longrightarrow> serde_laws E \<Longrightarrow> length (device_pub c) = 32 \<Longrightarrow> claims_of_tree E (claims_tree E c) = Some c"
  by (simp add: claims_of_tree_def claims_tree_def hex32_round_trip num_round_trip)

lemma cert_round_trip:
  "crypto_laws E \<Longrightarrow> serde_laws E \<Longrightarrow> sized_cert c \<Longrightarrow> cert_of_tree E (cert_tree E c) = Some c"
  by (simp add: cert_of_tree_def cert_tree_def hex32_round_trip hex_round_trip claims_round_trip sized_cert_def)

lemma crl_round_trip:
  "crypto_laws E \<Longrightarrow> serde_laws E \<Longrightarrow> sized_crl l \<Longrightarrow> crl_of_tree E (crl_tree E l) = Some l"
  by (simp add: crl_of_tree_def crl_tree_def hex32_round_trip hex_round_trip num_round_trip
      sized_crl_def o_def)

lemma org_round_trip [simp]: "org_of_tree (org_tree org) = Some org"
  by (simp add: org_of_tree_def org_tree_def)

lemma request_round_trip: "serde_laws E \<Longrightarrow> request_of_tree E (request_tree E rq) = Some rq"
  by (simp add: request_of_tree_def request_tree_def num_round_trip)

lemma response_round_trip:
  "crypto_laws E \<Longrightarrow> serde_laws E \<Longrightarrow> sized_cert (rs_cert r) \<Longrightarrow> sized_crl (rs_crl r) \<Longrightarrow>
     response_of_tree E (response_tree E r) = Some r"
  by (simp add: response_of_tree_def response_tree_def cert_round_trip crl_round_trip)

lemma enrollment_round_trip:
  "crypto_laws E \<Longrightarrow> serde_laws E \<Longrightarrow> sized_cert (en_cert en) \<Longrightarrow> sized_crl (en_crl en) \<Longrightarrow>
     enrollment_of_tree E (enrollment_tree E en) = Some en"
  by (simp add: enrollment_of_tree_def enrollment_tree_def cert_round_trip crl_round_trip)

text \<open>What a decoder returns has keys of the right length.\<close>

lemma cert_of_tree_sized: "cert_of_tree E v = Some c \<Longrightarrow> sized_cert c"
  by (auto simp: cert_of_tree_def claims_of_tree_def sized_cert_def hex32_sized
      split: option.splits list.splits)

lemma crl_of_tree_sized: "crl_of_tree E v = Some l \<Longrightarrow> sized_crl l"
  by (auto simp: crl_of_tree_def sized_crl_def hex32_sized split: option.splits list.splits)

lemma response_of_tree_sized:
  "response_of_tree E v = Some r \<Longrightarrow> sized_cert (rs_cert r) \<and> sized_crl (rs_crl r)"
  by (auto simp: response_of_tree_def cert_of_tree_sized crl_of_tree_sized split: option.splits list.splits)

text \<open>The trees of the program are plain.\<close>

lemma plain_leaves [simp]:
  "plain E n (hex_tree C b)" "plain E n (role_tree r)" "0 < n \<Longrightarrow> plain E n (strings_tree ss)"
  by (simp_all add: hex_tree_def role_tree_def strings_tree_def list_all_iff)

lemma plain_claims [simp]: "0 < n \<Longrightarrow> plain E n (claims_tree E c)"
  by (auto simp: claims_tree_def)

lemma plain_cert [simp]: "1 < n \<Longrightarrow> plain E n (cert_tree E c)"
  by (simp add: cert_tree_def)

lemma plain_crl [simp]: "1 < n \<Longrightarrow> plain E n (crl_tree E l)"
  by (auto simp: crl_tree_def list_all_iff)

lemma plain_event: "plain E 100 (event_tree E ev)"
  by (cases ev) auto

lemma plain_status: "plain E 100 (status_tree E st)"
  by (auto simp: status_tree_def summary_tree_def list_all_iff)

lemma plain_trees:
  "plain E 100 (request_tree E rq)" "plain E 100 (response_tree E r)" "plain E 100 (enrollment_tree E en)"
  by (auto simp: request_tree_def response_tree_def enrollment_tree_def org_tree_def)

lemma from_json_print:
  "serde_laws E \<Longrightarrow> plain E 100 v \<Longrightarrow> dec v = Some x \<Longrightarrow> from_json E dec (json_print E v) = Inr x"
  by (simp add: from_json_def serde_laws_def)

text \<open>Two events have one text only if they are one event.\<close>

lemma num_of_u64_inj: "serde_laws E \<Longrightarrow> num_of_u64 E a = num_of_u64 E b \<longleftrightarrow> a = b"
  unfolding serde_laws_def by (metis option.inject)

lemma strings_tree_inj [simp]: "strings_tree a = strings_tree b \<longleftrightarrow> a = b"
  by (metis option.inject strings_round_trip)

lemma count_inj [simp]: "(ucast (a :: u32) :: u64) = ucast b \<longleftrightarrow> a = b"
proof -
  have "uint (ucast x :: u64) = uint x" for x :: u32 by (rule uint_up_ucast) (simp add: is_up)
  then show ?thesis by (metis word_uint_eqI)
qed

lemma event_tree_inj: "serde_laws E \<Longrightarrow> event_tree E a = event_tree E b \<longleftrightarrow> a = b"
  by (cases a; cases b) (simp_all add: num_of_u64_inj)

lemma event_text_inj:
  "serde_laws E \<Longrightarrow> json_print E (event_tree E a) = json_print E (event_tree E b) \<longleftrightarrow> a = b"
  using event_tree_inj [of E a b] plain_event [of E] unfolding serde_laws_def by (metis option.inject)

section \<open>What a tree depends on\<close>

text \<open>Of the environment, hexadecimal text, numbers and the reader: environments that agree on them have the
  same trees.\<close>

definition same_json :: "('n, 'a) serde_env_scheme \<Rightarrow> ('n, 'b) serde_env_scheme \<Rightarrow> bool" where
  "same_json E F \<longleftrightarrow> hex_encode E = hex_encode F \<and> hex_decode E = hex_decode F
     \<and> num_of_u64 E = num_of_u64 F \<and> num_as_u64 E = num_as_u64 F
     \<and> serde_read E = serde_read F \<and> serde_error E = serde_error F \<and> json_print E = json_print F"

lemma same_trees:
  assumes "same_json E F"
  shows "cert_tree E = cert_tree F" "crl_tree E = crl_tree F" "enrollment_tree E = enrollment_tree F"
    "request_tree E = request_tree F" "response_tree E = response_tree F" "status_tree E = status_tree F"
    "event_tree E = event_tree F"
proof -
  note same = assms [unfolded same_json_def]
  show cert: "cert_tree E = cert_tree F" and crl: "crl_tree E = crl_tree F" and "request_tree E = request_tree F"
    using same by (simp_all add: fun_eq_iff cert_tree_def crl_tree_def claims_tree_def hex_tree_def request_tree_def)
  show "enrollment_tree E = enrollment_tree F" "response_tree E = response_tree F"
    unfolding fun_eq_iff enrollment_tree_def response_tree_def cert crl by simp_all
  have "summary_tree E = summary_tree F" using same by (simp add: fun_eq_iff summary_tree_def)
  then show "status_tree E = status_tree F" using same by (simp add: fun_eq_iff status_tree_def)
  have "event_tree E ev = event_tree F ev" for ev using same by (cases ev) simp_all
  then show "event_tree E = event_tree F" by blast
qed

lemma same_decoders:
  assumes "same_json E F"
  shows "cert_of_tree E = cert_of_tree F" "crl_of_tree E = crl_of_tree F" "request_of_tree E = request_of_tree F"
    "enrollment_of_tree E = enrollment_of_tree F" "response_of_tree E = response_of_tree F"
    "from_json E dec = from_json F dec"
proof -
  note same = assms [unfolded same_json_def]
  have "json_u64 E v = json_u64 F v" for v using same by (cases v) simp_all
  then have num: "json_u64 E = json_u64 F" by blast
  have decode: "hex_decode E = hex_decode F" using same by simp
  have hex: "hex_of_tree E = hex_of_tree F" unfolding fun_eq_iff hex_of_tree_def decode by simp
  have hex32: "hex32_of_tree E = hex32_of_tree F" by (simp add: fun_eq_iff hex32_of_tree_def hex)
  show certs: "cert_of_tree E = cert_of_tree F" and crls: "crl_of_tree E = crl_of_tree F"
    and "request_of_tree E = request_of_tree F"
    unfolding fun_eq_iff cert_of_tree_def claims_of_tree_def crl_of_tree_def request_of_tree_def num hex hex32
    by simp_all
  show "enrollment_of_tree E = enrollment_of_tree F" "response_of_tree E = response_of_tree F"
    unfolding fun_eq_iff enrollment_of_tree_def response_of_tree_def certs crls by simp_all
  have reader: "serde_read E = serde_read F" "serde_error E = serde_error F" using same by simp_all
  show "from_json E dec = from_json F dec" unfolding fun_eq_iff from_json_def reader by simp
qed

text \<open>So whether the texts are derived is decided on any of them.\<close>

definition same_texts :: "('n, 'a) serde_env_scheme \<Rightarrow> ('n, 'b) serde_env_scheme \<Rightarrow> bool" where
  "same_texts E F \<longleftrightarrow> enrollment_json E = enrollment_json F \<and> enrollment_of_json E = enrollment_of_json F
     \<and> cert_json E = cert_json F \<and> request_json E = request_json F \<and> response_of_json E = response_of_json F
     \<and> event_json E = event_json F \<and> status_json E = status_json F"

lemma derives_json_agrees:
  assumes "same_json E F" "same_texts E F" "derives_json F"
  shows "derives_json E"
proof -
  have "json_print E = json_print F" using assms(1) by (simp add: same_json_def)
  then show ?thesis
    using assms(2,3)
    unfolding derives_json_def same_trees [OF assms(1)] same_decoders [OF assms(1)] same_texts_def by simp
qed

end
