(* ===== verification/JsonProperties.thy ===== *)
theory JsonProperties
  imports Json NodeSamples Clients
begin

text \<open>
  The texts that leave the program: what a device stores and reads back when it starts again, and what
  the server reads of a request.  \<open>toy_serde\<close> writes and reads trees as postfix programs; it is the
  instance on which the laws of the printer hold for every tree.
\<close>

section \<open>A printer and its reader\<close>

text \<open>
  A text is a program for a stack of frames.  A quoted character joins the buffer, a letter makes a value
  of the buffer, and a closing bracket makes one value of the frame it closes.
\<close>

definition quoted :: "string \<Rightarrow> string" where
  "quoted s = concat (List.map (\<lambda>c. [CHR 0x27, c]) s)"

fun toy_print :: "(i64 + u64) json \<Rightarrow> string" where
  "toy_print JNull = ''n''"
| "toy_print (JBool b) = (if b then ''t'' else ''f'')"
| "toy_print (JNum (Inl i)) = quoted (replicate (unat i) CHR ''x'') @ ''i''"
| "toy_print (JNum (Inr u)) = quoted (replicate (unat u) CHR ''x'') @ ''u''"
| "toy_print (JStr s) = quoted s @ ''s''"
| "toy_print (JArr vs) = ''['' @ concat (List.map toy_print vs) @ '']''"
| "toy_print (JObj m) = ''['' @ concat (List.map (\<lambda>(k, v). quoted k @ CHR ''s'' # toy_print v) m) @ ''}''"

fun in_pairs :: "'n json list \<Rightarrow> (string \<times> 'n json) list" where
  "in_pairs (v # JStr k # vs) = (k, v) # in_pairs vs"
| "in_pairs vs = []"

type_synonym reader = "bool \<times> string \<times> (i64 + u64) json list list"

fun push :: "(i64 + u64) json \<Rightarrow> (i64 + u64) json list list \<Rightarrow> reader" where
  "push v (fr # frs) = (False, [], (v # fr) # frs)"
| "push v [] = (False, [], [[v]])"

fun toy_char :: "char \<Rightarrow> reader \<Rightarrow> reader" where
  "toy_char c (True, buf, frs) = (False, c # buf, frs)"
| "toy_char c (False, buf, frs) =
     (if c = CHR 0x27 then (True, buf, frs)
      else if c = CHR ''n'' then push JNull frs
      else if c = CHR ''t'' then push (JBool True) frs
      else if c = CHR ''f'' then push (JBool False) frs
      else if c = CHR ''i'' then push (JNum (Inl (word_of_nat (length buf)))) frs
      else if c = CHR ''u'' then push (JNum (Inr (word_of_nat (length buf)))) frs
      else if c = CHR ''s'' then push (JStr (rev buf)) frs
      else if c = CHR ''['' then (False, [], [] # frs)
      else if c = CHR '']'' then push (JArr (rev (hd frs))) (tl frs)
      else push (JObj (rev (in_pairs (hd frs)))) (tl frs))"

definition toy_read :: "string \<Rightarrow> (i64 + u64) json option" where
  "toy_read s = (case fold toy_char s (False, [], [[]]) of (b, buf, [[v]]) \<Rightarrow> Some v | _ \<Rightarrow> None)"

lemma read_quoted [simp]: "fold toy_char (quoted s) (False, buf, frs) = (False, rev s @ buf, frs)"
  by (induction s arbitrary: buf) (simp_all add: quoted_def)

lemma in_pairs_rev: "in_pairs (fold (\<lambda>(k, v) fr. v # JStr k # fr) m fr) = rev m @ in_pairs fr"
  by (induction m arbitrary: fr) auto

text \<open>The program of a tree leaves the tree on the top frame.\<close>

definition yields :: "(i64 + u64) json \<Rightarrow> bool" where
  "yields v \<longleftrightarrow> (\<forall>fr frs. fold toy_char (toy_print v) (False, [], fr # frs) = (False, [], (v # fr) # frs))"

lemma read_items:
  "list_all yields vs \<Longrightarrow>
     fold toy_char (concat (List.map toy_print vs)) (False, [], fr # frs) = (False, [], (rev vs @ fr) # frs)"
  by (induction vs arbitrary: fr) (simp_all add: yields_def)

lemma read_members:
  "list_all (yields \<circ> snd) m \<Longrightarrow>
     fold toy_char (concat (List.map (\<lambda>(k, v). quoted k @ CHR ''s'' # toy_print v) m)) (False, [], fr # frs) =
       (False, [], fold (\<lambda>(k, v) fr. v # JStr k # fr) m fr # frs)"
  by (induction m arbitrary: fr) (auto simp: yields_def)

lemma read_print: "yields v"
proof (induction v)
  case (JNum x)
  then show ?case by (cases x) (simp_all add: yields_def)
next
  case (JArr vs)
  then have "list_all yields vs" by (simp add: list_all_iff)
  from read_items [OF this] show ?case by (simp add: yields_def)
next
  case (JObj m)
  then have "list_all (yields \<circ> snd) m" by (force simp: list_all_iff)
  from read_members [OF this] show ?case by (simp add: yields_def in_pairs_rev)
qed (simp_all add: yields_def)

lemma toy_read_print: "toy_read (toy_print v) = Some v"
  using read_print [of v] by (simp add: toy_read_def yields_def)

definition toy_trees :: "(i64 + u64) serde_env" where
  "toy_trees = mobile_env.extend (client_env.extend (node_env.extend toy_node_env
     \<lparr>sql_columns = (\<lambda>sql d. Inr []), sql_rows = (\<lambda>sql args d. Inr []), sql_writes = (\<lambda>sql args d. Inr []),
      enrollment_of_json = (\<lambda>s. Inl ENotEnrolled)\<rparr>)
     \<lparr>json_parse = (\<lambda>s. case toy_read s of None \<Rightarrow> Inl [] | Some v \<Rightarrow> Inr v), json_print = toy_print,
      num_as_i64 = (\<lambda>n. case n of Inl i \<Rightarrow> Some i | Inr f \<Rightarrow> None),
      num_as_f64 = (\<lambda>n. case n of Inl i \<Rightarrow> None | Inr f \<Rightarrow> Some f),
      num_of_i64 = Inl, num_of_f64 = (\<lambda>f. if f = - 1 then None else Some (Inr f)),
      request_json = (\<lambda>r. []), response_of_json = (\<lambda>s. Inl []), event_json = (\<lambda>e. None),
      status_json = (\<lambda>s. []), addr_error = (\<lambda>s. [])\<rparr>)
     \<lparr>serde_read = toy_read, serde_error = (\<lambda>s. ''json''), num_of_u64 = Inl,
      num_as_u64 = (\<lambda>n. case n of Inl i \<Rightarrow> Some i | Inr f \<Rightarrow> None)\<rparr>"

definition toy_serde :: "(i64 + u64) serde_env" where
  "toy_serde = toy_trees
     \<lparr>enrollment_json := toy_print \<circ> enrollment_tree toy_trees,
      enrollment_of_json := (\<lambda>raw. case from_json toy_trees (enrollment_of_tree toy_trees) raw of
        Inl m \<Rightarrow> Inl (ECodec m) | Inr en \<Rightarrow> Inr en),
      cert_json := toy_print \<circ> cert_tree toy_trees, request_json := toy_print \<circ> request_tree toy_trees,
      response_of_json := from_json toy_trees (response_of_tree toy_trees),
      event_json := Some \<circ> toy_print \<circ> event_tree toy_trees,
      status_json := toy_print \<circ> status_tree toy_trees\<rparr>"

lemmas toy_serde_defs =
  toy_serde_def toy_trees_def mobile_env.defs client_env.defs node_env.defs toy_node_env_def env.defs toy_env_def
  crypto.defs toy_crypto_def

lemma toy_serde_laws: "crypto_laws toy_serde" "serde_laws toy_serde"
  by (simp_all add: crypto_laws_def serde_laws_def toy_read_print toy_serde_defs)

lemma toy_same: "same_json toy_serde toy_trees"
  by (simp add: same_json_def toy_serde_def)

lemma toy_texts:
  "json_print toy_serde = toy_print" "enrollment_json toy_serde = toy_print \<circ> enrollment_tree toy_trees"
  "cert_json toy_serde = toy_print \<circ> cert_tree toy_trees"
  "request_json toy_serde = toy_print \<circ> request_tree toy_trees"
  "response_of_json toy_serde = from_json toy_trees (response_of_tree toy_trees)"
  "event_json toy_serde = Some \<circ> toy_print \<circ> event_tree toy_trees"
  "status_json toy_serde = toy_print \<circ> status_tree toy_trees"
  "enrollment_of_json toy_serde = (\<lambda>raw. case from_json toy_trees (enrollment_of_tree toy_trees) raw of
     Inl m \<Rightarrow> Inl (ECodec m) | Inr en \<Rightarrow> Inr en)"
  by (simp_all add: toy_serde_def) (simp add: toy_serde_defs)

lemma toy_derives: "derives_json toy_serde"
  unfolding derives_json_def same_trees [OF toy_same] same_decoders [OF toy_same] toy_texts by simp

section \<open>An enrolment and a restart\<close>

text \<open>What a device stored is what it finds when it opens its directory again.\<close>

lemma stored_reads_back:
  assumes "crypto_laws E" "serde_laws E" "derives_json E" "sized_cert (en_cert en)" "sized_crl (en_crl en)"
    "get_meta d META_KEY = Some (enrollment_json E en)"
  shows "stored_enrollment E d = Inr (Some en)"
proof -
  have "from_json E (enrollment_of_tree E) (json_print E (enrollment_tree E en)) = Inr en"
    using from_json_print [OF assms(2) plain_trees(3), of "enrollment_of_tree E"] enrollment_round_trip [OF assms(1,2,4,5)] by simp
  then show ?thesis using assms(3,6) by (simp add: stored_enrollment_def load_enrollment_def derives_json_def)
qed

lemma accepted_sized:
  "accept C resp sk now = Inr en \<Longrightarrow> sized_cert (rs_cert resp) \<and> sized_crl (rs_crl resp) \<Longrightarrow>
     sized_cert (en_cert en) \<and> sized_crl (en_crl en)"
  by (auto simp: accept_ok)

lemma new_client_meta:
  assumes "new_client E cfg fresh dir = (Inr c, dir')"
  shows "meta (cl_db c) = meta (dd_replica dir)"
  using assms
  by (auto simp: new_client_def failed_def open_authenticated_def opened_def load_or_create_identity_def
      split: prod.splits sum.splits option.splits dest!: from_connection_opened)

text \<open>C32: An enrolment survives a restart: the reply of the server, read from its text, checked and stored, is what
  the device finds when it is started again on its directory, certificate, revocation list, organisation
  and addresses, each byte of them.\<close>

theorem enrolment_survives_a_restart:
  assumes "crypto_laws E" "serde_laws E" "derives_json E"
    "complete_enrollment E raw c = (Inr txt, c')"
    "new_client E cfg fresh \<lparr>dd_key = Some key, dd_replica = replica_file.truncate (cl_db c')\<rparr> = (Inr c2, dir)"
  shows "\<exists>resp en. from_json E (response_of_tree E) raw = Inr resp
    \<and> accept E resp (cl_identity c) (fst (client_now E c)) = Inr en
    \<and> stored_enrollment E (cl_db c2) = Inr (Some en) \<and> is_enrolled E c2"
proof -
  obtain resp en where resp: "response_of_json E raw = Inr resp"
    and en: "accept E resp (cl_identity c) (fst (client_now E c)) = Inr en"
    and c': "cl_db c' = save_enrollment (enrollment_json E) en (cl_db (snd (client_now E c)))"
    using assms(4) by (auto simp: complete_enrollment_def failed_def split_beta split: sum.splits)
  have read: "from_json E (response_of_tree E) raw = Inr resp"
    using resp assms(3) by (simp add: derives_json_def)
  then have "sized_cert (rs_cert resp) \<and> sized_crl (rs_crl resp)"
    using response_of_tree_sized by (auto simp: from_json_def split: option.splits Option.bind_splits)
  with en have sized: "sized_cert (en_cert en)" "sized_crl (en_crl en)" using accepted_sized by blast+
  have "get_meta (cl_db c2) META_KEY = Some (enrollment_json E en)"
    using new_client_meta [OF assms(5)] c'
    by (simp add: save_enrollment_def set_meta_def get_meta_def replica_file.defs tbl_get_put)
  from stored_reads_back [OF assms(1-3) sized this] read en show ?thesis by (auto simp: is_enrolled_def)
qed

definition joining :: client where
  "joining = \<lparr>cl_identity = toy_public [2], cl_config = \<lparr>mb_data_dir = [], mb_enable_mdns = True, mb_enable_relay = True\<rparr>,
     cl_db = small [], cl_node = None, cl_listening = False, cl_events = []\<rparr>"

definition joining_reply :: enroll_response where
  "joining_reply = \<lparr>rs_cert = toy_cert 2 Member, rs_crl = crl_empty (org_id toy_node_env [1]),
     rs_org = \<lparr>oi_org_id = org_id toy_node_env [1], oi_org_pub = bytes_str (toy_public [1]), oi_name = ''org'',
       oi_bootstrap = [''/ip4/10.0.0.1/tcp/1'']\<rparr>\<rparr>"

lemma joining_accepts:
  "t < 1000000 \<Longrightarrow> \<exists>en. accept toy_serde joining_reply (toy_public [2]) t = Inr en"
  by (simp add: accept_ok joining_reply_def toy_cert_def decode_org_pub_def issue_cert_def Let_def org_id_def
      org_id_from_public_def crl_verify_def crl_empty_def cert_verify_ok cert_peer_id_def device_pub_to_peer_id_def
      ed25519_public_def toy_serde_defs device_peer_id_def sat_add_def MAX_CLOCK_DRIFT_MS_def toy_public_def)

lemma joining_reads: "from_json toy_serde (response_of_tree toy_serde) (toy_print (response_tree toy_serde joining_reply)) = Inr joining_reply"
proof -
  have "sized_cert (rs_cert joining_reply)" "sized_crl (rs_crl joining_reply)"
    by (simp_all add: sized_cert_def sized_crl_def joining_reply_def toy_cert_def issue_cert_def Let_def crl_empty_def
        toy_node_env_def env.defs toy_env_def crypto.defs toy_crypto_def)
  from response_round_trip [OF toy_serde_laws this] show ?thesis
    using from_json_print [OF toy_serde_laws(2) plain_trees(2)] by (metis toy_texts(1))
qed

lemma toy_reopens: "ok_result (from_connection toy_env ((replica_file.truncate (small dev))\<lparr>meta := m\<rparr>) dev')"
  by code_simp

theorem enrolment_survives_a_restart_witness:
  "\<exists>txt c' c2 dir. complete_enrollment toy_serde (toy_print (response_tree toy_serde joining_reply)) joining = (Inr txt, c')
     \<and> new_client toy_serde (cl_config joining) [] \<lparr>dd_key = Some (toy_public [2]),
         dd_replica = replica_file.truncate (cl_db c')\<rparr> = (Inr c2, dir) \<and> is_enrolled toy_serde c2"
proof -
  let ?raw = "toy_print (response_tree toy_serde joining_reply)" and ?c = "snd (client_now toy_serde joining)"
  have "fst (client_now toy_serde joining) < 1000000"
    by (simp add: joining_def toy_serde_defs small_def replica_file.defs new_clock_def)
  from joining_accepts [OF this] obtain en
    where en: "accept toy_serde joining_reply (cl_identity ?c) (fst (client_now toy_serde joining)) = Inr en"
    by (auto simp: joining_def)
  define c' where "c' = ?c\<lparr>cl_db := save_enrollment (enrollment_json toy_serde) en (cl_db ?c)\<rparr>"
  have "response_of_json toy_serde ?raw = Inr joining_reply"
    using toy_derives joining_reads by (simp add: derives_json_def)
  then have c': "complete_enrollment toy_serde ?raw joining = (Inr (enrollment_json toy_serde en), c')"
    using en by (simp add: complete_enrollment_def failed_def split_beta c'_def del: client_now_fields)
  have "replica_file.truncate (cl_db c') = (replica_file.truncate (small []))\<lparr>meta := meta (cl_db c')\<rparr>"
    by (simp add: c'_def save_enrollment_def set_meta_def client_now_def db_now_def now_ms_def Let_def joining_def
        replica_file.defs)
  moreover have "same_names toy_serde toy_env" by (simp add: same_names_def toy_serde_defs)
  ultimately have "ok_result (from_connection toy_serde (replica_file.truncate (cl_db c')) dev)" for dev
    using toy_reopens by (metis from_connection_agrees)
  then obtain f where "from_connection toy_serde (replica_file.truncate (cl_db c'))
      (peer_text toy_serde (device_peer_id toy_serde (toy_public [2]))) = Inr f"
    using the_db_ok by blast
  then obtain d where "open_authenticated toy_serde (replica_file.truncate (cl_db c')) (toy_public [2]) = Inr d"
    by (simp add: open_authenticated_def)
  moreover have "device_from_secret toy_serde (toy_public [2]) = Inr (toy_public [2])"
    by (simp add: device_from_secret_def toy_serde_defs)
  ultimately obtain c2 dir where c2: "new_client toy_serde (cl_config joining) [] \<lparr>dd_key = Some (toy_public [2]),
      dd_replica = replica_file.truncate (cl_db c')\<rparr> = (Inr c2, dir)"
    by (simp add: new_client_def load_or_create_identity_def failed_def)
  from enrolment_survives_a_restart [OF toy_serde_laws toy_derives c' this] c' this show ?thesis by blast
qed

end
