(* ===== verification/Pump.thy ===== *)
theory Pump
  imports Node
begin

text \<open>
  The channel between a node and the tasks that follow its events: \<open>broadcast::channel(256)\<close> of
  \<open>net/node.rs\<close> and the loop \<open>while let Ok(ev) = events.recv().await\<close> that the phone
  (\<open>p2p-mobile/src/lib.rs\<close>) and the seed server (\<open>seed-server/src/main.rs\<close>) run on it, each with a body
  of its own.

  A receiver is the number of the event it takes next.  What receiving yields is tokio's and an argument;
  \<open>channel_law\<close> is what tokio documents of it: a receiver more than the capacity behind gets an error.
  The sender and the task take turns in any order, so a schedule is a list of inputs.
\<close>

datatype received = Got node_event | Pending | RecvError

type_synonym receiver = "bool \<Rightarrow> node_event list \<Rightarrow> nat \<Rightarrow> received"   \<comment> \<open>closed, sent, next\<close>

definition EVENT_CAPACITY :: nat where "EVENT_CAPACITY = 256"

definition channel_law :: "receiver \<Rightarrow> bool" where
  "channel_law recv \<longleftrightarrow> (\<forall>closed sent next. next \<le> length sent \<longrightarrow>
     recv closed sent next =
       (if EVENT_CAPACITY < length sent - next then RecvError
        else if next < length sent then Got (sent ! next)
        else if closed then RecvError else Pending))"

record 's pump_task =
  pm_sent :: "node_event list"
  pm_closed :: bool
  pm_next :: nat
  pm_live :: bool
  pm_state :: 's

datatype pump_input = Sent node_event | Closed | Poll

text \<open>Subscribing: what was sent before is not received.\<close>

definition subscribe :: "node_event list \<Rightarrow> 's \<Rightarrow> 's pump_task" where
  "subscribe past s = \<lparr>pm_sent = past, pm_closed = False, pm_next = length past, pm_live = True, pm_state = s\<rparr>"

definition pump_poll :: "receiver \<Rightarrow> (node_event \<Rightarrow> 's \<Rightarrow> 's) \<Rightarrow> 's pump_task \<Rightarrow> 's pump_task" where
  "pump_poll recv body P =
     (if \<not> pm_live P then P
      else (case recv (pm_closed P) (pm_sent P) (pm_next P) of
              Got ev \<Rightarrow> P\<lparr>pm_next := pm_next P + 1, pm_state := body ev (pm_state P)\<rparr>
            | Pending \<Rightarrow> P
            | RecvError \<Rightarrow> P\<lparr>pm_live := False\<rparr>))"

fun pump_step :: "receiver \<Rightarrow> (node_event \<Rightarrow> 's \<Rightarrow> 's) \<Rightarrow> pump_input \<Rightarrow> 's pump_task \<Rightarrow> 's pump_task" where
  "pump_step recv body (Sent ev) P = (if pm_closed P then P else P\<lparr>pm_sent := pm_sent P @ [ev]\<rparr>)"
| "pump_step recv body Closed P = P\<lparr>pm_closed := True\<rparr>"
| "pump_step recv body Poll P = pump_poll recv body P"

definition backlog :: "'s pump_task \<Rightarrow> nat" where
  "backlog P = length (pm_sent P) - pm_next P"

text \<open>A schedule under which the task is never further behind than the channel holds.\<close>

fun prompt :: "receiver \<Rightarrow> (node_event \<Rightarrow> 's \<Rightarrow> 's) \<Rightarrow> pump_input list \<Rightarrow> 's pump_task \<Rightarrow> bool" where
  "prompt recv body [] P \<longleftrightarrow> backlog P \<le> EVENT_CAPACITY"
| "prompt recv body (i # is) P \<longleftrightarrow>
     backlog P \<le> EVENT_CAPACITY \<and> prompt recv body is (pump_step recv body i P)"

section \<open>What the task has handled\<close>

text \<open>The task stands at an event it has reached by handling every one before it.\<close>

definition caught_up :: "(node_event \<Rightarrow> 's \<Rightarrow> 's) \<Rightarrow> node_event list \<Rightarrow> 's \<Rightarrow> 's pump_task \<Rightarrow> bool" where
  "caught_up body past s P \<longleftrightarrow> length past \<le> pm_next P \<and> pm_next P \<le> length (pm_sent P)
     \<and> take (length past) (pm_sent P) = past
     \<and> pm_state P = fold body (drop (length past) (take (pm_next P) (pm_sent P))) s"

lemma caught_up_subscribe: "caught_up body past s (subscribe past s)"
  by (simp add: caught_up_def subscribe_def)

lemma caught_up_step:
  assumes "channel_law recv" "caught_up body past s P"
  shows "caught_up body past s (pump_step recv body i P)"
proof (cases i)
  case (Sent ev)
  then show ?thesis using assms(2) by (simp add: caught_up_def)
next
  case Closed
  then show ?thesis using assms(2) by (simp add: caught_up_def)
next
  case Poll
  have "recv (pm_closed P) (pm_sent P) (pm_next P) =
       (if EVENT_CAPACITY < length (pm_sent P) - pm_next P then RecvError
        else if pm_next P < length (pm_sent P) then Got (pm_sent P ! pm_next P)
        else if pm_closed P then RecvError else Pending)"
    using assms by (simp add: channel_law_def caught_up_def)
  then show ?thesis
    using assms(2) Poll by (auto simp: pump_poll_def caught_up_def take_Suc_conv_app_nth)
qed

lemma caught_up_run:
  "channel_law recv \<Longrightarrow> caught_up body past s P \<Longrightarrow> caught_up body past s (fold (pump_step recv body) is P)"
  by (induction "is" arbitrary: P) (simp_all add: caught_up_step)

text \<open>A task that is never too far behind goes on, unless the channel is closed and empty.\<close>

definition going :: "'s pump_task \<Rightarrow> bool" where
  "going P \<longleftrightarrow> pm_next P \<le> length (pm_sent P)
     \<and> (pm_live P \<or> pm_closed P \<and> pm_next P = length (pm_sent P))"

lemma going_step:
  assumes "channel_law recv" "going P" "backlog P \<le> EVENT_CAPACITY"
  shows "going (pump_step recv body i P)"
proof (cases i)
  case Poll
  have "recv (pm_closed P) (pm_sent P) (pm_next P) =
       (if pm_next P < length (pm_sent P) then Got (pm_sent P ! pm_next P)
        else if pm_closed P then RecvError else Pending)"
    using assms by (simp add: channel_law_def going_def backlog_def)
  then show ?thesis using assms(2) Poll by (auto simp: pump_poll_def going_def)
qed (use assms(2) in \<open>auto simp: going_def\<close>)

lemma going_run:
  "channel_law recv \<Longrightarrow> going P \<Longrightarrow> prompt recv body is P \<Longrightarrow>
     going (fold (pump_step recv body) is P) \<and> backlog (fold (pump_step recv body) is P) \<le> EVENT_CAPACITY"
  by (induction "is" arbitrary: P) (simp_all add: going_step)

lemma going_poll:
  assumes "channel_law recv" "going P" "0 < backlog P" "backlog P \<le> EVENT_CAPACITY"
  shows "backlog P = Suc (backlog (pump_poll recv body P))" "going (pump_poll recv body P)"
    "pm_sent (pump_poll recv body P) = pm_sent P"
proof -
  have "recv (pm_closed P) (pm_sent P) (pm_next P) = Got (pm_sent P ! pm_next P)" "pm_live P"
    using assms by (auto simp: channel_law_def going_def backlog_def)
  then show "backlog P = Suc (backlog (pump_poll recv body P))" "going (pump_poll recv body P)"
    "pm_sent (pump_poll recv body P) = pm_sent P"
    using assms(2,3) by (auto simp: pump_poll_def backlog_def going_def)
qed

text \<open>Polled as often as it is behind, the task is at the end.\<close>

lemma polls_catch_up:
  assumes "channel_law recv" "going P" "backlog P \<le> EVENT_CAPACITY"
  shows "pm_next (fold (pump_step recv body) (replicate (backlog P) Poll) P) = length (pm_sent P)
    \<and> pm_sent (fold (pump_step recv body) (replicate (backlog P) Poll) P) = pm_sent P"
  using assms
proof (induction "backlog P" arbitrary: P)
  case 0
  then show ?case by (auto simp: backlog_def going_def)
next
  case (Suc n)
  let ?Q = "pump_poll recv body P"
  have "0 < backlog P" using Suc.hyps(2) by simp
  from going_poll [OF Suc.prems(1,2) this Suc.prems(3), of body]
  have q: "backlog P = Suc (backlog ?Q)" "going ?Q" "pm_sent ?Q = pm_sent P" by blast+
  moreover have "n = backlog ?Q" "backlog ?Q \<le> EVENT_CAPACITY" using q(1) Suc.hyps(2) Suc.prems(3) by simp_all
  ultimately show ?case using Suc.hyps(1) [of ?Q] Suc.prems(1) by simp
qed

text \<open>The events a schedule sends; a closed channel takes no more.\<close>

fun accepted :: "pump_input list \<Rightarrow> node_event list" where
  "accepted [] = []"
| "accepted (Sent ev # is) = ev # accepted is"
| "accepted (Closed # is) = []"
| "accepted (Poll # is) = accepted is"

lemma pump_poll_sent [simp]:
  "pm_sent (pump_poll recv body P) = pm_sent P" "pm_closed (pump_poll recv body P) = pm_closed P"
  by (simp_all add: pump_poll_def split: received.split)

lemma sent_run:
  "pm_sent (fold (pump_step recv body) is P) = pm_sent P @ (if pm_closed P then [] else accepted is)"
proof (induction "is" arbitrary: P)
  case (Cons i "is")
  then show ?case by (cases i) simp_all
qed simp

lemma polled_to_the_end:
  assumes "channel_law recv" "prompt recv body is (subscribe past s)"
  shows "\<exists>k. pm_state (fold (pump_step recv body) (is @ replicate k Poll) (subscribe past s)) = fold body (accepted is) s"
proof -
  let ?P = "fold (pump_step recv body) is (subscribe past s)"
  let ?Q = "fold (pump_step recv body) (replicate (backlog ?P) Poll) ?P"
  have "going (subscribe past s)" by (simp add: going_def subscribe_def)
  with going_run assms have "going ?P" "backlog ?P \<le> EVENT_CAPACITY" by blast+
  with polls_catch_up assms(1) have end_: "pm_next ?Q = length (pm_sent ?P)" "pm_sent ?Q = pm_sent ?P" by blast+
  moreover have "caught_up body past s ?Q" by (intro caught_up_run assms(1) caught_up_subscribe)
  moreover have "pm_sent ?P = past @ accepted is" by (simp add: sent_run subscribe_def)
  ultimately have "pm_state ?Q = fold body (accepted is) s" by (simp add: caught_up_def)
  then show ?thesis by (intro exI [of _ "backlog ?P"]) simp
qed

section \<open>A task that fell behind\<close>

lemma ended_stays: "\<not> pm_live P \<Longrightarrow> pm_state (fold (pump_step recv body) is P) = pm_state P"
proof (induction "is" arbitrary: P)
  case (Cons i "is")
  then show ?case by (cases i) (simp_all add: pump_poll_def)
qed simp

lemma lagging_ends:
  assumes "channel_law recv" "pm_next P \<le> length (pm_sent P)" "EVENT_CAPACITY < backlog P"
  shows "pm_state (fold (pump_step recv body) (Poll # is) P) = pm_state P"
proof -
  have "recv (pm_closed P) (pm_sent P) (pm_next P) = RecvError"
    using assms by (simp add: channel_law_def backlog_def)
  then have "\<not> pm_live (pump_poll recv body P)" "pm_state (pump_poll recv body P) = pm_state P"
    by (simp_all add: pump_poll_def)
  then show ?thesis using ended_stays [of "pump_poll recv body P" recv body "is"] by simp
qed

end
