(* ===== verification/PumpProperties.thy ===== *)
theory PumpProperties
  imports Pump Seed JsonProperties
begin

text \<open>
  What the phone and the seed server learn of their nodes through the event channel: the loops of
  \<open>Pump\<close> with the bodies of the two programs, against the models of \<open>Mobile\<close> and \<open>Seed\<close>, in which an event
  is handled the moment it is emitted.
\<close>

section \<open>The two bodies\<close>

text \<open>One event told to the app's listener.\<close>

definition tell :: "('n, 'a) mobile_env_scheme \<Rightarrow> node_event \<Rightarrow> client \<Rightarrow> client" where
  "tell E ev c = pump E [Emit ev] c"

lemma fold_tell: "fold (tell E) evs c = pump E (List.map Emit evs) c"
  by (induction evs arbitrary: c) (simp_all add: tell_def pump_def)

lemma fold_learn: "fold learn_addr evs st = learn_addrs (List.map Emit evs) st"
  unfolding learn_addrs_def fold_map by (simp add: comp_def)

text \<open>A receiver that does what tokio documents.\<close>

definition toy_receiver :: receiver where
  "toy_receiver closed evs next =
     (if EVENT_CAPACITY < length evs - next then RecvError
      else if next < length evs then Got (evs ! next)
      else if closed then RecvError else Pending)"

lemma toy_channel: "channel_law toy_receiver"
  by (simp add: channel_law_def toy_receiver_def)

section \<open>Prompt and late\<close>

text \<open>C24: A task that is never more than 256 events behind handles every event, once and in order: whatever the
  interleaving of sending and receiving, once the task has caught up the app has been told, and the seed
  server has learnt, exactly what they would have been had each event been handled when it was sent.\<close>

theorem prompt_pump_is_synchronous:
  assumes "channel_law recv" "prompt recv (tell E) is (subscribe past c)" "prompt recv learn_addr is (subscribe past st)"
  shows "(\<exists>k. pm_state (fold (pump_step recv (tell E)) (is @ replicate k Poll) (subscribe past c))
        = pump E (List.map Emit (accepted is)) c)
    \<and> (\<exists>k. pm_state (fold (pump_step recv learn_addr) (is @ replicate k Poll) (subscribe past st))
        = learn_addrs (List.map Emit (accepted is)) st)"
  using polled_to_the_end [OF assms(1,2)] polled_to_the_end [OF assms(1,3)]
  unfolding fold_tell fold_learn by blast

definition following :: client where
  "following = joining\<lparr>cl_listening := True\<rparr>"

definition toy_schedule :: "pump_input list" where
  "toy_schedule = [Sent (Listening ''/ip4/10.0.0.1/tcp/1''), Poll, Poll, Sent Stopped, Closed, Sent Stopped]"

lemma toy_prompt: "prompt toy_receiver body toy_schedule (subscribe [Stopped] s)"
  by (simp add: toy_schedule_def backlog_def subscribe_def pump_poll_def toy_receiver_def EVENT_CAPACITY_def)

theorem prompt_pump_is_synchronous_witness:
  "\<exists>k. cl_events (pm_state (fold (pump_step toy_receiver (tell toy_serde)) (toy_schedule @ replicate k Poll)
       (subscribe [Stopped] following))) =
     [toy_print (event_tree toy_serde (Listening ''/ip4/10.0.0.1/tcp/1'')), toy_print (event_tree toy_serde Stopped)]"
proof -
  have "accepted toy_schedule = [Listening ''/ip4/10.0.0.1/tcp/1'', Stopped]" by (simp add: toy_schedule_def)
  with prompt_pump_is_synchronous [OF toy_channel toy_prompt toy_prompt, of toy_serde following undefined]
  obtain k where "pm_state (fold (pump_step toy_receiver (tell toy_serde)) (toy_schedule @ replicate k Poll)
      (subscribe [Stopped] following)) = pump toy_serde [Emit (Listening ''/ip4/10.0.0.1/tcp/1''), Emit Stopped] following"
    by auto
  moreover have "cl_events (pump toy_serde [Emit (Listening ''/ip4/10.0.0.1/tcp/1''), Emit Stopped] following) =
     [toy_print (event_tree toy_serde (Listening ''/ip4/10.0.0.1/tcp/1'')), toy_print (event_tree toy_serde Stopped)]"
    unfolding pump_def payload_def toy_texts same_trees [OF toy_same] by (simp add: following_def joining_def)
  ultimately show ?thesis by metis
qed

text \<open>C25: A task that wakes more than 256 events behind ends at once, for good: the app is told nothing more, the
  seed server learns no further address, whatever the node does afterwards.\<close>

theorem lagging_pump_goes_silent:
  assumes "channel_law recv"
    "pm_next P \<le> length (pm_sent P)" "256 < backlog P" "pm_next S \<le> length (pm_sent S)" "256 < backlog S"
  shows "pm_state (fold (pump_step recv (tell E)) (Poll # is) P) = pm_state P
    \<and> pm_state (fold (pump_step recv learn_addr) (Poll # is) S) = pm_state S"
  using lagging_ends [OF assms(1,2)] lagging_ends [OF assms(1,4)] assms(3,5) unfolding EVENT_CAPACITY_def by blast

lemma accepted_burst: "accepted (replicate n (Sent ev)) = replicate n ev"
  by (induction n) simp_all

lemma burst_keeps:
  "pm_next (fold (pump_step recv body) (replicate n (Sent ev)) P) = pm_next P"
  "pm_state (fold (pump_step recv body) (replicate n (Sent ev)) P) = pm_state P"
  by (induction n arbitrary: P) simp_all

theorem lagging_pump_goes_silent_witness:
  "pm_state (fold (pump_step toy_receiver (tell toy_serde))
     (replicate 257 (Sent (LocalChanges 1)) @ [Poll, Sent Stopped, Poll]) (subscribe [] following)) = following"
proof -
  let ?P = "fold (pump_step toy_receiver (tell toy_serde)) (replicate 257 (Sent (LocalChanges 1))) (subscribe [] following)"
  let ?S = "fold (pump_step toy_receiver learn_addr) (replicate 257 (Sent (LocalChanges 1))) (subscribe [] undefined)"
  have sizes: "pm_next ?P \<le> length (pm_sent ?P)" "256 < backlog ?P" "pm_next ?S \<le> length (pm_sent ?S)" "256 < backlog ?S"
    by (simp_all only: backlog_def burst_keeps sent_run accepted_burst) (simp_all add: subscribe_def)
  have "pm_state ?P = following" by (simp only: burst_keeps) (simp add: subscribe_def)
  with lagging_pump_goes_silent [OF toy_channel sizes, of toy_serde "[Sent Stopped, Poll]"] show ?thesis by simp
qed

end
