(* ===== verification/HttpJson.thy ===== *)
theory HttpJson
  imports Json Http
begin

text \<open>
  The HTTP interface of the seed server as it is spoken: from the method, path, headers and body of a
  call to a request of \<open>Http\<close> (the routes of \<open>router\<close> in \<open>rust/seed-server/src/http.rs\<close> and the decoders
  \<open>serde\<close> derives for the bodies), and from an answer to its status and JSON text.

  What axum itself answers is an argument: to a call outside the routes (a \<open>HEAD\<close> or \<open>OPTIONS\<close> among them) and
  to a body that it refuses or that does not decode.
\<close>

record http_call =
  hc_method :: string
  hc_path :: string
  hc_json :: bool                       \<comment> \<open>the content type is JSON, the size within the limit\<close>
  hc_auth :: "string option"            \<comment> \<open>a readable \<open>Authorization\<close> header\<close>
  hc_body :: string

record 'n http_env = "'n serde_env" +
  unrouted :: "http_call \<Rightarrow> nat \<times> string"
  undecoded :: "http_call \<Rightarrow> nat \<times> string"

section \<open>Bodies of requests\<close>

text \<open>A field with a default may be missing, not null; in the array form the missing fields are the last.\<close>

definition optional :: "('n json \<Rightarrow> 'x option) \<Rightarrow> 'n json option \<Rightarrow> 'x option option" where
  "optional dec v = (case v of None \<Rightarrow> Some None | Some j \<Rightarrow> map_option Some (dec j))"

definition single :: "(string \<times> 'n json) list \<Rightarrow> string \<Rightarrow> bool" where
  "single m name \<longleftrightarrow> length (List.filter (\<lambda>(k, v). k = name) m) \<le> 1"

fun create_fields :: "'n json \<Rightarrow> ('n json \<times> 'n json option \<times> 'n json option \<times> 'n json option) option" where
  "create_fields (JObj m) =
     (if list_all (single m) [''display_name'', ''role'', ''ttl_hours'']
      then map_option (\<lambda>user. (user, member m ''display_name'', member m ''role'', member m ''ttl_hours''))
             (member m ''user_id'')
      else None)"
| "create_fields (JArr [user]) = Some (user, None, None, None)"
| "create_fields (JArr [user, display]) = Some (user, Some display, None, None)"
| "create_fields (JArr [user, display, r]) = Some (user, Some display, Some r, None)"
| "create_fields (JArr [user, display, r, ttl]) = Some (user, Some display, Some r, Some ttl)"
| "create_fields v = None"

definition create_body_of_tree :: "('n, 'a) serde_env_scheme \<Rightarrow> 'n json \<Rightarrow> create_body option" where
  "create_body_of_tree E v =
     (case create_fields v of
        None \<Rightarrow> None
      | Some (user, display, r, ttl) \<Rightarrow>
          (case (json_str user, optional json_str display, optional json_str r, optional (json_u64 E) ttl) of
             (Some user, Some display, Some r, Some ttl) \<Rightarrow>
               Some \<lparr>cb_user_id = user, cb_display_name = display, cb_role = r, cb_ttl_hours = ttl\<rparr>
           | _ \<Rightarrow> None))"

definition revoke_body_of_tree :: "('n, 'a) serde_env_scheme \<Rightarrow> 'n json \<Rightarrow> u64 option" where
  "revoke_body_of_tree E v =
     (case json_fields [''serial''] v of Some [ser] \<Rightarrow> json_u64 E ser | _ \<Rightarrow> None)"

section \<open>Bodies of answers\<close>

definition option_tree :: "('x \<Rightarrow> 'n json) \<Rightarrow> 'x option \<Rightarrow> 'n json" where
  "option_tree f x = (case x of None \<Rightarrow> JNull | Some v \<Rightarrow> f v)"

definition u64_tree :: "('n, 'a) serde_env_scheme \<Rightarrow> u64 \<Rightarrow> 'n json" where
  "u64_tree E n = JNum (num_of_u64 E n)"

definition invite_tree :: "('n, 'a) serde_env_scheme \<Rightarrow> invite_row \<Rightarrow> 'n json" where
  "invite_tree E i = JObj
     [(''token'', JStr (ir_token i)), (''user_id'', JStr (ir_user i)), (''display_name'', JStr (ir_display i)),
      (''role'', JStr (ir_role i)), (''expires_at_ms'', u64_tree E (ir_expires i)),
      (''used_at_ms'', option_tree (u64_tree E) (ir_used_at i)), (''used_by'', option_tree JStr (ir_used_by i))]"

definition device_tree :: "('n, 'a) serde_env_scheme \<Rightarrow> device_row \<Rightarrow> 'n json" where
  "device_tree E d = JObj
     [(''serial'', u64_tree E (dr_serial d)), (''peer_id'', JStr (dr_peer_id d)), (''user_id'', JStr (dr_user d)),
      (''display_name'', JStr (dr_display d)), (''role'', JStr (dr_role d)), (''platform'', JStr (dr_platform d)),
      (''enrolled_at_ms'', u64_tree E (dr_enrolled d)), (''expires_at_ms'', u64_tree E (dr_expires d)),
      (''revoked_at_ms'', option_tree (u64_tree E) (dr_revoked d))]"

definition created_tree :: "('n, 'a) serde_env_scheme \<Rightarrow> invite_created \<Rightarrow> 'n json" where
  "created_tree E i = JObj
     [(''invite_code'', JStr (ic_invite_code i)), (''user_id'', JStr (ic_user_id i)), (''role'', JStr (ic_role i)),
      (''expires_at_ms'', u64_tree E (ic_expires_at_ms i))]"

definition error_tree :: "string \<Rightarrow> 'n json" where
  "error_tree m = JObj [(''error'', JStr m)]"

definition health_tree :: "'n json" where
  "health_tree = JObj [(''status'', JStr ''ok'')]"

definition invites_tree :: "('n, 'a) serde_env_scheme \<Rightarrow> invite_row list \<Rightarrow> 'n json" where
  "invites_tree E is = JObj [(''invites'', JArr (List.map (invite_tree E) is))]"

definition devices_tree :: "('n, 'a) serde_env_scheme \<Rightarrow> device_row list \<Rightarrow> 'n json" where
  "devices_tree E ds = JObj [(''devices'', JArr (List.map (device_tree E) ds))]"

definition revoked_tree :: "('n, 'a) serde_env_scheme \<Rightarrow> u64 \<Rightarrow> revocation_list \<Rightarrow> 'n json" where
  "revoked_tree E ser l = JObj [(''crl'', crl_tree E l), (''revoked'', u64_tree E ser)]"

fun body_tree :: "('n, 'a) serde_env_scheme \<Rightarrow> api_body \<Rightarrow> 'n json" where
  "body_tree E BodyOk = health_tree"
| "body_tree E (BodyOrg org) = org_tree org"
| "body_tree E (BodyEnrolled r) = response_tree E r"
| "body_tree E (BodyCrl l) = crl_tree E l"
| "body_tree E (BodyInvite i) = created_tree E i"
| "body_tree E (BodyInvites is) = invites_tree E is"
| "body_tree E (BodyDevices ds) = devices_tree E ds"
| "body_tree E (BodyRevoked ser l) = revoked_tree E ser l"
| "body_tree E (BodyError m) = error_tree m"

section \<open>Calls\<close>

definition body_of ::
  "('n, 'a) http_env_scheme \<Rightarrow> ('n json \<Rightarrow> 'x option) \<Rightarrow> ('x \<Rightarrow> api_request) \<Rightarrow> http_call
    \<Rightarrow> (nat \<times> string) + api_request" where
  "body_of E dec rq c =
     (case (if hc_json c then Option.bind (serde_read E (hc_body c)) dec else None) of
        None \<Rightarrow> Inl (undecoded E c)
      | Some x \<Rightarrow> Inr (rq x))"

definition routed :: "('n, 'a) http_env_scheme \<Rightarrow> http_call \<Rightarrow> (nat \<times> string) + api_request" where
  "routed E c =
     (let at = (\<lambda>m p. hc_method c = m \<and> hc_path c = p)
      in if at ''GET'' ''/health'' then Inr GetHealth
         else if at ''GET'' ''/v1/org'' then Inr GetOrg
         else if at ''POST'' ''/v1/enroll'' then body_of E (request_of_tree E) PostEnroll c
         else if at ''GET'' ''/v1/crl'' then Inr GetCrl
         else if at ''POST'' ''/v1/admin/invites'' then body_of E (create_body_of_tree E) (PostInvites (hc_auth c)) c
         else if at ''GET'' ''/v1/admin/invites'' then Inr (GetInvites (hc_auth c))
         else if at ''GET'' ''/v1/admin/devices'' then Inr (GetDevices (hc_auth c))
         else if at ''POST'' ''/v1/admin/revoke'' then body_of E (revoke_body_of_tree E) (PostRevoke (hc_auth c)) c
         else Inl (unrouted E c))"

definition answer_call ::
  "('n, 'a) http_env_scheme \<Rightarrow> 'b seed_env_scheme \<Rightarrow> bytes \<Rightarrow> u64 \<Rightarrow> u64 \<Rightarrow> http_call \<Rightarrow> app_state
    \<Rightarrow> (nat \<times> string) \<times> app_state" where
  "answer_call E S raw t u c st =
     (case routed E c of
        Inl a \<Rightarrow> (a, st)
      | Inr rq \<Rightarrow> (case serve S raw t u rq st of ((code, body), st) \<Rightarrow> ((code, json_print E (body_tree E body)), st)))"

end
