(* ===== verification/JourneyProperties.thy ===== *)
theory JourneyProperties
  imports HttpJson SeedProperties JsonProperties
begin

text \<open>
  Journeys through several components.  Enrolment runs from the phone through the HTTP interface and the
  registry of the seed server back to the phone, all of it over the texts that travel.
\<close>

section \<open>Two programs, one library\<close>

text \<open>Phone and server are built on the same cryptography; what is computed from it alone is the same.\<close>

definition same_crypto :: "'a crypto_scheme \<Rightarrow> 'b crypto_scheme \<Rightarrow> bool" where
  "same_crypto C D \<longleftrightarrow> crypto.truncate C = crypto.truncate D"

lemma same_crypto_fields:
  assumes "same_crypto C D"
  shows "ed_sign C = ed_sign D" "ed_verify C = ed_verify D" "ed_public C = ed_public D"
    "ed_public_ok C = ed_public_ok D" "key_of_ed C = key_of_ed D" "to_peer_id C = to_peer_id D"
    "lib_message C = lib_message D" "blake3 C = blake3 D" "hex_encode C = hex_encode D" "hex_decode C = hex_decode D"
  using assms by (simp_all add: same_crypto_def crypto.defs)

lemma same_crypto_checks:
  assumes "same_crypto C D"
  shows "org_id_from_public C = org_id_from_public D" "device_peer_id C = device_peer_id D"
    "cert_verify C = cert_verify D" "crl_verify C = crl_verify D" "accept C = accept D" "validate C = validate D"
    "build_enroll_request C = build_enroll_request D"
proof -
  note f = same_crypto_fields [OF assms]
  show org: "org_id_from_public C = org_id_from_public D"
    unfolding fun_eq_iff org_id_from_public_def f by simp
  have pub: "ed25519_public C = ed25519_public D" unfolding fun_eq_iff ed25519_public_def f by simp
  have dev: "cert_peer_id C = cert_peer_id D"
    unfolding fun_eq_iff cert_peer_id_def device_pub_to_peer_id_def pub f by simp
  show peer: "device_peer_id C = device_peer_id D" unfolding fun_eq_iff device_peer_id_def f by simp
  show cert: "cert_verify C = cert_verify D" unfolding fun_eq_iff cert_verify_def org pub dev f by simp
  show crl: "crl_verify C = crl_verify D" unfolding fun_eq_iff crl_verify_def org pub f by simp
  have "decode_org_pub C = decode_org_pub D" unfolding fun_eq_iff decode_org_pub_def f by simp
  then show "accept C = accept D" unfolding fun_eq_iff accept_def org cert crl peer f by simp
  show "validate C = validate D" unfolding fun_eq_iff validate_def cert peer by simp
  have "sign_enrollment C = sign_enrollment D" unfolding fun_eq_iff sign_enrollment_def f by simp
  then show "build_enroll_request C = build_enroll_request D"
    unfolding fun_eq_iff build_enroll_request_def f by simp
qed

lemma same_crypto_laws: "same_crypto C D \<Longrightarrow> crypto_laws D \<Longrightarrow> crypto_laws C"
proof -
  assume "same_crypto C D" "crypto_laws D"
  then have "crypto_laws (crypto.truncate C)" by (simp add: same_crypto_def crypto_laws_def crypto.defs)
  then show ?thesis by (simp add: crypto_laws_def crypto.defs)
qed

section \<open>Enrolment\<close>

definition post_enroll :: "string \<Rightarrow> http_call" where
  "post_enroll body = \<lparr>hc_method = ''POST'', hc_path = ''/v1/enroll'', hc_json = True, hc_auth = None, hc_body = body\<rparr>"

lemma routed_enroll:
  "serde_laws E \<Longrightarrow> routed E (post_enroll (json_print E (request_tree E rq))) = Inr (PostEnroll rq)"
  by (simp add: routed_def post_enroll_def body_of_def serde_laws_def plain_trees(1) request_round_trip [unfolded serde_laws_def])

lemma store_crl_sized:
  assumes "crypto_laws S" "store_crl S s = Inr l"
  shows "sized_crl l"
  using assms(2) crypto_lawsD(3) [OF assms(1)]
  by (auto simp: store_crl_def sized_crl_def crl_empty_def sign_crl_def Let_def split: sum.splits option.splits if_splits)

lemma begun:
  assumes "derives_json E" "begin_enrollment E code name plat c = (Inr body, c1)"
  shows "body = json_print E (request_tree E (build_enroll_request E (cl_identity c) code name plat (fst (client_now E c))))"
    "c1 = snd (client_now E c)"
  using assms by (auto simp: begin_enrollment_def derives_json_def split_beta simp del: client_now_fields(6))

text \<open>C9: A phone enrols over HTTP: the text it makes of an invite code, posted to the seed server that issued
  the code, is answered 200 with a text that the phone accepts and stores, and what it then has stored is
  an enrolment it may start on, of that organisation and with the user and the role of the invite.\<close>

theorem phone_enrols_over_http:
  assumes "same_crypto E S" "crypto_laws S" "serde_laws E" "derives_json E"
    "reg_ok (as_store st)" "org_known S org (as_store st)" "next_serial (as_store st) < 2 ^ 64"
    "find_invite (normalize_invite_code code) t (as_store st) = Inr i"
    "begin_enrollment E code name plat c = (Inr body, c1)"
    "\<not> ENROLL_SKEW_MS < abs_diff (fst (client_now E c)) t"
    "fst (client_now E c1) < sat_add u (as_cert_ttl_ms st)" "u \<le> fst (client_now E c1) + MAX_CLOCK_DRIFT_MS"
  shows "\<exists>reply st' txt c2 en. answer_call E S raw t u (post_enroll body) st = ((200, reply), st')
    \<and> complete_enrollment E reply c1 = (Inr txt, c2) \<and> stored_enrollment E (cl_db c2) = Inr (Some en)
    \<and> en_org_id en = org_id S org \<and> user_id (claims (en_cert en)) = iv_user i
    \<and> claim_role (claims (en_cert en)) = role_from_str_lossy (iv_role i)
    \<and> validate E en (cl_identity c) (fst (client_now E c1)) = Inr ()"
proof -
  let ?sk = "cl_identity c" and ?now = "fst (client_now E c1)"
  note same = same_crypto_checks [OF assms(1)]
  have laws: "crypto_laws E" using same_crypto_laws [OF assms(1,2)] .
  obtain resp st' en where serve: "serve S raw t u
        (PostEnroll (build_enroll_request S ?sk code name plat (fst (client_now E c)))) st = ((200, BodyEnrolled resp), st')"
    and acc: "accept S resp ?sk ?now = Inr en" and en: "en_org_id en = org_id S org"
      "validate S en ?sk ?now = Inr ()" "user_id (claims (en_cert en)) = iv_user i"
      "claim_role (claims (en_cert en)) = role_from_str_lossy (iv_role i)"
    and cert: "device_pub (claims (rs_cert resp)) = ed_public S ?sk" "cert_org_pub (rs_cert resp) = ed_public S org"
    and crl: "store_crl S (as_store st') = Inr (rs_crl resp)"
    by (rule enrolment_answer [OF assms(2,5,6,8,10,11,12,7)])
  have call: "answer_call E S raw t u (post_enroll body) st = ((200, json_print E (response_tree E resp)), st')"
    using serve by (simp add: answer_call_def begun(1) [OF assms(4,9)] routed_enroll [OF assms(3)] same(7)
        del: serve.simps client_now_fields)
  have sized: "sized_cert (rs_cert resp)" "sized_crl (rs_crl resp)"
    using cert crypto_lawsD(3) [OF assms(2)] store_crl_sized [OF assms(2) crl] by (simp_all add: sized_cert_def)
  have read: "response_of_json E (json_print E (response_tree E resp)) = Inr resp"
    using from_json_print [OF assms(3) plain_trees(2), of "response_of_tree E"] response_round_trip [OF laws assms(3) sized] assms(4)
    by (simp add: derives_json_def)
  define c2 where "c2 = (snd (client_now E c1))\<lparr>cl_db := save_enrollment (enrollment_json E) en (cl_db (snd (client_now E c1)))\<rparr>"
  have id: "cl_identity c1 = ?sk" by (simp add: begun(2) [OF assms(4,9)])
  have done_: "complete_enrollment E (json_print E (response_tree E resp)) c1 = (Inr (enrollment_json E en), c2)"
    using acc by (simp add: complete_enrollment_def read failed_def split_beta same(5) id c2_def del: client_now_fields(6))
  have "get_meta (cl_db c2) META_KEY = Some (enrollment_json E en)"
    by (simp add: c2_def save_enrollment_def set_meta_def get_meta_def tbl_get_put)
  with stored_reads_back [OF laws assms(3,4)] accepted_sized [OF acc] sized
  have "stored_enrollment E (cl_db c2) = Inr (Some en)" by blast
  with call done_ en show ?thesis by (auto simp: same(6))
qed

definition toy_http :: "(i64 + u64) http_env" where
  "toy_http = serde_env.extend toy_serde \<lparr>unrouted = (\<lambda>c. (404, [])), undecoded = (\<lambda>c. (422, []))\<rparr>"

lemma toy_http_laws: "same_crypto toy_http toy_seed_env" "serde_laws toy_http" "derives_json toy_http"
proof -
  show "same_crypto toy_http toy_seed_env"
    by (simp add: same_crypto_def toy_http_def serde_env.defs toy_seed_env_def toy_serde_defs)
  show "serde_laws toy_http"
    by (simp add: serde_laws_def toy_http_def serde_env.defs toy_read_print toy_serde_defs)
  have "same_json toy_http toy_serde" "same_texts toy_http toy_serde"
    by (simp_all add: same_json_def same_texts_def toy_http_def serde_env.defs)
  then show "derives_json toy_http" by (rule derives_json_agrees) (rule toy_derives)
qed

lemma toy_http_clock:
  "fst (client_now toy_http joining) = 1000" "fst (client_now toy_http (snd (client_now toy_http joining))) = 1001"
  by (simp_all add: client_now_def db_now_def now_ms_def Let_def joining_def small_def replica_file.defs new_clock_def
      toy_http_def serde_env.defs toy_serde_defs)

theorem phone_enrols_over_http_witness:
  "\<exists>body c1 reply st' txt c2 en. begin_enrollment toy_http ''ab2-cd'' ''pad'' ''ios'' joining = (Inr body, c1)
     \<and> answer_call toy_http toy_seed_env [] 1000 1000 (post_enroll body) toy_state = ((200, reply), st')
     \<and> complete_enrollment toy_http reply c1 = (Inr txt, c2)
     \<and> stored_enrollment toy_http (cl_db c2) = Inr (Some en) \<and> claim_role (claims (en_cert en)) = ReadOnly"
proof -
  let ?c1 = "snd (client_now toy_http joining)"
  obtain body where body: "begin_enrollment toy_http ''ab2-cd'' ''pad'' ''ios'' joining = (Inr body, ?c1)"
    by (simp add: begin_enrollment_def split_beta del: client_now_fields)
  have find: "find_invite (normalize_invite_code ''ab2-cd'') 1000 (as_store toy_state) = Inr toy_invite"
    by (simp add: find_invite_def toy_code toy_state_def toy_store_def toy_invite_def)
  have state: "reg_ok (as_store toy_state)" "org_known toy_seed_env [1] (as_store toy_state)"
    "next_serial (as_store toy_state) < 2 ^ 64"
    by (simp_all add: toy_state_def toy_store_ok)
  have skew: "\<not> ENROLL_SKEW_MS < abs_diff (fst (client_now toy_http joining)) 1000"
    by (simp add: toy_http_clock ENROLL_SKEW_MS_def abs_diff_def del: client_now_fields)
  have times: "fst (client_now toy_http ?c1) < sat_add 1000 (as_cert_ttl_ms toy_state)"
    "1000 \<le> fst (client_now toy_http ?c1) + MAX_CLOCK_DRIFT_MS"
    by (simp_all add: toy_http_clock toy_state_def sat_add_def MAX_CLOCK_DRIFT_MS_def del: client_now_fields)
  have "role_from_str_lossy (iv_role toy_invite) = ReadOnly" by code_simp
  with phone_enrols_over_http [OF toy_http_laws(1) toy_seed_env_laws toy_http_laws(2,3) state find body skew times, of "[]"]
    body show ?thesis by metis
qed

end
