(* ===== verification/ViewProperties.thy ===== *)
theory ViewProperties
  imports Visible Samples
begin

text \<open>
  Application tables against the replicated log: what a user of one replica sees of what was merged into it,
  and of a row that another user wrote.
\<close>

section \<open>A table shows the log\<close>

text \<open>C6: In a registered table with a text key and a column for every replicated one, whose only constraints are
  per column ones (as \<open>NOT NULL\<close>) that the defaults meet, as those of the schema are, and that every value in
  the log after the batch meets: applying a batch leaves every row it touched as the log has it, gone when a
  deletion is later than every write to the row, otherwise present and holding in each registered column
  the value of the last write in the log; and it keeps every other row that was so.  (Where a constraint
  fails, the code skips the row, and so does the model.)\<close>

theorem applied_rows_show_the_log:
  assumes "log_ok d" "apply_remote E chs d = (out, d')" "tbl_get (tables d) (ts_name spec) = Some spec" "specs_named d"
    "column_checks E ok spec info" "table_in d ok (ts_name spec) info" "values_fit E ok spec (changes d')"
    "(\<exists>r\<in>set (new_records E chs d). cr_tbl r = ts_name spec \<and> cr_pk r = pk) \<or> row_shows E spec pk d"
  shows "row_shows E spec pk d'"
  using assms by (rule applied_shows)

abbreviation any_value :: "string \<Rightarrow> sql_value \<Rightarrow> bool" where
  "any_value \<equiv> \<lambda>_ _. True"

lemma notes_checks: "column_checks toy_env any_value notes_spec [(''k'', 1), (''v'', 0)]"
  by (simp add: column_checks_def notes_spec_def toy_env_def crypto.defs)

lemma notes_names: "ts_name notes_spec = ''n''" "ts_pk_col notes_spec = ''k''" "ts_cols notes_spec = [''v'']"
  by (simp_all add: notes_spec_def)

lemma started_named: "specs_named (started dev)"
  by (auto simp: specs_named_def started_def notes_spec_def split: if_splits)

lemma started_notes:
  "tbl_get (tables (started dev)) ''n'' = Some notes_spec"
  "table_in (started dev) any_value ''n'' [(''k'', 1), (''v'', 0)]"
  by (simp_all add: started_def table_in_def rows_of_def good_rows_def)

lemma a_record_stored:
  "sc_tbl (stored_of 1 a_record) = ''n''" "sc_pk (stored_of 1 a_record) = ''1''" "sc_col (stored_of 1 a_record) = ''v''"
  "cr_kind a_record = Cell"
  "from_storage (sc_vtype (stored_of 1 a_record)) (sc_val (stored_of 1 a_record)) = Inr (VInt 5)"
proof -
  show "from_storage (sc_vtype (stored_of 1 a_record)) (sc_val (stored_of 1 a_record)) = Inr (VInt 5)"
    using from_storage_to_storage [of "VInt 5"] by (simp add: stored_of_def a_record_def value_ok_def)
qed (simp_all add: stored_of_def a_record_def)

lemma a_record_fits: "values_fit toy_env any_value notes_spec [stored_of 1 a_record]"
  by (simp add: values_fit_def a_record_stored)

lemma b_receives: "apply_remote toy_env a_records (new_node ''b'') =
    (fst (apply_remote toy_env a_records (new_node ''b'')), b_received)"
  by (simp add: b_received_def)

lemma b_node: "log_ok (new_node ''b'')" "changes (new_node ''b'') = []" "changes b_received = [stored_of 1 a_record]"
  "\<not> require_signatures (new_node ''b'')"
  using new_node_ok [OF open_b] by (simp_all add: node_ok_def sample_states)

lemma b_table:
  "tbl_get (tables (new_node ''b'')) (ts_name notes_spec) = Some notes_spec" "specs_named (new_node ''b'')"
  "table_in (new_node ''b'') any_value (ts_name notes_spec) [(''k'', 1), (''v'', 0)]"
  "values_fit toy_env any_value notes_spec (changes b_received)"
  using started_named started_notes a_record_fits by (simp_all add: new_node_eq notes_names b_node(3))

theorem applied_rows_show_the_log_witness:
  "\<exists>r\<in>set (rows_of b_received ''n''). row_value r ''k'' = VText ''1'' \<and> row_value r ''v'' = VInt 5"
proof -
  have "new_records toy_env a_records (new_node ''b'') = [a_record]"
    using b_node by (simp add: sample_records new_records_def fresh_in_def admitted_def a_record_def)
  then have "\<exists>r\<in>set (new_records toy_env a_records (new_node ''b'')). cr_tbl r = ts_name notes_spec \<and> cr_pk r = ''1''"
    by (simp add: a_record_def notes_names)
  then have sh: "row_shows toy_env notes_spec ''1'' b_received"
    by (intro applied_rows_show_the_log [OF b_node(1) b_receives b_table(1,2) notes_checks b_table(3,4)] disjI1)
  have cell: "last_write [stored_of 1 a_record] ''n'' ''1'' ''v'' (stored_of 1 a_record)"
    by (simp add: last_write_def writes_to_def a_record_stored)
  have "\<not> deleted_in [stored_of 1 a_record] ''n'' ''1''"
    by (simp add: deleted_in_def a_record_def)
  moreover have "affinity toy_env t c v = v" for t c v by (simp add: toy_env_def crypto.defs)
  ultimately show ?thesis
    using sh cell by (force simp: row_shows_def Let_def notes_names b_node a_record_stored)
qed

section \<open>A row written on one replica\<close>




end
