(* ===== verification/Spec2Isabelle.thy ===== *)
theory Spec2Isabelle
  imports ReplicaProperties WriteProperties SyncProperties TrustProperties NodeProperties OrganisationProperties
    SeedProperties ServerProperties ClientProperties JsonProperties PumpProperties JourneyProperties
    ViewProperties
begin

text \<open>
  A verification library for \<open>orgsync\<close>, a peer-to-peer replicated database: every device of an
  organisation holds a SQLite replica, captures the application's writes as signed change records,
  exchanges them with its peers over libp2p, and merges what it receives, the last writer of a cell
  winning.  A seed server holds the organisation's key, turns invite codes into device certificates and
  publishes the list of revoked ones.  This library models the Rust crates under \<open>src/rust/\<close>.

  Parts and theories.  The models come in the order of the code; each theory opens with what it holds.

  \<^item> \<open>Prelude\<close>, \<open>Tables\<close>: machine words, bytes, decimal and hexadecimal text, UTF-8, lists; SQLite
    tables with a primary key and Rust's \<open>BTreeMap\<close> as association lists sorted by key.  The locales
    \<open>keyed_table\<close>, \<open>lww_table\<close> and \<open>merge_op\<close> state what the components rely on; they are interpreted
    on the tables of the replica (in \<open>Tables\<close>, \<open>Changes\<close> and \<open>Merging\<close>).
  \<^item> \<open>Errors\<close> (\<open>p2p-core/src/error.rs\<close>), \<open>HybridClock\<close> (\<open>hlc.rs\<close>), \<open>Values\<close> (\<open>db/value.rs\<close>),
    \<open>Crypto\<close> (the interface to Ed25519, blake3, hex and PeerIds), \<open>Identity\<close> (\<open>identity.rs\<close>: roles,
    certificates, revocation lists, signed byte formats).
  \<^item> \<open>Changes\<close> (\<open>db/change.rs\<close>), \<open>Replica\<close> (the state of \<open>Db\<close> in \<open>db/mod.rs\<close> over the schema of
    \<open>db/schema.rs\<close>, its helpers and the capture triggers), \<open>LocalWrites\<close> (\<open>execute\<close>, \<open>flush_local\<close>),
    \<open>RemoteChanges\<close> (\<open>apply_remote\<close>, \<open>version_vector\<close>, \<open>changes_since\<close>, metadata, peers), \<open>Opening\<close>
    (\<open>from_connection\<close>, \<open>register_table\<close>, migrations).
  \<^item> \<open>Enroll\<close> (\<open>enroll.rs\<close>), \<open>Protocol\<close> (\<open>net/proto.rs\<close>, \<open>net/config.rs\<close>), \<open>Behaviour\<close>
    (\<open>net/behaviour.rs\<close> and \<open>build_swarm\<close>: which protocols a node runs and how their construction can
    fail), \<open>Node\<close> (\<open>net/node.rs\<close>).
  \<^item> \<open>Store\<close>, \<open>Http\<close>, \<open>Seed\<close>: the seed server's \<open>store.rs\<close>, \<open>http.rs\<close> and \<open>main.rs\<close>.
  \<^item> \<open>Queries\<close>, \<open>Mobile\<close> (\<open>p2p-mobile/src/lib.rs\<close>), \<open>Cli\<close> (\<open>p2p-cli/src/main.rs\<close>).
  \<^item> \<open>Json\<close>: the JSON trees that \<open>serde\<close> derives for the types of \<open>identity.rs\<close>, \<open>enroll.rs\<close> and
    \<open>net/node.rs\<close>, with the decoders the code uses.  \<open>HttpJson\<close>: the routes of the seed server, the bodies
    its handlers take and the answers they give, from the method, path and text of a call.
  \<^item> \<open>Pump\<close>: the event channel of a node and the loops that follow it on the phone and the seed server.

  How the state corresponds.  \<open>replica_file\<close> is the SQLite file, one field per \<open>_p2p_\<close> table with the
  triggers and the application's tables; \<open>db\<close> extends it by what \<open>Db\<close> keeps in memory.  An operation on
  \<open>Db\<close> takes and returns the \<open>db\<close>; one that can fail returns a sum, \<open>Inl\<close> holding the error, and a
  transaction that fails returns the tables it started from, with the clock it has advanced.  \<open>node\<close> is
  \<open>Runtime\<close>: each handler takes and returns it, and appends to \<open>acts\<close> what the code asks of the swarm;
  \<open>node_step\<close> is one turn of the event loop, so that a run is a list of inputs and every interleaving of
  network events, commands and timers is one.  \<open>store\<close> is the seed server's database and \<open>serve\<close> its
  router; \<open>server\<close> is the running server, its node beside the state of its interface, and
  \<open>server_step\<close> one turn of the node, one call to the interface or one command line beside it.
  \<open>client\<close> is \<open>P2pClient\<close>; the replica it shares with its node lives in \<open>cl_db\<close>.

  What is an argument.  The records \<open>crypto\<close>, \<open>env\<close>, \<open>node_env\<close>, \<open>seed_env\<close>, \<open>client_env\<close>,
  \<open>mobile_env\<close>, \<open>serde_env\<close>, \<open>http_env\<close> and \<open>cli_env\<close>, extending one another, collect the code that is not in the repository:
  cryptography, JSON, CBOR and postcard encodings, multiaddr text, what the transport answers, column
  affinity and constraints of application tables, what SQL text reads and writes, the text of a float,
  and the system clock, which is a function from the number of the reading to the time, so that every
  theorem holds for every behaviour of the clock.  The hypotheses \<open>crypto_laws\<close>, \<open>codec_agrees\<close>,
  \<open>insert_law\<close>, \<open>json_laws\<close> and \<open>serde_laws\<close> state documented behaviour of these libraries; \<open>toy_crypto\<close>, \<open>toy_env\<close>,
  \<open>toy_node_env\<close>, \<open>toy_mobile_on\<close> and \<open>toy_cli\<close> satisfy them, and the witnesses run on them.

  Lemmas and properties.

  \<^item> Merging (\<open>Merging\<close>, \<open>Delivery\<close>, \<open>Applying\<close>, \<open>Network\<close>, \<open>Syncing\<close>): applying records is a fold
    of idempotent, commuting table merges, so the state depends on the set of records alone.
    The network of replicas is hostile: anything may be delivered, made up or not, any number of times.  What
    is assumed of a delivery is \<open>unforged\<close>, that nobody signs for one of the devices but the device; an
    outsider may sign what it likes with keys of its own, even two records with one stamp, and convergence
    is stated up to that (\<open>outsiders_agree\<close>).  \<open>Additions\<close> says, with no invariant assumed, what a call can
    add to a log.  \<open>ReplicaProperties\<close> draws from these convergence, the exact effect of \<open>apply_remote\<close>, the
    last writer of each cell, and that the log of a replica opened with a key holds only records that
    verify; \<open>SyncProperties\<close> that pulling pages transfers the log, that a gap is not filled by pulling, and
    that a replica resumes after reopening.
  \<^item> The running system (\<open>Organisation\<close>, \<open>Conversations\<close>): an organisation is its running nodes and all
    they ever put on the wire; nodes start, restart, take turns of their event loop on whatever the network
    hands them, and their users write to the replicas they share, through \<open>Db::execute\<close> and its own flush or
    past it.  \<open>shadows\<close> is a simulation of it by the network of replicas, so the theorems
    on replicas hold of the nodes as they run: \<open>OrganisationProperties\<close> has the refinement, convergence and
    the origin of every record in transit.  \<open>converse\<close> runs the request and answer turns of two connected
    nodes until nobody has anything outstanding; that it ends, and what it transfers, is proved with a
    measure on the log still to come, and in \<open>Meeting\<close> what the asking node's tables then show.
  \<^item> Writing (\<open>Flushing\<close>, \<open>Reopening\<close>, \<open>Rows\<close>): what a flush appends and stamps, what materialising
    leaves in a table.  \<open>WriteProperties\<close> states them with the registration of a table.
  \<^item> Seeing (\<open>Visible\<close>, \<open>Meeting\<close>, \<open>ViewProperties\<close>): \<open>last_write\<close> and \<open>deleted_in\<close> read off the log
    what a row should be, \<open>row_shows\<close> says that the application's table has it, and \<open>viewing\<close> that the
    whole table does.  Applying a batch keeps that, so it holds through a conversation of two nodes, and
    a row inserted on one replica appears on the others.  The tables it is shown for are those of
    \<open>column_checks\<close>: a text key and constraints per column that the defaults meet, as in the schema the
    program ships.
  \<^item> Trust (\<open>Identity\<close>, \<open>Gate\<close>, \<open>Standing\<close>, \<open>Draining\<close>): certificates, the order and binding of what is
    signed, the gate of the node and the emptying of its outbox.  The locale \<open>node_relation\<close> proves once that a relation containing each kind of
    change a handler makes contains every turn of the loop; it is interpreted on the gate's invariant and,
    in \<open>Clients\<close>, on the node's own membership.  \<open>TrustProperties\<close> and \<open>NodeProperties\<close> hold the results.
  \<^item> The seed server (\<open>Registry\<close>, \<open>SeedProperties\<close>): histories of store operations, each invite minting
    one certificate, the administrator's token, enrolment from request to accepted certificate, and that
    the HTTP and command-line surfaces do nothing but operations of the store, and that the registry is
    well formed after any history.  \<open>ServerProperties\<close> follows a revocation from the interface to the
    server's own node, which it does not reach until a peer brings the new list.
  \<^item> The clients (\<open>Clients\<close>, \<open>ClientProperties\<close>): a session of the mobile client keeps the gate, values
    cross the JSON boundary, a sent message is stored, what the terminal client prints.  \<open>JsonProperties\<close>
    proves that an enrolment is stored and read back byte for byte, \<open>derives_json\<close> saying that the texts of
    the environment are those of the modelled trees.  \<open>JourneyProperties\<close> joins phone and server: from an
    invite code, over the texts that travel, to the enrolment the phone has stored.  \<open>PumpProperties\<close> relates
    the loops on the event channel to the models above, which handle an event when it is emitted: a loop that
    is never more than the channel's capacity behind comes to the same, one that is ends for good.
  \<^item> \<open>Samples\<close> and \<open>NodeSamples\<close> hold the concrete replicas and nodes of the witnesses.

  Some theorems state what the code does although it is hardly intended: a response from a stranger is
  applied, a screened page is asked for again, a gap in an author's records is not closed by any pull, a row
  inserted again with its old values is not announced, re-enrolling a device drops its revocation, a
  running node undoes a new enrolment, a node that cannot listen looks like a running one, a deleted
  message silences a watching terminal, tables whose names differ only in punctuation take each other's
  capture triggers, a stamp whose counter is full stops the clocks that observe it, and a revocation misses
  the running node of the server it is made on.

  Bounds.  Stamps are 64-bit milliseconds and a 32-bit counter, saturating as the code has them;
  \<open>clock_room\<close> says that a flush cannot reach the ceiling of both, \<open>flush_budget\<close> being the ticks it may
  take.  Sequence numbers of SQLite are unbounded integers; the server's serials are, too, and the
  property on enrolment assumes them below \<open>2 ^ 64\<close>.  No definition uses fuel: every loop of the code that
  is modelled is structural or decreases a length, and the conversation of two nodes is a \<open>while_option\<close>
  proved to return.  \<open>pull_rounds\<close> in \<open>Syncing\<close> takes its number of rounds as an argument, and
  \<open>pulling_transfers_the_log\<close> says that the length of the log divided by the page size is enough.

  Not modelled.  What libp2p does with the protocols it is given, beyond the events it reports and the
  requests it carries.  Of \<open>identity.rs\<close>, drawing a fresh key, which is an argument of the operations that
  need one.  Storage failures, a poisoned mutex and task scheduling inside one turn are left out, as are
  argument parsing, logging, sockets and shutdown signals.  The task of a node is run up to its loop inside
  \<open>start\<close>, so the model has no commands that reach the channel before.  Names of tables and triggers are
  compared byte by byte, where SQLite ignores the case of ASCII letters.  A handle counts the readings of
  the clock from zero when it is opened; as the clock is any function of that number, and \<open>Read\<close> of
  \<open>bookkeep\<close> may set it, this leaves no behaviour out.  SQL text is an argument, so a statement of the
  application enters as the row writes SQLite makes of it; how the code quotes names in SQL is modelled in
  \<open>Opening\<close>.  The TypeScript, Kotlin and Swift code under \<open>src/mobile\<close> is user interface.
\<close>

end
